theory Spec2Isabelle
  imports Main "HOL-Library.Word" "HOL-Library.Sublist"
begin

unbundle bit_operations_syntax

section \<open>The world of create\_test\_conflict.py\<close>

text \<open>
  The script is sequential glue around two external things: the filesystem and the
  \<^verbatim>\<open>git\<close> executable. Both are explicit here. A path is the list of its components
  below the root (\<^verbatim>\<open>/Users/user\<close> is \<open>[''Users'', ''user'']\<close>); a Python string is a
  \<open>string\<close> whose characters are read as the code points below 256.
\<close>

type_synonym path = "string list"

datatype entry = Dir | File string

type_synonym fs = "path \<Rightarrow> entry option"

text \<open>The exceptions the script can meet. \<open>CalledProcessError\<close> carries the command, the
  return code, the captured standard output and the captured standard error.\<close>

datatype exn =
    CalledProcessError "string list" int string string
  | FileNotFoundError
  | NotADirectoryError
  | IsADirectoryError
  | FileExistsError
  | LaunchError

text \<open>What one run of the external tool gives back: either the process could not be
  started at all, or it completed with a return code, its standard output and its standard
  error.\<close>

datatype spawned = LaunchFailed | Completed int string string

text \<open>
  The trace records, in order, everything the script does to the outside:
  \<^item> \<open>Print l args\<close>: the \<^verbatim>\<open>print\<close> call at source line \<open>l\<close>, with the values
    interpolated into its text;
  \<^item> \<open>Subprocess cmd cwd seen res left\<close>: one \<^verbatim>\<open>subprocess.run\<close> of \<open>cmd\<close> in directory
    \<open>cwd\<close>, the filesystem the command saw, its result and the filesystem it left;
  \<^item> \<open>WriteText\<close>, \<open>Mkdir\<close>, \<open>Rmtree\<close>: the filesystem calls that succeeded.
\<close>

datatype event =
    Print nat "string list"
  | Subprocess "string list" path fs spawned fs
  | WriteText path string
  | Mkdir path
  | Rmtree path

record world =
  files :: fs
  trace :: "event list"

text \<open>
  The environment of one run: the behaviour of the \<^verbatim>\<open>git\<close> executable (its result and the
  filesystem it leaves may depend on the command, the directory, the filesystem and on
  everything that happened before), the home directory, and the 128 random bits that
  \<^verbatim>\<open>uuid.uuid4()\<close> draws.
\<close>

record env =
  git :: "string list \<Rightarrow> path \<Rightarrow> world \<Rightarrow> spawned \<times> fs"
  home :: path
  random_bits :: "128 word"

subsection \<open>Constants of the script (lines 20--21)\<close>

definition REPO_PATH :: path where
  "REPO_PATH = [''Users'', ''user'', ''projects'', ''website'']"

definition TEST_FILE :: string where
  "TEST_FILE = ''abc.txt''"

subsection \<open>Strings and paths\<close>

definition newline :: char where
  "newline = CHR 0x0A"

text \<open>\<^verbatim>\<open>str.isspace\<close> on the code points below 256.\<close>

definition is_space :: "char \<Rightarrow> bool" where
  "is_space c = ((of_char c :: nat) \<in> {9, 10, 11, 12, 13, 28, 29, 30, 31, 32, 133, 160})"

text \<open>\<^verbatim>\<open>str.strip()\<close> without arguments.\<close>

definition py_strip :: "string \<Rightarrow> string" where
  "py_strip s = rev (dropWhile is_space (rev (dropWhile is_space s)))"

text \<open>\<^verbatim>\<open>sep.join(xs)\<close>.\<close>

fun py_join :: "string \<Rightarrow> string list \<Rightarrow> string" where
  "py_join sep [] = []"
| "py_join sep [x] = x"
| "py_join sep (x # y # ys) = x @ sep @ py_join sep (y # ys)"

text \<open>\<^verbatim>\<open>str(p)\<close> of an absolute POSIX path.\<close>

definition path_str :: "path \<Rightarrow> string" where
  "path_str p = (if p = [] then ''/'' else concat (map (\<lambda>c. ''/'' @ c) p))"

text \<open>\<^verbatim>\<open>p.name\<close>: the final component, empty for the root.\<close>

definition path_name :: "path \<Rightarrow> string" where
  "path_name p = (if p = [] then [] else last p)"

subsection \<open>The filesystem calls\<close>

text \<open>What a path resolves to. The root always is a directory, and a path resolves only
  through directories: an entry of the map below something that is not a directory cannot
  be reached. So every map is a filesystem.\<close>

definition lookup :: "fs \<Rightarrow> path \<Rightarrow> entry option" where
  "lookup f p =
     (if p = [] then Some Dir
      else if list_all (\<lambda>q. q = [] \<or> f q = Some Dir) (prefixes (butlast p)) then f p
      else None)"

text \<open>\<^verbatim>\<open>Path.exists()\<close> and \<^verbatim>\<open>Path.is_dir()\<close>.\<close>

definition path_exists :: "fs \<Rightarrow> path \<Rightarrow> bool" where
  "path_exists f p = (lookup f p \<noteq> None)"

definition is_dir :: "fs \<Rightarrow> path \<Rightarrow> bool" where
  "is_dir f p = (lookup f p = Some Dir)"

text \<open>\<^verbatim>\<open>Path.write_text\<close>: opening for writing fails on a directory and under a parent
  that is missing or is a file; otherwise the file is created or replaced.\<close>

definition fs_write_text :: "path \<Rightarrow> string \<Rightarrow> fs \<Rightarrow> exn + fs" where
  "fs_write_text p s f =
     (case lookup f p of
        Some Dir \<Rightarrow> Inl IsADirectoryError
      | _ \<Rightarrow> (case lookup f (butlast p) of
                None \<Rightarrow> Inl FileNotFoundError
              | Some (File _) \<Rightarrow> Inl NotADirectoryError
              | Some Dir \<Rightarrow> Inr (f(p \<mapsto> File s))))"

text \<open>\<^verbatim>\<open>os.mkdir\<close>.\<close>

definition os_mkdir :: "path \<Rightarrow> fs \<Rightarrow> exn + fs" where
  "os_mkdir p f =
     (case lookup f p of
        Some _ \<Rightarrow> Inl FileExistsError
      | None \<Rightarrow> (case lookup f (butlast p) of
                   None \<Rightarrow> Inl FileNotFoundError
                 | Some (File _) \<Rightarrow> Inl NotADirectoryError
                 | Some Dir \<Rightarrow> Inr (f(p \<mapsto> Dir))))"

text \<open>\<^verbatim>\<open>Path.mkdir(parents=True, exist_ok=True)\<close>, as pathlib writes it: try
  \<^verbatim>\<open>os.mkdir\<close>; on a missing parent make the parent the same way and try once more; on any
  other error succeed exactly when the path is a directory already. The list returned
  with the filesystem names the directories made, in order.\<close>

function path_mkdir :: "path \<Rightarrow> fs \<Rightarrow> exn + fs \<times> path list" where
  "path_mkdir p f =
     (case os_mkdir p f of
        Inr f' \<Rightarrow> Inr (f', [p])
      | Inl FileNotFoundError \<Rightarrow>
          (if p = [] then Inl FileNotFoundError
           else (case path_mkdir (butlast p) f of
                   Inl e \<Rightarrow> Inl e
                 | Inr (f', made) \<Rightarrow>
                     (case os_mkdir p f' of
                        Inr f'' \<Rightarrow> Inr (f'', made @ [p])
                      | Inl FileNotFoundError \<Rightarrow> Inl FileNotFoundError
                      | Inl e \<Rightarrow> if is_dir f' p then Inr (f', made) else Inl e)))
      | Inl e \<Rightarrow> if is_dir f p then Inr (f, []) else Inl e)"
  by pat_completeness auto
termination
  by (relation "measure (\<lambda>(p, f). length p)") auto

text \<open>\<^verbatim>\<open>shutil.rmtree\<close>: the directory and everything below it disappear.\<close>

definition fs_rmtree :: "path \<Rightarrow> fs \<Rightarrow> exn + fs" where
  "fs_rmtree p f =
     (case lookup f p of
        None \<Rightarrow> Inl FileNotFoundError
      | Some (File _) \<Rightarrow> Inl NotADirectoryError
      | Some Dir \<Rightarrow> Inr (\<lambda>q. if prefix p q then None else f q))"

subsection \<open>The random identifier (line 95)\<close>

text \<open>\<^verbatim>\<open>uuid.uuid4()\<close> is \<^verbatim>\<open>UUID(bytes=os.urandom(16), version=4)\<close>: the constructor
  overwrites the variant and the version bits of the 128 random bits.\<close>

definition uuid4 :: "128 word \<Rightarrow> 128 word" where
  "uuid4 r =
     (((r AND NOT (push_bit 48 0xc000)) OR push_bit 48 0x8000)
         AND NOT (push_bit 64 0xf000)) OR push_bit 76 4"

definition hex_digit :: "nat \<Rightarrow> char" where
  "hex_digit n = ''0123456789abcdef'' ! n"

text \<open>\<^verbatim>\<open>'%032x' % n\<close>: 32 hexadecimal digits, the most significant first.\<close>

definition hex32 :: "128 word \<Rightarrow> string" where
  "hex32 x = map (\<lambda>i. hex_digit (unat (drop_bit (4 * (31 - i)) x AND 15))) [0..<32]"

text \<open>\<^verbatim>\<open>str(u)\<close> of a UUID: the digits in groups of 8, 4, 4, 4 and 12.\<close>

definition uuid_str :: "128 word \<Rightarrow> string" where
  "uuid_str x =
     (let h = hex32 x
      in take 8 h @ ''-'' @ take 4 (drop 8 h) @ ''-'' @ take 4 (drop 12 h) @ ''-'' @
         take 4 (drop 16 h) @ ''-'' @ drop 20 h)"

definition short_uuid :: "env \<Rightarrow> string" where
  "short_uuid e = take 8 (uuid_str (uuid4 (random_bits e)))"

subsection \<open>Names and paths derived in step 4 (lines 96--103)\<close>

definition almond_branch :: "env \<Rightarrow> string" where
  "almond_branch e = ''almondcoder/test-conflict-'' @ short_uuid e"

definition worktree_name :: "env \<Rightarrow> string" where
  "worktree_name e = ''test-conflict-'' @ short_uuid e"

definition almondcoder_dir :: "env \<Rightarrow> path" where
  "almondcoder_dir e = home e @ [''.almondcoder'']"

definition project_name :: string where
  "project_name = path_name REPO_PATH"

definition project_worktree_dir :: "env \<Rightarrow> path" where
  "project_worktree_dir e = almondcoder_dir e @ [project_name]"

definition worktree_path :: "env \<Rightarrow> path" where
  "worktree_path e = project_worktree_dir e @ [worktree_name e]"

subsection \<open>The three versions of the fixture file (lines 83, 122, 137)\<close>

definition initial_content :: string where
  "initial_content =
     ''Line 1: Initial content'' @ [newline] @
     ''Line 2: This will cause a conflict'' @ [newline] @
     ''Line 3: Because both branches will modify this'' @ [newline] @
     ''Line 4: Final line'' @ [newline]"

definition almond_content :: string where
  "almond_content =
     ''Line 1: Initial content'' @ [newline] @
     ''Line 2: ALMONDCODER VERSION - This is the AI'' @ [CHR 0x27] @ ''s change'' @ [newline] @
     ''Line 3: ALMONDCODER VERSION - Modified by the assistant'' @ [newline] @
     ''Line 4: Final line'' @ [newline]"

definition main_content :: string where
  "main_content =
     ''Line 1: Initial content'' @ [newline] @
     ''Line 2: MAIN VERSION - This is the manual change'' @ [newline] @
     ''Line 3: MAIN VERSION - Modified directly on main'' @ [newline] @
     ''Line 4: Final line'' @ [newline]"

text \<open>The lines of a text: the pieces that end at a newline, and what is left after the
  last newline when that is not empty.\<close>

fun text_lines :: "string \<Rightarrow> string \<Rightarrow> string list" where
  "text_lines cur [] = (if cur = [] then [] else [cur])"
| "text_lines cur (c # cs) =
     (if c = newline then cur # text_lines [] cs else text_lines (cur @ [c]) cs)"

subsection \<open>Effects on the world\<close>

text \<open>A statement of the script is a function from the world to a result and the new
  world: \<open>Inr v\<close> when it finishes with value \<open>v\<close>, \<open>Inl x\<close> when it raises \<open>x\<close>.\<close>

type_synonym 'a prog = "world \<Rightarrow> (exn + 'a) \<times> world"

definition return :: "'a \<Rightarrow> 'a prog" where
  "return v w = (Inr v, w)"

text \<open>Sequencing: an exception ends the sequence, as a raise does.\<close>

definition and_then :: "'a prog \<Rightarrow> ('a \<Rightarrow> 'b prog) \<Rightarrow> 'b prog" where
  "and_then m k w = (case m w of (Inl x, w') \<Rightarrow> (Inl x, w') | (Inr a, w') \<Rightarrow> k a w')"

definition seq :: "'a prog \<Rightarrow> 'b prog \<Rightarrow> 'b prog" where
  "seq m n = and_then m (\<lambda>_. n)"

text \<open>\<^verbatim>\<open>try: m except: h\<close> with a bare \<^verbatim>\<open>except\<close>: every exception of \<open>m\<close> is caught.\<close>

definition try_except :: "'a prog \<Rightarrow> 'a prog \<Rightarrow> 'a prog" where
  "try_except m h w = (case m w of (Inl x, w') \<Rightarrow> h w' | (Inr a, w') \<Rightarrow> (Inr a, w'))"

definition py_print :: "nat \<Rightarrow> string list \<Rightarrow> unit prog" where
  "py_print l args w = (Inr (), w\<lparr>trace := trace w @ [Print l args]\<rparr>)"

fun print_all :: "(nat \<times> string list) list \<Rightarrow> unit prog" where
  "print_all [] = return ()"
| "print_all ((l, args) # ls) = seq (py_print l args) (print_all ls)"

definition exists_path :: "path \<Rightarrow> bool prog" where
  "exists_path p w = (Inr (path_exists (files w) p), w)"

definition write_text :: "path \<Rightarrow> string \<Rightarrow> unit prog" where
  "write_text p s w =
     (case fs_write_text p s (files w) of
        Inl x \<Rightarrow> (Inl x, w)
      | Inr f' \<Rightarrow> (Inr (), \<lparr>files = f', trace = trace w @ [WriteText p s]\<rparr>))"

definition mkdir :: "path \<Rightarrow> unit prog" where
  "mkdir p w =
     (case path_mkdir p (files w) of
        Inl x \<Rightarrow> (Inl x, w)
      | Inr (f', made) \<Rightarrow> (Inr (), \<lparr>files = f', trace = trace w @ map Mkdir made\<rparr>))"

definition rmtree :: "path \<Rightarrow> unit prog" where
  "rmtree p w =
     (case fs_rmtree p (files w) of
        Inl x \<Rightarrow> (Inl x, w)
      | Inr f' \<Rightarrow> (Inr (), \<lparr>files = f', trace = trace w @ [Rmtree p]\<rparr>))"

text \<open>\<^verbatim>\<open>subprocess.run(cmd, cwd=cwd, capture_output=True, text=True, check=True)\<close>:
  a process that cannot be started raises and leaves the filesystem alone; a completed
  process with a return code other than 0 raises \<open>CalledProcessError\<close>. The value is the
  captured standard output.\<close>

definition subprocess_run :: "env \<Rightarrow> string list \<Rightarrow> path \<Rightarrow> string prog" where
  "subprocess_run e cmd cwd w =
     (case git e cmd cwd w of
        (LaunchFailed, _) \<Rightarrow>
          (Inl LaunchError,
           \<lparr>files = files w,
            trace = trace w @ [Subprocess cmd cwd (files w) LaunchFailed (files w)]\<rparr>)
      | (Completed rc out err, f') \<Rightarrow>
          (let w' = \<lparr>files = f',
                     trace = trace w @ [Subprocess cmd cwd (files w) (Completed rc out err) f']\<rparr>
           in if rc \<noteq> 0 then (Inl (CalledProcessError cmd rc out err), w')
              else (Inr out, w')))"

section \<open>The script\<close>

subsection \<open>run\_git\_command (lines 24--38)\<close>

text \<open>\<open>cwd or REPO_PATH\<close>: without a directory the command runs in the repository. Only a
  \<open>CalledProcessError\<close> is caught: the command and its standard error are printed and the
  exception is raised again.\<close>

definition cwd_or_repo :: "path option \<Rightarrow> path" where
  "cwd_or_repo cwd = (case cwd of None \<Rightarrow> REPO_PATH | Some d \<Rightarrow> d)"

definition run_git_command :: "env \<Rightarrow> string list \<Rightarrow> path option \<Rightarrow> string prog" where
  "run_git_command e cmd cwd w =
     (case subprocess_run e cmd (cwd_or_repo cwd) w of
        (Inr out, w') \<Rightarrow> (Inr (py_strip out), w')
      | (Inl (CalledProcessError c rc out err), w') \<Rightarrow>
          seq (py_print 36 [py_join '' '' cmd])
         (seq (py_print 37 [err])
              (\<lambda>w. (Inl (CalledProcessError c rc out err), w))) w'
      | (Inl x, w') \<Rightarrow> (Inl x, w'))"

subsection \<open>main (lines 41--168)\<close>

text \<open>Lines 63--74: on another branch than main or master, check out main, then master.
  The value is the new \<open>current_branch\<close>; \<open>None\<close> is the \<^verbatim>\<open>return\<close> of line 74.\<close>

definition ensure_primary :: "env \<Rightarrow> string \<Rightarrow> string option prog" where
  "ensure_primary e current_branch =
     (if current_branch \<notin> set [''main'', ''master'']
      then seq (py_print 64 [])
          (try_except
             (seq (run_git_command e [''git'', ''checkout'', ''main''] None)
                  (return (Some ''main'')))
             (try_except
                (seq (run_git_command e [''git'', ''checkout'', ''master''] None)
                     (return (Some ''master'')))
                (seq (py_print 73 [])
                     (return None))))
      else return (Some current_branch))"

text \<open>Step 3, lines 79--92: the initial fixture file, added and committed.\<close>

definition create_initial_file :: "env \<Rightarrow> string \<Rightarrow> unit prog" where
  "create_initial_file e main_branch =
     seq (py_print 81 [TEST_FILE])
    (seq (write_text (REPO_PATH @ [TEST_FILE]) initial_content)
    (seq (run_git_command e [''git'', ''add'', TEST_FILE] None)
    (seq (run_git_command e [''git'', ''commit'', ''-m'', ''Add initial abc.txt file''] None)
         (py_print 92 [TEST_FILE, main_branch]))))"

text \<open>Step 4, lines 94--118: the parent directory, the removal of what is at the worktree
  path, and the worktree on its new branch.\<close>

definition create_worktree :: "env \<Rightarrow> string \<Rightarrow> unit prog" where
  "create_worktree e main_branch =
     seq (mkdir (project_worktree_dir e))
    (seq (py_print 108 [almond_branch e])
    (seq (py_print 109 [path_str (worktree_path e)])
    (seq (and_then (exists_path (worktree_path e)) (\<lambda>found.
            if found
            then seq (py_print 113 [path_str (worktree_path e)])
                     (rmtree (worktree_path e))
            else return ()))
    (seq (run_git_command e
            [''git'', ''worktree'', ''add'', ''-b'', almond_branch e,
             path_str (worktree_path e), main_branch] None)
         (py_print 118 [path_str (worktree_path e)])))))"

text \<open>Step 5, lines 120--132: the assistant's version, committed in the worktree.\<close>

definition modify_in_worktree :: "env \<Rightarrow> unit prog" where
  "modify_in_worktree e =
     seq (py_print 128 [TEST_FILE])
    (seq (write_text (worktree_path e @ [TEST_FILE]) almond_content)
    (seq (run_git_command e [''git'', ''add'', TEST_FILE] (Some (worktree_path e)))
    (seq (run_git_command e
            [''git'', ''commit'', ''-m'', ''Modify abc.txt in almondcoder branch'']
            (Some (worktree_path e)))
         (py_print 132 [TEST_FILE, almond_branch e]))))"

text \<open>Step 6, lines 134--146: the conflicting version, committed in the repository.\<close>

definition modify_in_main :: "env \<Rightarrow> string \<Rightarrow> unit prog" where
  "modify_in_main e main_branch =
     seq (py_print 135 [main_branch])
    (seq (write_text (REPO_PATH @ [TEST_FILE]) main_content)
    (seq (run_git_command e [''git'', ''add'', TEST_FILE] None)
    (seq (run_git_command e
            [''git'', ''commit'', ''-m'', ''Modify abc.txt on main branch (conflicting)'']
            None)
         (py_print 146 [main_branch]))))"

text \<open>Step 7, lines 148--168: the summary.\<close>

definition summary :: "env \<Rightarrow> string \<Rightarrow> (nat \<times> string list) list" where
  "summary e main_branch =
     [(149, []), (150, []), (151, []), (152, [TEST_FILE]), (153, [main_branch]),
      (154, [almond_branch e]), (155, [path_str (worktree_path e)]), (156, []),
      (157, [path_str REPO_PATH]), (158, []), (159, [almond_branch e, main_branch]),
      (160, []), (161, []), (162, []), (163, [path_str REPO_PATH]),
      (164, [path_str (worktree_path e)]), (165, [almond_branch e]), (166, []),
      (167, [TEST_FILE]), (168, [])]"

text \<open>Steps 3 to 7 on the base branch \<open>main_branch\<close> (lines 76--168).\<close>

definition build_scenario :: "env \<Rightarrow> string \<Rightarrow> unit prog" where
  "build_scenario e main_branch =
     seq (py_print 77 [main_branch])
    (seq (create_initial_file e main_branch)
    (seq (create_worktree e main_branch)
    (seq (modify_in_worktree e)
    (seq (modify_in_main e main_branch)
         (print_all (summary e main_branch))))))"

text \<open>The whole procedure. \<open>Inr ()\<close> is a normal return, \<open>Inl x\<close> an exception that leaves
  \<open>main\<close>.\<close>

definition main :: "env \<Rightarrow> unit prog" where
  "main e =
     seq (py_print 42 [])
    (seq (py_print 43 [])
    (and_then (exists_path REPO_PATH) (\<lambda>repo_found.
       if \<not> repo_found
       then seq (py_print 47 [path_str REPO_PATH])
                (py_print 48 [])
       else and_then (exists_path (REPO_PATH @ [''.git''])) (\<lambda>git_found.
         if \<not> git_found
         then seq (py_print 52 [path_str REPO_PATH])
                  (py_print 53 [path_str REPO_PATH])
         else seq (py_print 56 [path_str REPO_PATH])
             (and_then (run_git_command e [''git'', ''branch'', ''--show-current''] None)
                (\<lambda>current_branch.
              seq (py_print 60 [current_branch])
             (and_then (ensure_primary e current_branch) (\<lambda>resolved.
                case resolved of
                  None \<Rightarrow> return ()
                | Some main_branch \<Rightarrow> build_scenario e main_branch))))))))"

text \<open>Lines 171--172: the process ends with status 0 when \<open>main\<close> returns and with status
  1 when an exception leaves it.\<close>

definition exit_status :: "env \<Rightarrow> world \<Rightarrow> int" where
  "exit_status e w0 = (case fst (main e w0) of Inr _ \<Rightarrow> 0 | Inl _ \<Rightarrow> 1)"

section \<open>Observing a run\<close>

text \<open>What a run added to the trace.\<close>

definition new_events :: "world \<Rightarrow> world \<Rightarrow> event list" where
  "new_events w w' = drop (length (trace w)) (trace w')"

text \<open>A command succeeded when its process completed with return code 0.\<close>

fun call_ok :: "spawned \<Rightarrow> bool" where
  "call_ok (Completed rc out err) = (rc = 0)"
| "call_ok LaunchFailed = False"

text \<open>The commands run, in order: the command line, the directory, and whether it
  succeeded.\<close>

fun git_calls :: "event list \<Rightarrow> (string list \<times> path \<times> bool) list" where
  "git_calls [] = []"
| "git_calls (Subprocess cmd cwd seen res left # evs) = (cmd, cwd, call_ok res) # git_calls evs"
| "git_calls (Print l args # evs) = git_calls evs"
| "git_calls (WriteText p s # evs) = git_calls evs"
| "git_calls (Mkdir p # evs) = git_calls evs"
| "git_calls (Rmtree p # evs) = git_calls evs"

text \<open>The commits made: a successful \<^verbatim>\<open>git commit -m msg\<close> makes one commit on the branch
  that is checked out in the working tree it runs in. Each commit is listed with that
  working tree and its message.\<close>

fun commit_of :: "string list \<times> path \<times> bool \<Rightarrow> (path \<times> string) list" where
  "commit_of (cmd, cwd, ok) =
     (if ok \<and> length cmd = 4 \<and> take 3 cmd = [''git'', ''commit'', ''-m'']
      then [(cwd, last cmd)] else [])"

definition commits :: "event list \<Rightarrow> (path \<times> string) list" where
  "commits evs = concat (map commit_of (git_calls evs))"

text \<open>What \<^verbatim>\<open>git add abc.txt\<close> found: the working tree it ran in and the fixture file as
  it was in that tree at that moment.\<close>

fun stage_of :: "event \<Rightarrow> (path \<times> entry option) list" where
  "stage_of (Subprocess cmd cwd seen res left) =
     (if cmd = [''git'', ''add'', TEST_FILE] then [(cwd, lookup seen (cwd @ [TEST_FILE]))]
      else [])"
| "stage_of (Print l args) = []"
| "stage_of (WriteText p s) = []"
| "stage_of (Mkdir p) = []"
| "stage_of (Rmtree p) = []"

definition staged :: "event list \<Rightarrow> (path \<times> entry option) list" where
  "staged evs = concat (map stage_of evs)"

text \<open>The current branch as the run reported it at line 60.\<close>

fun reported_branch :: "event list \<Rightarrow> string option" where
  "reported_branch [] = None"
| "reported_branch (Print l args # evs) =
     (if l = 60 then (case args of [cb] \<Rightarrow> Some cb | _ \<Rightarrow> None) else reported_branch evs)"
| "reported_branch (Subprocess cmd cwd seen res left # evs) = reported_branch evs"
| "reported_branch (WriteText p s # evs) = reported_branch evs"
| "reported_branch (Mkdir p # evs) = reported_branch evs"
| "reported_branch (Rmtree p # evs) = reported_branch evs"

fun is_subprocess :: "event \<Rightarrow> bool" where
  "is_subprocess (Subprocess cmd cwd seen res left) = True"
| "is_subprocess (Print l args) = False"
| "is_subprocess (WriteText p s) = False"
| "is_subprocess (Mkdir p) = False"
| "is_subprocess (Rmtree p) = False"

fun is_print :: "event \<Rightarrow> bool" where
  "is_print (Print l args) = True"
| "is_print (Subprocess cmd cwd seen res left) = False"
| "is_print (WriteText p s) = False"
| "is_print (Mkdir p) = False"
| "is_print (Rmtree p) = False"

text \<open>The commands of the branch-resolution fallback.\<close>

definition is_checkout :: "string list \<Rightarrow> bool" where
  "is_checkout cmd = (take 2 cmd = [''git'', ''checkout''])"

definition is_worktree_add :: "string list \<Rightarrow> bool" where
  "is_worktree_add cmd = (take 3 cmd = [''git'', ''worktree'', ''add''])"

text \<open>A command outside the fallback that exited with another code than 0.\<close>

fun failed_call :: "event \<Rightarrow> bool" where
  "failed_call (Subprocess cmd cwd seen (Completed rc out err) left) =
     (rc \<noteq> 0 \<and> \<not> is_checkout cmd)"
| "failed_call (Subprocess cmd cwd seen LaunchFailed left) = False"
| "failed_call (Print l args) = False"
| "failed_call (WriteText p s) = False"
| "failed_call (Mkdir p) = False"
| "failed_call (Rmtree p) = False"

subsection \<open>Properties of all runs of a statement\<close>

definition failure :: "exn + 'a \<Rightarrow> exn option" where
  "failure r = (case r of Inl x \<Rightarrow> Some x | Inr _ \<Rightarrow> None)"

text \<open>\<open>obeys I m\<close>: whatever the world, \<open>m\<close> only adds events to the trace, and the
  exception it ends with (if any), the events it adds and the filesystem it leaves
  satisfy \<open>I\<close>.\<close>

definition obeys :: "(exn option \<Rightarrow> event list \<Rightarrow> fs \<Rightarrow> bool) \<Rightarrow> 'a prog \<Rightarrow> bool" where
  "obeys I m \<longleftrightarrow>
     (\<forall>w r w'. m w = (r, w') \<longrightarrow>
        (\<exists>evs. trace w' = trace w @ evs \<and> I (failure r) evs (files w')))"

definition composable :: "(exn option \<Rightarrow> event list \<Rightarrow> fs \<Rightarrow> bool) \<Rightarrow> bool" where
  "composable I \<longleftrightarrow>
     (\<forall>evs1 f1 x evs2 f2. I None evs1 f1 \<longrightarrow> I x evs2 f2 \<longrightarrow> I x (evs1 @ evs2) f2)"

definition quiet :: "(exn option \<Rightarrow> event list \<Rightarrow> fs \<Rightarrow> bool) \<Rightarrow> bool" where
  "quiet I \<longleftrightarrow> (\<forall>x evs f. (\<forall>ev \<in> set evs. \<not> is_subprocess ev) \<longrightarrow> I x evs f)"

text \<open>Either no command outside the fallback failed, or one did and the run ended there:
  the trace ends with that command and the two lines \<open>run_git_command\<close> prints, the
  exception is the command's, and the filesystem is as the command left it.\<close>

definition abort_inv :: "exn option \<Rightarrow> event list \<Rightarrow> fs \<Rightarrow> bool" where
  "abort_inv x evs fl \<longleftrightarrow>
     (\<forall>ev \<in> set evs. \<not> failed_call ev) \<or>
     (\<exists>pre cmd cwd seen rc out err.
        evs = pre @ [Subprocess cmd cwd seen (Completed rc out err) fl,
                     Print 36 [py_join '' '' cmd], Print 37 [err]] \<and>
        (\<forall>ev \<in> set pre. \<not> failed_call ev) \<and>
        x = Some (CalledProcessError cmd rc out err))"

text \<open>Every command run satisfies \<open>P\<close>, a property of the command line, the directory and
  the filesystem the command saw.\<close>

definition calls_satisfy ::
  "(string list \<Rightarrow> path \<Rightarrow> fs \<Rightarrow> bool) \<Rightarrow> exn option \<Rightarrow> event list \<Rightarrow> fs \<Rightarrow> bool" where
  "calls_satisfy P x evs fl \<longleftrightarrow>
     (\<forall>cmd cwd seen res left. Subprocess cmd cwd seen res left \<in> set evs \<longrightarrow> P cmd cwd seen)"

text \<open>What holds whenever \<^verbatim>\<open>git worktree add\<close> is run: the command line and directory are
  those of line 117, nothing is at the worktree path, and the parent directory and all
  its ancestors are directories.\<close>

definition worktree_add_ok :: "env \<Rightarrow> string list \<Rightarrow> path \<Rightarrow> fs \<Rightarrow> bool" where
  "worktree_add_ok e cmd cwd seen \<longleftrightarrow>
     (is_worktree_add cmd \<longrightarrow>
        (\<exists>b. cmd = [''git'', ''worktree'', ''add'', ''-b'', almond_branch e,
                     path_str (worktree_path e), b]) \<and>
        cwd = REPO_PATH \<and>
        lookup seen (worktree_path e) = None \<and>
        (\<forall>q. prefix q (project_worktree_dir e) \<longrightarrow> lookup seen q = Some Dir))"

section \<open>Sample worlds and environments\<close>

text \<open>The inverse of \<open>path_str\<close>: the components between the slashes.\<close>

fun path_of_str :: "string \<Rightarrow> string \<Rightarrow> path" where
  "path_of_str cur [] = (if cur = [] then [] else [cur])"
| "path_of_str cur (c # cs) =
     (if c = CHR ''/'' then (if cur = [] then [] else [cur]) @ path_of_str [] cs
      else path_of_str (cur @ [c]) cs)"

text \<open>A machine without the repository, and one with the repository initialised.\<close>

definition empty_world :: world where
  "empty_world = \<lparr>files = Map.empty, trace = []\<rparr>"

definition sample_files :: fs where
  "sample_files =
     [[''Users''] \<mapsto> Dir,
      [''Users'', ''user''] \<mapsto> Dir,
      [''Users'', ''user'', ''projects''] \<mapsto> Dir,
      [''Users'', ''user'', ''projects'', ''website''] \<mapsto> Dir,
      [''Users'', ''user'', ''projects'', ''website'', ''.git''] \<mapsto> Dir]"

definition sample_world :: world where
  "sample_world = \<lparr>files = sample_files, trace = []\<rparr>"

text \<open>A \<^verbatim>\<open>git\<close> that is on branch main and lets every command succeed; \<^verbatim>\<open>worktree add\<close>
  makes the directory with the fixture file in it.\<close>

definition sample_git :: "string list \<Rightarrow> path \<Rightarrow> world \<Rightarrow> spawned \<times> fs" where
  "sample_git cmd cwd w =
     (if cmd = [''git'', ''branch'', ''--show-current'']
      then (Completed 0 (''main'' @ [newline]) [], files w)
      else if is_worktree_add cmd \<and> length cmd = 7
      then (Completed 0 [] [],
            (files w)(path_of_str [] (cmd ! 5) \<mapsto> Dir,
                      path_of_str [] (cmd ! 5) @ [TEST_FILE] \<mapsto> File initial_content))
      else (Completed 0 [] [], files w))"

definition sample_bits :: "128 word" where
  "sample_bits = 0x12345678000000000000000000000000"

definition sample_env :: "128 word \<Rightarrow> env" where
  "sample_env r = \<lparr>git = sample_git, home = [''Users'', ''user''], random_bits = r\<rparr>"

text \<open>The filesystems of the sample run, after the first write, after the parent directory
  is made, after the worktree is added, and after the second and the third write; and the
  whole trace of the run.\<close>

definition sample_files_1 :: fs where
  "sample_files_1 = sample_files(REPO_PATH @ [TEST_FILE] \<mapsto> File initial_content)"

definition sample_files_2 :: fs where
  "sample_files_2 =
     sample_files_1([''Users'', ''user'', ''.almondcoder''] \<mapsto> Dir,
                    [''Users'', ''user'', ''.almondcoder'', ''website''] \<mapsto> Dir)"

definition sample_files_3 :: fs where
  "sample_files_3 =
     sample_files_2(worktree_path (sample_env sample_bits) \<mapsto> Dir,
                    worktree_path (sample_env sample_bits) @ [TEST_FILE] \<mapsto> File initial_content)"

definition sample_files_4 :: fs where
  "sample_files_4 =
     sample_files_3(worktree_path (sample_env sample_bits) @ [TEST_FILE] \<mapsto> File almond_content)"

definition sample_files_5 :: fs where
  "sample_files_5 = sample_files_4(REPO_PATH @ [TEST_FILE] \<mapsto> File main_content)"

definition sample_trace :: "event list" where
  "sample_trace =
     (let e = sample_env sample_bits; wt = worktree_path e; done = Completed 0 [] [] in
      [Print 42 [], Print 43 [], Print 56 [path_str REPO_PATH],
       Subprocess [''git'', ''branch'', ''--show-current''] REPO_PATH sample_files
         (Completed 0 (''main'' @ [newline]) []) sample_files,
       Print 60 [''main''], Print 77 [''main''],
       Print 81 [TEST_FILE],
       WriteText (REPO_PATH @ [TEST_FILE]) initial_content,
       Subprocess [''git'', ''add'', TEST_FILE] REPO_PATH sample_files_1 done sample_files_1,
       Subprocess [''git'', ''commit'', ''-m'', ''Add initial abc.txt file''] REPO_PATH
         sample_files_1 done sample_files_1,
       Print 92 [TEST_FILE, ''main''],
       Mkdir [''Users'', ''user'', ''.almondcoder''],
       Mkdir [''Users'', ''user'', ''.almondcoder'', ''website''],
       Print 108 [almond_branch e], Print 109 [path_str wt],
       Subprocess [''git'', ''worktree'', ''add'', ''-b'', almond_branch e, path_str wt, ''main'']
         REPO_PATH sample_files_2 done sample_files_3,
       Print 118 [path_str wt],
       Print 128 [TEST_FILE],
       WriteText (wt @ [TEST_FILE]) almond_content,
       Subprocess [''git'', ''add'', TEST_FILE] wt sample_files_4 done sample_files_4,
       Subprocess [''git'', ''commit'', ''-m'', ''Modify abc.txt in almondcoder branch''] wt
         sample_files_4 done sample_files_4,
       Print 132 [TEST_FILE, almond_branch e],
       Print 135 [''main''],
       WriteText (REPO_PATH @ [TEST_FILE]) main_content,
       Subprocess [''git'', ''add'', TEST_FILE] REPO_PATH sample_files_5 done sample_files_5,
       Subprocess [''git'', ''commit'', ''-m'', ''Modify abc.txt on main branch (conflicting)'']
         REPO_PATH sample_files_5 done sample_files_5,
       Print 146 [''main'']] @
      map (\<lambda>(l, args). Print l args) (summary e ''main''))"

text \<open>What a run leaves that broke off after the worktree was added: a directory at the
  worktree path.\<close>

definition stale_world :: world where
  "stale_world = \<lparr>files = sample_files_3, trace = []\<rparr>"

text \<open>A \<^verbatim>\<open>git\<close> that refuses every command, as in a directory whose \<^verbatim>\<open>.git\<close> is damaged.\<close>

definition broken_git :: "string list \<Rightarrow> path \<Rightarrow> world \<Rightarrow> spawned \<times> fs" where
  "broken_git cmd cwd w = (Completed 128 [] ''fatal: not a git repository'', files w)"

definition broken_env :: env where
  "broken_env = \<lparr>git = broken_git, home = [''Users'', ''user''], random_bits = sample_bits\<rparr>"

text \<open>A repository whose only branch is develop: the checkouts of main and master fail.\<close>

definition develop_git :: "string list \<Rightarrow> path \<Rightarrow> world \<Rightarrow> spawned \<times> fs" where
  "develop_git cmd cwd w =
     (if cmd = [''git'', ''branch'', ''--show-current'']
      then (Completed 0 (''develop'' @ [newline]) [], files w)
      else (Completed 1 [] ''error: pathspec did not match any file(s) known to git'', files w))"

definition develop_env :: env where
  "develop_env = \<lparr>git = develop_git, home = [''Users'', ''user''], random_bits = sample_bits\<rparr>"

text \<open>A \<^verbatim>\<open>git\<close> that refuses \<^verbatim>\<open>worktree add\<close> and lets every other command succeed: the run
  breaks off in step 4, after the first commit and after the parent directory is made. The
  trace of that run follows.\<close>

definition refusing_git :: "string list \<Rightarrow> path \<Rightarrow> world \<Rightarrow> spawned \<times> fs" where
  "refusing_git cmd cwd w =
     (if is_worktree_add cmd
      then (Completed 128 [] ''fatal: could not create leading directories'', files w)
      else sample_git cmd cwd w)"

definition refusing_env :: env where
  "refusing_env = \<lparr>git = refusing_git, home = [''Users'', ''user''], random_bits = sample_bits\<rparr>"

definition refused_trace :: "event list" where
  "refused_trace =
     [Print 42 [], Print 43 [], Print 56 [''/Users/user/projects/website''],
      Subprocess [''git'', ''branch'', ''--show-current''] REPO_PATH sample_files
        (Completed 0 (''main'' @ [newline]) []) sample_files,
      Print 60 [''main''], Print 77 [''main''],
      Print 81 [''abc.txt''],
      WriteText (REPO_PATH @ [TEST_FILE]) initial_content,
      Subprocess [''git'', ''add'', ''abc.txt''] REPO_PATH sample_files_1 (Completed 0 [] [])
        sample_files_1,
      Subprocess [''git'', ''commit'', ''-m'', ''Add initial abc.txt file''] REPO_PATH
        sample_files_1 (Completed 0 [] []) sample_files_1,
      Print 92 [''abc.txt'', ''main''],
      Mkdir [''Users'', ''user'', ''.almondcoder''],
      Mkdir [''Users'', ''user'', ''.almondcoder'', ''website''],
      Print 108 [''almondcoder/test-conflict-12345678''],
      Print 109 [''/Users/user/.almondcoder/website/test-conflict-12345678''],
      Subprocess [''git'', ''worktree'', ''add'', ''-b'', ''almondcoder/test-conflict-12345678'',
                  ''/Users/user/.almondcoder/website/test-conflict-12345678'', ''main'']
        REPO_PATH sample_files_2 (Completed 128 [] ''fatal: could not create leading directories'')
        sample_files_2,
      Print 36 [''git worktree add -b almondcoder/test-conflict-12345678 /Users/user/.almondcoder/website/test-conflict-12345678 main''],
      Print 37 [''fatal: could not create leading directories'']]"




text \<open>A checkout whose \<^verbatim>\<open>.git\<close> is a file, as in a linked worktree.\<close>

definition linked_world :: world where
  "linked_world =
     \<lparr>files = sample_files(REPO_PATH @ [''.git''] \<mapsto> File ''gitdir: /Users/user/main/.git/worktrees/website''),
      trace = []\<rparr>"

section \<open>Lemmas on the filesystem\<close>

lemma prefix_butlast_iff: "p \<noteq> [] \<Longrightarrow> prefix q (butlast p) \<longleftrightarrow> strict_prefix q p"
proof -
  assume "p \<noteq> []"
  then obtain ys y where p: "p = ys @ [y]" by (metis append_butlast_last_id)
  have "prefix q ys \<Longrightarrow> q \<noteq> ys @ [y]"
    using prefix_length_le by fastforce
  then show ?thesis by (auto simp: p strict_prefix_def)
qed

lemma lookup_Nil [simp]: "lookup f [] = Some Dir"
  by (simp add: lookup_def)

lemma lookup_eq:
  "p \<noteq> [] \<Longrightarrow> lookup f p = (if (\<forall>q. strict_prefix q p \<and> q \<noteq> [] \<longrightarrow> f q = Some Dir) then f p else None)"
  by (auto simp: lookup_def list_all_iff prefix_butlast_iff)

lemma lookup_ancestor:
  assumes "lookup f p \<noteq> None" "strict_prefix q p"
  shows "lookup f q = Some Dir"
proof (cases "q = []")
  case True then show ?thesis by simp
next
  case False
  from assms(2) have pne: "p \<noteq> []" by auto
  from assms(1) pne have all: "\<forall>q'. strict_prefix q' p \<and> q' \<noteq> [] \<longrightarrow> f q' = Some Dir"
    by (simp add: lookup_eq split: if_splits)
  have "\<forall>q'. strict_prefix q' q \<and> q' \<noteq> [] \<longrightarrow> f q' = Some Dir"
    using all assms(2) by (meson prefix_order.less_trans)
  moreover have "f q = Some Dir" using all assms(2) False by blast
  ultimately show ?thesis using False by (simp add: lookup_eq)
qed

lemma lookup_prefix_Dir:
  "lookup f p = Some Dir \<Longrightarrow> prefix q p \<Longrightarrow> lookup f q = Some Dir"
  by (metis lookup_ancestor option.distinct(1) prefix_order.le_less)

lemma lookup_below_None:
  "lookup f p = None \<Longrightarrow> prefix p q \<Longrightarrow> lookup f q = None"
  by (metis lookup_ancestor option.distinct(1) prefix_order.le_less)

lemma lookup_upd_other:
  assumes "\<not> prefix p q"
  shows "lookup (f(p \<mapsto> x)) q = lookup f q"
proof (cases "q = []")
  case True then show ?thesis by simp
next
  case False
  have "\<And>q'. strict_prefix q' q \<Longrightarrow> q' \<noteq> p" using assms by auto
  moreover have "q \<noteq> p" using assms by auto
  ultimately show ?thesis using False by (auto simp add: lookup_eq)
qed

lemma lookup_upd_same:
  assumes "p \<noteq> []" "lookup f (butlast p) = Some Dir"
  shows "lookup (f(p \<mapsto> x)) p = Some x"
proof -
  have "f q = Some Dir" if "strict_prefix q p" "q \<noteq> []" for q
  proof -
    from that assms(1) have "prefix q (butlast p)" by (simp add: prefix_butlast_iff)
    with assms(2) have "lookup f q = Some Dir" by (rule lookup_prefix_Dir)
    with that(2) show ?thesis by (simp add: lookup_eq split: if_splits)
  qed
  then show ?thesis using assms(1) by (auto simp add: lookup_eq)
qed

lemma os_mkdir_Inr:
  assumes "os_mkdir p f = Inr f'"
  shows "f' = f(p \<mapsto> Dir)" "lookup f p = None" "lookup f (butlast p) = Some Dir" "lookup f' p = Some Dir"
proof -
  from assms show a: "lookup f p = None"
    by (cases "lookup f p") (simp_all add: os_mkdir_def)
  from assms a show b: "lookup f (butlast p) = Some Dir"
    by (cases "lookup f (butlast p)") (simp_all add: os_mkdir_def split: entry.splits)
  from assms a b show c: "f' = f(p \<mapsto> Dir)" by (simp add: os_mkdir_def)
  from a have "p \<noteq> []" by auto
  with b c show "lookup f' p = Some Dir" by (simp add: lookup_upd_same)
qed

lemma path_mkdir_Dir:
  "path_mkdir p f = Inr (f', made) \<Longrightarrow> lookup f' p = Some Dir"
proof (induction p f arbitrary: f' made rule: path_mkdir.induct)
  case (1 p f)
  show ?case
  proof (cases "os_mkdir p f")
    case (Inr g)
    with "1.prems" have "f' = g" by (simp add: path_mkdir.simps[of p f])
    with Inr show ?thesis by (simp add: os_mkdir_Inr(4))
  next
    case (Inl x)
    show ?thesis
    proof (cases "x = FileNotFoundError")
      case nf: True
      with Inl "1.prems" have pne: "p \<noteq> []"
        by (auto simp: path_mkdir.simps[of p f])
      from Inl nf pne "1.prems" obtain g made1 where rec: "path_mkdir (butlast p) f = Inr (g, made1)"
        by (cases "path_mkdir (butlast p) f") (auto simp: path_mkdir.simps[of p f])
      show ?thesis
      proof (cases "os_mkdir p g")
        case (Inr g')
        with Inl nf pne rec "1.prems" have "f' = g'" by (simp add: path_mkdir.simps[of p f])
        with Inr show ?thesis by (simp add: os_mkdir_Inr(4))
      next
        case inl2: (Inl y)
        with Inl nf pne rec "1.prems" have "is_dir g p \<and> f' = g"
          by (cases y) (simp_all add: path_mkdir.simps[of p f] split: if_splits)
        then show ?thesis by (simp add: is_dir_def)
      qed
    next
      case False
      with Inl "1.prems" have "is_dir f p \<and> f' = f"
        by (cases x) (simp_all add: path_mkdir.simps[of p f] split: if_splits)
      then show ?thesis by (simp add: is_dir_def)
    qed
  qed
qed

lemma fs_write_text_Inr:
  assumes "fs_write_text p s f = Inr f'"
  shows "f' = f(p \<mapsto> File s)" "lookup f' p = Some (File s)"
proof -
  from assms have nd: "lookup f p \<noteq> Some Dir"
    by (cases "lookup f p") (auto simp: fs_write_text_def split: entry.splits)
  then have pne: "p \<noteq> []" by auto
  from assms nd have b: "lookup f (butlast p) = Some Dir"
    by (cases "lookup f (butlast p)"; cases "lookup f p") (auto simp: fs_write_text_def split: entry.splits)
  from assms nd b show c: "f' = f(p \<mapsto> File s)" 
    by (cases "lookup f p") (auto simp: fs_write_text_def split: entry.splits)
  with pne b show "lookup f' p = Some (File s)" by (simp add: lookup_upd_same)
qed

lemma fs_rmtree_Inr:
  assumes "fs_rmtree p f = Inr f'"
  shows "lookup f p = Some Dir" "f' = (\<lambda>q. if prefix p q then None else f q)"
proof -
  from assms show a: "lookup f p = Some Dir"
    by (cases "lookup f p") (auto simp: fs_rmtree_def split: entry.splits)
  with assms show b: "f' = (\<lambda>q. if prefix p q then None else f q)"
    by (simp add: fs_rmtree_def)
qed

lemma lookup_removed:
  assumes "p \<noteq> []" "prefix p q"
  shows "lookup (\<lambda>q. if prefix p q then None else f q) q = None"
proof -
  from assms have "q \<noteq> []" by auto
  then show ?thesis using assms(2) by (simp add: lookup_eq)
qed

lemma lookup_kept:
  assumes "\<not> prefix p q"
  shows "lookup (\<lambda>q. if prefix p q then None else f q) q = lookup f q"
proof (cases "q = []")
  case True then show ?thesis by simp
next
  case False
  have "\<And>q'. strict_prefix q' q \<Longrightarrow> \<not> prefix p q'" using assms by (meson prefix_order.less_imp_le prefix_order.trans)
  then show ?thesis using False assms by (auto simp add: lookup_eq)
qed

section \<open>Lemmas on the identifier\<close>

lemma length_hex32 [simp]: "length (hex32 x) = 32"
  by (simp add: hex32_def)

lemma take8_uuid_str: "take 8 (uuid_str x) = take 8 (hex32 x)"
  by (simp add: uuid_str_def Let_def)

lemma short_uuid_eq:
  "short_uuid e = map (\<lambda>i. hex_digit (unat (drop_bit (4 * (31 - i)) (uuid4 (random_bits e)) AND 15))) [0..<8]"
  by (simp add: short_uuid_def take8_uuid_str hex32_def take_map)

lemma hex_digit_in: "n < 16 \<Longrightarrow> hex_digit n \<in> set ''0123456789abcdef''"
  unfolding hex_digit_def by (rule nth_mem) simp

lemma nibble_less: "unat ((x :: 128 word) AND 15) < 16"
proof -
  have "x AND 15 \<le> 15" by (rule word_and_le1)
  then have "unat (x AND 15) \<le> unat (15 :: 128 word)" by (simp add: word_le_nat_alt)
  then show ?thesis by simp
qed

lemma length_short_uuid [simp]: "length (short_uuid e) = 8"
  by (simp add: short_uuid_eq)

lemma short_uuid_hex: "set (short_uuid e) \<subseteq> set ''0123456789abcdef''"
  unfolding short_uuid_eq using hex_digit_in[OF nibble_less] by auto











section \<open>Lemmas on statements\<close>

lemma new_events_append [simp]: "new_events w (w\<lparr>trace := trace w @ evs\<rparr>) = evs"
  by (simp add: new_events_def)

lemma failure_simps [simp]: "failure (Inl x) = Some x" "failure (Inr a) = None"
  by (simp_all add: failure_def)

lemma obeys_and_then:
  assumes "composable I" "obeys I m" "\<And>a. obeys I (k a)"
  shows "obeys I (and_then m k)"
  unfolding obeys_def
proof (intro allI impI)
  fix w r w' assume run: "and_then m k w = (r, w')"
  obtain r1 w1 where m: "m w = (r1, w1)" by (cases "m w")
  with assms(2) obtain evs1 where e1: "trace w1 = trace w @ evs1" "I (failure r1) evs1 (files w1)"
    unfolding obeys_def by blast
  show "\<exists>evs. trace w' = trace w @ evs \<and> I (failure r) evs (files w')"
  proof (cases r1)
    case (Inl x)
    with run m have "r = Inl x" "w' = w1" by (simp_all add: and_then_def)
    with e1 Inl show ?thesis by auto
  next
    case (Inr a)
    with run m have "k a w1 = (r, w')" by (simp add: and_then_def)
    with assms(3) obtain evs2 where e2: "trace w' = trace w1 @ evs2" "I (failure r) evs2 (files w')"
      unfolding obeys_def by blast
    from e1 Inr have "I None evs1 (files w1)" by simp
    with assms(1) e2 have "I (failure r) (evs1 @ evs2) (files w')"
      unfolding composable_def by blast
    with e1 e2 show ?thesis by auto
  qed
qed

lemma obeys_seq:
  "composable I \<Longrightarrow> obeys I m \<Longrightarrow> obeys I n \<Longrightarrow> obeys I (seq m n)"
  unfolding seq_def by (rule obeys_and_then)

lemma obeys_quietI:
  assumes "quiet I"
    and "\<And>w r w'. m w = (r, w') \<Longrightarrow>
           \<exists>evs. trace w' = trace w @ evs \<and> (\<forall>ev \<in> set evs. \<not> is_subprocess ev)"
  shows "obeys I m"
  unfolding obeys_def
proof (intro allI impI)
  fix w r w' assume "m w = (r, w')"
  from assms(2)[OF this] obtain evs
    where evs: "trace w' = trace w @ evs" "\<forall>ev \<in> set evs. \<not> is_subprocess ev"
    by blast
  from assms(1) evs(2) have "I (failure r) evs (files w')"
    unfolding quiet_def by blast
  with evs(1) show "\<exists>evs. trace w' = trace w @ evs \<and> I (failure r) evs (files w')" by blast
qed

lemma obeys_return: "quiet I \<Longrightarrow> obeys I (return v)"
  by (erule obeys_quietI) (simp add: return_def)

lemma obeys_py_print: "quiet I \<Longrightarrow> obeys I (py_print l a)"
  by (erule obeys_quietI) (auto simp: py_print_def)

lemma obeys_exists_path: "quiet I \<Longrightarrow> obeys I (exists_path p)"
  by (erule obeys_quietI) (simp add: exists_path_def)

lemma obeys_write_text: "quiet I \<Longrightarrow> obeys I (write_text p s)"
proof (erule obeys_quietI)
  fix w r w' assume "write_text p s w = (r, w')"
  then show "\<exists>evs. trace w' = trace w @ evs \<and> (\<forall>ev \<in> set evs. \<not> is_subprocess ev)"
    by (cases "fs_write_text p s (files w)") (auto simp: write_text_def)
qed

lemma obeys_mkdir: "quiet I \<Longrightarrow> obeys I (mkdir p)"
proof (erule obeys_quietI)
  fix w r w' assume "mkdir p w = (r, w')"
  then show "\<exists>evs. trace w' = trace w @ evs \<and> (\<forall>ev \<in> set evs. \<not> is_subprocess ev)"
    by (cases "path_mkdir p (files w)") (auto simp: mkdir_def)
qed

lemma obeys_rmtree: "quiet I \<Longrightarrow> obeys I (rmtree p)"
proof (erule obeys_quietI)
  fix w r w' assume "rmtree p w = (r, w')"
  then show "\<exists>evs. trace w' = trace w @ evs \<and> (\<forall>ev \<in> set evs. \<not> is_subprocess ev)"
    by (cases "fs_rmtree p (files w)") (auto simp: rmtree_def)
qed

lemma obeys_print_all: "composable I \<Longrightarrow> quiet I \<Longrightarrow> obeys I (print_all ls)"
proof (induction ls)
  case Nil
  then show ?case by (simp add: obeys_return)
next
  case (Cons a ls)
  obtain l args where a: "a = (l, args)" by (cases a)
  from Cons show ?case unfolding a print_all.simps
    by (intro obeys_seq obeys_py_print) simp_all
qed

subsection \<open>run\_git\_command, case by case\<close>

lemma run_git_command_launch:
  assumes g: "git e cmd (cwd_or_repo cwd) w = (LaunchFailed, f')"
  shows "run_git_command e cmd cwd w =
    (Inl LaunchError,
     \<lparr>files = files w,
      trace = trace w @ [Subprocess cmd (cwd_or_repo cwd) (files w) LaunchFailed (files w)]\<rparr>)"
  by (simp add: run_git_command_def subprocess_run_def g)

lemma run_git_command_ok:
  assumes g: "git e cmd (cwd_or_repo cwd) w = (Completed 0 out err, f')"
  shows "run_git_command e cmd cwd w =
    (Inr (py_strip out),
     \<lparr>files = f',
      trace = trace w @ [Subprocess cmd (cwd_or_repo cwd) (files w) (Completed 0 out err) f']\<rparr>)"
  by (simp add: run_git_command_def subprocess_run_def g)

lemma run_git_command_failed:
  assumes g: "git e cmd (cwd_or_repo cwd) w = (Completed rc out err, f')" and rc: "rc \<noteq> 0"
  shows "run_git_command e cmd cwd w =
    (Inl (CalledProcessError cmd rc out err),
     \<lparr>files = f',
      trace = trace w @ [Subprocess cmd (cwd_or_repo cwd) (files w) (Completed rc out err) f',
                         Print 36 [py_join '' '' cmd], Print 37 [err]]\<rparr>)"
  by (simp add: run_git_command_def subprocess_run_def g rc py_print_def seq_def and_then_def)

text \<open>\<^verbatim>\<open>sep.join(xs)\<close> written out: the first word, then every other word after a separator.\<close>

lemma py_join_eq:
  "py_join sep cmd = (case cmd of [] \<Rightarrow> [] | x # xs \<Rightarrow> x @ concat (map (\<lambda>y. sep @ y) xs))"
  by (induction sep cmd rule: py_join.induct) simp_all

lemma run_git_command_cases:
  obtains (launch) f' where "git e cmd (cwd_or_repo cwd) w = (LaunchFailed, f')"
  | (failed) rc out err f' where
      "git e cmd (cwd_or_repo cwd) w = (Completed rc out err, f')" "rc \<noteq> 0"
  | (ok) out err f' where "git e cmd (cwd_or_repo cwd) w = (Completed 0 out err, f')"
proof (cases "git e cmd (cwd_or_repo cwd) w")
  case (Pair r f')
  show ?thesis
  proof (cases r)
    case LaunchFailed
    with Pair have "git e cmd (cwd_or_repo cwd) w = (LaunchFailed, f')" by simp
    then show ?thesis by (rule launch)
  next
    case (Completed rc out err)
    with Pair have g: "git e cmd (cwd_or_repo cwd) w = (Completed rc out err, f')" by simp
    show ?thesis
    proof (cases "rc = 0")
      case True
      with g have "git e cmd (cwd_or_repo cwd) w = (Completed 0 out err, f')" by simp
      then show ?thesis by (rule ok)
    next
      case False
      with g show ?thesis by (rule failed)
    qed
  qed
qed

lemma run_git_command_Inr:
  assumes "run_git_command e cmd cwd w = (Inr s, w')"
  obtains out err f' where "git e cmd (cwd_or_repo cwd) w = (Completed 0 out err, f')"
    "s = py_strip out"
    "w' = \<lparr>files = f',
           trace = trace w @ [Subprocess cmd (cwd_or_repo cwd) (files w) (Completed 0 out err) f']\<rparr>"
proof (cases e cmd cwd w rule: run_git_command_cases)
  case (launch f')
  from run_git_command_launch[OF this] assms show ?thesis by simp
next
  case (failed rc out err f')
  from run_git_command_failed[OF this] assms show ?thesis by simp
next
  case (ok out err f')
  from run_git_command_ok[OF this] assms have "s = py_strip out"
    "w' = \<lparr>files = f',
           trace = trace w @ [Subprocess cmd (cwd_or_repo cwd) (files w) (Completed 0 out err) f']\<rparr>"
    by simp_all
  with ok show ?thesis by (rule that)
qed

subsection \<open>The two kinds of property\<close>

lemma composable_abort_inv: "composable abort_inv"
  unfolding composable_def
proof (intro allI impI)
  fix evs1 f1 x evs2 f2
  assume 1: "abort_inv None evs1 f1" and 2: "abort_inv x evs2 f2"
  from 1 have c1: "\<forall>ev \<in> set evs1. \<not> failed_call ev" by (auto simp: abort_inv_def)
  from 2 consider (clean) "\<forall>ev \<in> set evs2. \<not> failed_call ev"
    | (aborted) pre cmd cwd seen rc out err where
        "evs2 = pre @ [Subprocess cmd cwd seen (Completed rc out err) f2,
                       Print 36 [py_join '' '' cmd], Print 37 [err]]"
        "\<forall>ev \<in> set pre. \<not> failed_call ev" "x = Some (CalledProcessError cmd rc out err)"
    unfolding abort_inv_def by blast
  then show "abort_inv x (evs1 @ evs2) f2"
  proof cases
    case clean
    with c1 show ?thesis by (auto simp: abort_inv_def)
  next
    case aborted
    have "evs1 @ evs2 = (evs1 @ pre) @ [Subprocess cmd cwd seen (Completed rc out err) f2,
                       Print 36 [py_join '' '' cmd], Print 37 [err]]"
      using aborted(1) by simp
    moreover have "\<forall>ev \<in> set (evs1 @ pre). \<not> failed_call ev" using c1 aborted(2) by auto
    ultimately show ?thesis unfolding abort_inv_def using aborted(3) by blast
  qed
qed

lemma quiet_abort_inv: "quiet abort_inv"
proof -
  have "\<not> failed_call ev" if "\<not> is_subprocess ev" for ev
    using that by (cases ev) simp_all
  then show ?thesis unfolding quiet_def abort_inv_def by blast
qed

lemma composable_calls_satisfy: "composable (calls_satisfy P)"
  unfolding composable_def calls_satisfy_def by (simp only: set_append Un_iff) blast

lemma quiet_calls_satisfy: "quiet (calls_satisfy P)"
  unfolding quiet_def calls_satisfy_def by fastforce

lemma obeys_abort_inv_git: "obeys abort_inv (run_git_command e cmd cwd)"
  unfolding obeys_def
proof (intro allI impI)
  fix w r w' assume run: "run_git_command e cmd cwd w = (r, w')"
  show "\<exists>evs. trace w' = trace w @ evs \<and> abort_inv (failure r) evs (files w')"
  proof (cases e cmd cwd w rule: run_git_command_cases)
    case (launch f')
    from run_git_command_launch[OF this] run
    have "trace w' = trace w @ [Subprocess cmd (cwd_or_repo cwd) (files w) LaunchFailed (files w)]"
      by auto
    moreover have "abort_inv (failure r) [Subprocess cmd (cwd_or_repo cwd) (files w) LaunchFailed (files w)] (files w')"
      by (simp add: abort_inv_def)
    ultimately show ?thesis by blast
  next
    case (failed rc out err f')
    from run_git_command_failed[OF this] run
    have r: "r = Inl (CalledProcessError cmd rc out err)" and f: "files w' = f'"
      and t: "trace w' = trace w @ [Subprocess cmd (cwd_or_repo cwd) (files w) (Completed rc out err) f',
                         Print 36 [py_join '' '' cmd], Print 37 [err]]"
      by auto
    have "abort_inv (failure r) ([] @ [Subprocess cmd (cwd_or_repo cwd) (files w) (Completed rc out err) f',
                         Print 36 [py_join '' '' cmd], Print 37 [err]]) (files w')"
      unfolding abort_inv_def r f failure_simps
      by (intro disjI2 exI[of _ "[]"] exI) (rule conjI[OF refl], simp)
    with t show ?thesis by auto
  next
    case (ok out err f')
    from run_git_command_ok[OF this] run
    have "trace w' = trace w @ [Subprocess cmd (cwd_or_repo cwd) (files w) (Completed 0 out err) f']"
      by auto
    moreover have "abort_inv (failure r) [Subprocess cmd (cwd_or_repo cwd) (files w) (Completed 0 out err) f'] (files w')"
      by (simp add: abort_inv_def)
    ultimately show ?thesis by blast
  qed
qed

lemma git_trace_cases:
  assumes "run_git_command e cmd cwd w = (r, w')"
  obtains res left rest where
    "trace w' = trace w @ Subprocess cmd (cwd_or_repo cwd) (files w) res left # rest"
    "\<forall>ev \<in> set rest. is_print ev" "files w' = left"
    "git e cmd (cwd_or_repo cwd) w = (res, left) \<or> (res = LaunchFailed \<and> left = files w)"
proof (cases e cmd cwd w rule: run_git_command_cases)
  case (launch f')
  from run_git_command_launch[OF this] assms show ?thesis by (intro that[of LaunchFailed "files w" "[]"]) auto
next
  case (failed rc out err f')
  from run_git_command_failed[OF this] assms failed show ?thesis
    by (intro that[of "Completed rc out err" f' "[Print 36 [py_join '' '' cmd], Print 37 [err]]"]) auto
next
  case (ok out err f')
  from run_git_command_ok[OF this] assms ok show ?thesis
    by (intro that[of "Completed 0 out err" f' "[]"]) auto
qed

lemma obeys_calls_satisfy_git:
  assumes "\<And>seen. P cmd (cwd_or_repo cwd) seen"
  shows "obeys (calls_satisfy P) (run_git_command e cmd cwd)"
  unfolding obeys_def
proof (intro allI impI)
  fix w r w' assume run: "run_git_command e cmd cwd w = (r, w')"
  from run obtain res left rest where
    t: "trace w' = trace w @ Subprocess cmd (cwd_or_repo cwd) (files w) res left # rest"
    and p: "\<forall>ev \<in> set rest. is_print ev"
    by (rule git_trace_cases)
  have "calls_satisfy P (failure r) (Subprocess cmd (cwd_or_repo cwd) (files w) res left # rest) (files w')"
    unfolding calls_satisfy_def using assms p by auto
  with t show "\<exists>evs. trace w' = trace w @ evs \<and> calls_satisfy P (failure r) evs (files w')"
    by blast
qed

subsection \<open>The branch resolution and the head of main, case by case\<close>

lemma seq_py_print: "seq (py_print l a) n w = n (w\<lparr>trace := trace w @ [Print l a]\<rparr>)"
  by (simp add: seq_def and_then_def py_print_def)

lemma seq_Inr:
  assumes "seq m n w = (Inr b, w')"
  obtains a w1 where "m w = (Inr a, w1)" "n w1 = (Inr b, w')"
proof (cases "m w")
  case (Pair r1 w1)
  show ?thesis
  proof (cases r1)
    case (Inl x)
    with Pair assms show ?thesis by (simp add: seq_def and_then_def)
  next
    case (Inr a)
    with Pair assms have "n w1 = (Inr b, w')" by (simp add: seq_def and_then_def)
    with Pair Inr show ?thesis using that by simp
  qed
qed

lemma seq_Inl_left: "m w = (Inl x, w1) \<Longrightarrow> seq m n w = (Inl x, w1)"
  by (simp add: seq_def and_then_def)

lemma seq_Inr_left: "m w = (Inr a, w1) \<Longrightarrow> seq m n w = n w1"
  by (simp add: seq_def and_then_def)

lemma ensure_primary_cases:
  assumes run: "ensure_primary e cb w = (r, w')"
  obtains (primary) "cb \<in> set [''main'', ''master'']" "r = Inr (Some cb)" "w' = w"
  | (to_main) s where "cb \<notin> set [''main'', ''master'']"
      "run_git_command e [''git'', ''checkout'', ''main''] None
         (w\<lparr>trace := trace w @ [Print 64 []]\<rparr>) = (Inr s, w')"
      "r = Inr (Some ''main'')"
  | (to_master) x w2 s where "cb \<notin> set [''main'', ''master'']"
      "run_git_command e [''git'', ''checkout'', ''main''] None
         (w\<lparr>trace := trace w @ [Print 64 []]\<rparr>) = (Inl x, w2)"
      "run_git_command e [''git'', ''checkout'', ''master''] None w2 = (Inr s, w')"
      "r = Inr (Some ''master'')"
  | (neither) x w2 y w3 where "cb \<notin> set [''main'', ''master'']"
      "run_git_command e [''git'', ''checkout'', ''main''] None
         (w\<lparr>trace := trace w @ [Print 64 []]\<rparr>) = (Inl x, w2)"
      "run_git_command e [''git'', ''checkout'', ''master''] None w2 = (Inl y, w3)"
      "r = Inr None" "w' = w3\<lparr>trace := trace w3 @ [Print 73 []]\<rparr>"
proof (cases "cb \<in> set [''main'', ''master'']")
  case True
  with run have "r = Inr (Some cb)" "w' = w" by (auto simp add: ensure_primary_def return_def)
  with True show ?thesis by (rule primary)
next
  case False
  let ?w1 = "w\<lparr>trace := trace w @ [Print 64 []]\<rparr>"
  obtain r1 w2 where c1: "run_git_command e [''git'', ''checkout'', ''main''] None ?w1 = (r1, w2)"
    by (cases "run_git_command e [''git'', ''checkout'', ''main''] None ?w1")
  show ?thesis
  proof (cases r1)
    case (Inr s)
    with run False c1 have "r = Inr (Some ''main'')" "w' = w2"
      by (simp_all add: ensure_primary_def py_print_def try_except_def seq_def and_then_def return_def)
    with False c1 Inr show ?thesis using to_main by simp
  next
    case (Inl x)
    obtain r2 w3 where c2: "run_git_command e [''git'', ''checkout'', ''master''] None w2 = (r2, w3)"
      by (cases "run_git_command e [''git'', ''checkout'', ''master''] None w2")
    show ?thesis
    proof (cases r2)
      case (Inr s)
      with run False c1 c2 Inl have "r = Inr (Some ''master'')" "w' = w3"
        by (simp_all add: ensure_primary_def py_print_def try_except_def seq_def and_then_def return_def)
      with False c1 c2 Inl Inr show ?thesis using to_master by simp
    next
      case inl2: (Inl y)
      with run False c1 c2 Inl have "r = Inr None" "w' = w3\<lparr>trace := trace w3 @ [Print 73 []]\<rparr>"
        by (simp_all add: ensure_primary_def try_except_def seq_def and_then_def return_def py_print_def)
      with False c1 c2 Inl inl2 show ?thesis using neither by simp
    qed
  qed
qed

lemma main_cases:
  assumes run: "main e w0 = (r, w')"
  obtains (no_repo) "\<not> path_exists (files w0) REPO_PATH" "r = Inr ()"
      "w' = w0\<lparr>trace := trace w0 @ [Print 42 [], Print 43 [], Print 47 [path_str REPO_PATH],
                                       Print 48 []]\<rparr>"
  | (no_git) "path_exists (files w0) REPO_PATH"
      "\<not> path_exists (files w0) (REPO_PATH @ [''.git''])" "r = Inr ()"
      "w' = w0\<lparr>trace := trace w0 @ [Print 42 [], Print 43 [], Print 52 [path_str REPO_PATH],
                                       Print 53 [path_str REPO_PATH]]\<rparr>"
  | (query_failed) x where "path_exists (files w0) REPO_PATH"
      "path_exists (files w0) (REPO_PATH @ [''.git''])"
      "run_git_command e [''git'', ''branch'', ''--show-current''] None
         (w0\<lparr>trace := trace w0 @ [Print 42 [], Print 43 [], Print 56 [path_str REPO_PATH]]\<rparr>)
       = (Inl x, w')"
      "r = Inl x"
  | (resolved) out err f1 resolved w2 where "path_exists (files w0) REPO_PATH"
      "path_exists (files w0) (REPO_PATH @ [''.git''])"
      "git e [''git'', ''branch'', ''--show-current''] REPO_PATH
         (w0\<lparr>trace := trace w0 @ [Print 42 [], Print 43 [], Print 56 [path_str REPO_PATH]]\<rparr>)
       = (Completed 0 out err, f1)"
      "ensure_primary e (py_strip out)
         \<lparr>files = f1,
          trace = trace w0 @
            [Print 42 [], Print 43 [], Print 56 [path_str REPO_PATH],
             Subprocess [''git'', ''branch'', ''--show-current''] REPO_PATH (files w0)
               (Completed 0 out err) f1,
             Print 60 [py_strip out]]\<rparr> = (Inr resolved, w2)"
      "case resolved of None \<Rightarrow> r = Inr () \<and> w' = w2
       | Some main_branch \<Rightarrow> build_scenario e main_branch w2 = (r, w')"
proof (cases "path_exists (files w0) REPO_PATH")
  case False
  with run have "r = Inr ()"
      "w' = w0\<lparr>trace := trace w0 @ [Print 42 [], Print 43 [], Print 47 [path_str REPO_PATH],
                                       Print 48 []]\<rparr>"
    by (simp_all add: main_def seq_py_print and_then_def exists_path_def py_print_def)
  with False show ?thesis by (rule no_repo)
next
  case repo: True
  show ?thesis
  proof (cases "path_exists (files w0) (REPO_PATH @ [''.git''])")
    case False
    with run repo have "r = Inr ()"
      "w' = w0\<lparr>trace := trace w0 @ [Print 42 [], Print 43 [], Print 52 [path_str REPO_PATH],
                                       Print 53 [path_str REPO_PATH]]\<rparr>"
      by (simp_all add: main_def seq_py_print and_then_def exists_path_def py_print_def)
    with repo False show ?thesis by (rule no_git)
  next
    case dotgit: True
    let ?w1 = "w0\<lparr>trace := trace w0 @ [Print 42 [], Print 43 [], Print 56 [path_str REPO_PATH]]\<rparr>"
    let ?rest = "\<lambda>current_branch.
              seq (py_print 60 [current_branch])
             (and_then (ensure_primary e current_branch) (\<lambda>resolved.
                case resolved of
                  None \<Rightarrow> return ()
                | Some main_branch \<Rightarrow> build_scenario e main_branch))"
    from run repo dotgit
    have m: "and_then (run_git_command e [''git'', ''branch'', ''--show-current''] None) ?rest ?w1
             = (r, w')"
      by (simp add: main_def seq_py_print and_then_def[of "exists_path _"] exists_path_def)
    obtain r1 w1 where q: "run_git_command e [''git'', ''branch'', ''--show-current''] None ?w1 = (r1, w1)"
      by (cases "run_git_command e [''git'', ''branch'', ''--show-current''] None ?w1")
    show ?thesis
    proof (cases r1)
      case (Inl x)
      with m q have "r = Inl x" "w' = w1" by (simp_all add: and_then_def)
      with repo dotgit q Inl show ?thesis using query_failed by simp
    next
      case (Inr cb)
      with q obtain out err f1 where
        g: "git e [''git'', ''branch'', ''--show-current''] (cwd_or_repo None) ?w1 = (Completed 0 out err, f1)"
        and cb: "cb = py_strip out"
        and w1: "w1 = \<lparr>files = f1, trace = trace ?w1 @ [Subprocess [''git'', ''branch'', ''--show-current'']
                    (cwd_or_repo None) (files ?w1) (Completed 0 out err) f1]\<rparr>"
        by (auto elim: run_git_command_Inr)
      let ?w2 = "\<lparr>files = f1,
          trace = trace w0 @
            [Print 42 [], Print 43 [], Print 56 [path_str REPO_PATH],
             Subprocess [''git'', ''branch'', ''--show-current''] REPO_PATH (files w0)
               (Completed 0 out err) f1,
             Print 60 [py_strip out]]\<rparr>"
      from m q Inr cb w1
      have m2: "and_then (ensure_primary e (py_strip out)) (\<lambda>resolved.
                case resolved of
                  None \<Rightarrow> return ()
                | Some main_branch \<Rightarrow> build_scenario e main_branch) ?w2 = (r, w')"
        by (simp add: and_then_def[of "run_git_command _ _ _"] seq_py_print cwd_or_repo_def)
      obtain r2 w2 where ep: "ensure_primary e (py_strip out) ?w2 = (r2, w2)"
        by (cases "ensure_primary e (py_strip out) ?w2")
      from ep obtain resolved where r2: "r2 = Inr resolved"
        by (cases rule: ensure_primary_cases) auto
      from m2 ep r2 have fin: "case resolved of None \<Rightarrow> r = Inr () \<and> w' = w2
       | Some main_branch \<Rightarrow> build_scenario e main_branch w2 = (r, w')"
        by (cases resolved) (auto simp add: and_then_def return_def)
      from g have g': "git e [''git'', ''branch'', ''--show-current''] REPO_PATH ?w1 = (Completed 0 out err, f1)"
        by (simp add: cwd_or_repo_def)
      from repo dotgit g' ep[unfolded r2] fin show ?thesis by (rule resolved)
    qed
  qed
qed

subsection \<open>Properties of all runs of main\<close>

lemma obeys_try_except:
  assumes "composable I" "obeys (\<lambda>x evs f. I None evs f) m" "obeys I h"
  shows "obeys I (try_except m h)"
  unfolding obeys_def
proof (intro allI impI)
  fix w r w' assume run: "try_except m h w = (r, w')"
  obtain r1 w1 where m: "m w = (r1, w1)" by (cases "m w")
  with assms(2) obtain evs1 where e1: "trace w1 = trace w @ evs1" "I None evs1 (files w1)"
    unfolding obeys_def by blast
  show "\<exists>evs. trace w' = trace w @ evs \<and> I (failure r) evs (files w')"
  proof (cases r1)
    case (Inr a)
    with run m have "r = Inr a" "w' = w1" by (simp_all add: try_except_def)
    with e1 show ?thesis by auto
  next
    case (Inl x)
    with run m have "h w1 = (r, w')" by (simp add: try_except_def)
    with assms(3) obtain evs2 where e2: "trace w' = trace w1 @ evs2" "I (failure r) evs2 (files w')"
      unfolding obeys_def by blast
    with assms(1) e1 have "I (failure r) (evs1 @ evs2) (files w')"
      unfolding composable_def by blast
    with e1 e2 show ?thesis by auto
  qed
qed

lemma composable_as_success: "composable I \<Longrightarrow> composable (\<lambda>x evs f. I None evs f)"
  unfolding composable_def by blast

lemma quiet_as_success: "quiet I \<Longrightarrow> quiet (\<lambda>x evs f. I None evs f)"
  unfolding quiet_def by blast

lemma obeys_ensure_primary:
  assumes C: "composable I" and Q: "quiet I"
    and K: "\<And>c. obeys (\<lambda>x evs f. I None evs f) (run_git_command e [''git'', ''checkout'', c] None)"
  shows "obeys I (ensure_primary e cb)"
proof -
  have co: "obeys (\<lambda>x evs f. I None evs f) (seq (run_git_command e [''git'', ''checkout'', c] None) (return v))"
    for c and v :: "string option"
    by (intro obeys_seq composable_as_success C K obeys_return quiet_as_success Q)
  have last: "obeys I (seq (py_print 73 []) (return (None :: string option)))"
    by (intro obeys_seq C obeys_py_print obeys_return Q)
  have inner: "obeys I (try_except
                (seq (run_git_command e [''git'', ''checkout'', ''master''] None)
                     (return (Some ''master'')))
                (seq (py_print 73 [])
                     (return None)))"
    by (intro obeys_try_except C co last)
  have outer: "obeys I (seq (py_print 64 [])
          (try_except
             (seq (run_git_command e [''git'', ''checkout'', ''main''] None)
                  (return (Some ''main'')))
             (try_except
                (seq (run_git_command e [''git'', ''checkout'', ''master''] None)
                     (return (Some ''master'')))
                (seq (py_print 73 [])
                     (return None)))))"
    by (intro obeys_seq C obeys_py_print Q obeys_try_except co inner)
  show ?thesis
  proof (cases "cb \<notin> set [''main'', ''master'']")
    case True
    then show ?thesis unfolding ensure_primary_def using outer by simp
  next
    case False
    then show ?thesis unfolding ensure_primary_def using obeys_return[OF Q] by simp
  qed
qed

lemma not_worktree_add [simp]:
  "\<not> is_worktree_add [''git'', ''add'', f]"
  "\<not> is_worktree_add [''git'', ''commit'', m, msg]"
  "\<not> is_worktree_add [''git'', ''checkout'', c]"
  "\<not> is_worktree_add [''git'', ''branch'', o1]"
  by (simp_all add: is_worktree_add_def)

lemma obeys_build_scenario:
  assumes C: "composable I" and Q: "quiet I"
    and G: "\<And>cmd cwd. \<not> is_worktree_add cmd \<Longrightarrow> obeys I (run_git_command e cmd cwd)"
    and W: "\<And>b. obeys I (create_worktree e b)"
  shows "obeys I (build_scenario e b)"
proof -
  have 3: "obeys I (create_initial_file e b)"
    unfolding create_initial_file_def
    by (intro obeys_seq C obeys_py_print obeys_write_text Q G not_worktree_add)
  have 5: "obeys I (modify_in_worktree e)"
    unfolding modify_in_worktree_def
    by (intro obeys_seq C obeys_py_print obeys_write_text Q G not_worktree_add)
  have 6: "obeys I (modify_in_main e b)"
    unfolding modify_in_main_def
    by (intro obeys_seq C obeys_py_print obeys_write_text Q G not_worktree_add)
  show ?thesis
    unfolding build_scenario_def
    by (intro obeys_seq C obeys_py_print Q 3 W 5 6 obeys_print_all)
qed

lemma obeys_main:
  assumes C: "composable I" and Q: "quiet I"
    and G: "\<And>cmd cwd. \<not> is_worktree_add cmd \<Longrightarrow> obeys I (run_git_command e cmd cwd)"
    and K: "\<And>c. obeys (\<lambda>x evs f. I None evs f) (run_git_command e [''git'', ''checkout'', c] None)"
    and W: "\<And>b. obeys I (create_worktree e b)"
  shows "obeys I (main e)"
proof -
  have tail: "obeys I (case resolved of None \<Rightarrow> return () | Some main_branch \<Rightarrow> build_scenario e main_branch)"
    for resolved
    by (cases resolved) (simp_all add: obeys_return Q obeys_build_scenario[OF C Q G W])
  have q: "obeys I (seq (py_print 56 [path_str REPO_PATH])
             (and_then (run_git_command e [''git'', ''branch'', ''--show-current''] None)
                (\<lambda>current_branch.
              seq (py_print 60 [current_branch])
             (and_then (ensure_primary e current_branch) (\<lambda>resolved.
                case resolved of
                  None \<Rightarrow> return ()
                | Some main_branch \<Rightarrow> build_scenario e main_branch)))))"
    by (intro obeys_seq obeys_and_then C obeys_py_print Q G not_worktree_add
          obeys_ensure_primary K tail)
  have g: "obeys I (if \<not> git_found
         then seq (py_print 52 [path_str REPO_PATH])
                  (py_print 53 [path_str REPO_PATH])
         else seq (py_print 56 [path_str REPO_PATH])
             (and_then (run_git_command e [''git'', ''branch'', ''--show-current''] None)
                (\<lambda>current_branch.
              seq (py_print 60 [current_branch])
             (and_then (ensure_primary e current_branch) (\<lambda>resolved.
                case resolved of
                  None \<Rightarrow> return ()
                | Some main_branch \<Rightarrow> build_scenario e main_branch)))))" for git_found
    using q by (simp add: obeys_seq C obeys_py_print Q)
  have r: "obeys I (if \<not> repo_found
       then seq (py_print 47 [path_str REPO_PATH])
                (py_print 48 [])
       else and_then (exists_path (REPO_PATH @ [''.git''])) (\<lambda>git_found.
         if \<not> git_found
         then seq (py_print 52 [path_str REPO_PATH])
                  (py_print 53 [path_str REPO_PATH])
         else seq (py_print 56 [path_str REPO_PATH])
             (and_then (run_git_command e [''git'', ''branch'', ''--show-current''] None)
                (\<lambda>current_branch.
              seq (py_print 60 [current_branch])
             (and_then (ensure_primary e current_branch) (\<lambda>resolved.
                case resolved of
                  None \<Rightarrow> return ()
                | Some main_branch \<Rightarrow> build_scenario e main_branch))))))" for repo_found
    using g by (simp add: obeys_seq obeys_and_then C obeys_py_print Q obeys_exists_path)
  show ?thesis
    unfolding main_def
    by (intro obeys_seq obeys_and_then C obeys_py_print Q obeys_exists_path r)
qed

subsection \<open>Step 4, case by case\<close>

lemma seq_git_print_trace:
  assumes "seq (run_git_command e cmd cwd) (py_print l a) w = (r, w')"
  obtains res left rest where
    "trace w' = trace w @ Subprocess cmd (cwd_or_repo cwd) (files w) res left # rest"
    "\<forall>ev \<in> set rest. is_print ev"
proof -
  obtain r1 w1 where g: "run_git_command e cmd cwd w = (r1, w1)"
    by (cases "run_git_command e cmd cwd w")
  from g obtain res left rest where
    t: "trace w1 = trace w @ Subprocess cmd (cwd_or_repo cwd) (files w) res left # rest"
    and p: "\<forall>ev \<in> set rest. is_print ev"
    by (rule git_trace_cases)
  show ?thesis
  proof (cases r1)
    case (Inl x)
    with g assms have "w' = w1" by (simp add: seq_def and_then_def)
    with t p show ?thesis using that by simp
  next
    case (Inr s)
    with g assms have "w' = w1\<lparr>trace := trace w1 @ [Print l a]\<rparr>"
      by (simp add: seq_def and_then_def py_print_def)
    with t have "trace w' = trace w @ Subprocess cmd (cwd_or_repo cwd) (files w) res left # (rest @ [Print l a])"
      by simp
    moreover have "\<forall>ev \<in> set (rest @ [Print l a]). is_print ev" using p by simp
    ultimately show ?thesis by (rule that)
  qed
qed

lemma worktree_path_not_Nil [simp]: "worktree_path e \<noteq> []"
  by (simp add: worktree_path_def)

lemma not_prefix_worktree_path:
  "prefix q (project_worktree_dir e) \<Longrightarrow> \<not> prefix (worktree_path e) q"
proof
  assume a: "prefix q (project_worktree_dir e)" and b: "prefix (worktree_path e) q"
  from a have "length q \<le> length (project_worktree_dir e)" by (rule prefix_length_le)
  moreover from b have "length (worktree_path e) \<le> length q" by (rule prefix_length_le)
  ultimately show False by (simp add: worktree_path_def)
qed

lemma mkdir_cases:
  assumes "mkdir p w = (r, w')"
  obtains (raised) x where "r = Inl x" "w' = w" "path_mkdir p (files w) = Inl x"
  | (made) f' made where "r = Inr ()" "path_mkdir p (files w) = Inr (f', made)"
      "w' = \<lparr>files = f', trace = trace w @ map Mkdir made\<rparr>"
proof (cases "path_mkdir p (files w)")
  case (Inl x)
  with assms have "r = Inl x" "w' = w" by (simp_all add: mkdir_def)
  then show ?thesis using Inl by (rule raised)
next
  case (Inr fm)
  obtain f' made where fm: "fm = (f', made)" by (cases fm)
  with Inr assms have "r = Inr ()" "w' = \<lparr>files = f', trace = trace w @ map Mkdir made\<rparr>"
    by (simp_all add: mkdir_def)
  with Inr fm show ?thesis using made by simp
qed

lemma rmtree_cases:
  assumes "rmtree p w = (r, w')"
  obtains (raised) x where "r = Inl x" "w' = w" "fs_rmtree p (files w) = Inl x"
  | (removed) f' where "r = Inr ()" "fs_rmtree p (files w) = Inr f'"
      "w' = \<lparr>files = f', trace = trace w @ [Rmtree p]\<rparr>"
proof (cases "fs_rmtree p (files w)")
  case (Inl x)
  with assms have "r = Inl x" "w' = w" by (simp_all add: rmtree_def)
  then show ?thesis using Inl by (rule raised)
next
  case (Inr f')
  with assms have "r = Inr ()" "w' = \<lparr>files = f', trace = trace w @ [Rmtree p]\<rparr>"
    by (simp_all add: rmtree_def)
  with Inr show ?thesis using removed by simp
qed

lemma write_text_cases:
  assumes "write_text p s w = (r, w')"
  obtains (raised) x where "r = Inl x" "w' = w" "fs_write_text p s (files w) = Inl x"
  | (written) f' where "r = Inr ()" "fs_write_text p s (files w) = Inr f'"
      "w' = \<lparr>files = f', trace = trace w @ [WriteText p s]\<rparr>"
proof (cases "fs_write_text p s (files w)")
  case (Inl x)
  with assms have "r = Inl x" "w' = w" by (simp_all add: write_text_def)
  then show ?thesis using Inl by (rule raised)
next
  case (Inr f')
  with assms have "r = Inr ()" "w' = \<lparr>files = f', trace = trace w @ [WriteText p s]\<rparr>"
    by (simp_all add: write_text_def)
  with Inr show ?thesis using written by simp
qed

text \<open>The ways through step 4: the parent directory cannot be made; what is at the
  worktree path cannot be removed; or \<^verbatim>\<open>git worktree add\<close> is run, on a filesystem with
  nothing at the worktree path and with the parent directory in place.\<close>

lemma create_worktree_cases:
  assumes run: "create_worktree e b w = (r, w')"
  obtains (no_parent) x where "r = Inl x" "w' = w"
      "path_mkdir (project_worktree_dir e) (files w) = Inl x"
  | (not_removed) x f1 made where "r = Inl x"
      "path_mkdir (project_worktree_dir e) (files w) = Inr (f1, made)"
      "path_exists f1 (worktree_path e)" "fs_rmtree (worktree_path e) f1 = Inl x"
      "trace w' = trace w @ map Mkdir made @
         [Print 108 [almond_branch e], Print 109 [path_str (worktree_path e)],
          Print 113 [path_str (worktree_path e)]]"
  | (added) f1 made cleared seen res left rest where
      "path_mkdir (project_worktree_dir e) (files w) = Inr (f1, made)"
      "if path_exists f1 (worktree_path e)
       then cleared = [Print 113 [path_str (worktree_path e)], Rmtree (worktree_path e)] \<and>
            fs_rmtree (worktree_path e) f1 = Inr seen
       else cleared = [] \<and> seen = f1"
      "trace w' = trace w @ map Mkdir made @
         [Print 108 [almond_branch e], Print 109 [path_str (worktree_path e)]] @ cleared @
         Subprocess [''git'', ''worktree'', ''add'', ''-b'', almond_branch e,
                     path_str (worktree_path e), b] REPO_PATH seen res left # rest"
      "\<forall>ev \<in> set rest. is_print ev"
proof -
  let ?wt = "worktree_path e"
  let ?add = "seq (run_git_command e
            [''git'', ''worktree'', ''add'', ''-b'', almond_branch e,
             path_str (worktree_path e), b] None)
         (py_print 118 [path_str (worktree_path e)])"
  let ?chk = "and_then (exists_path (worktree_path e)) (\<lambda>found.
            if found
            then seq (py_print 113 [path_str (worktree_path e)])
                     (rmtree (worktree_path e))
            else return ())"
  obtain r1 w1 where m: "mkdir (project_worktree_dir e) w = (r1, w1)"
    by (cases "mkdir (project_worktree_dir e) w")
  from m show ?thesis
  proof (cases rule: mkdir_cases)
    case (raised x)
    with m run have "r = Inl x" "w' = w"
      by (simp_all add: create_worktree_def seq_Inl_left)
    then show ?thesis using raised(3) by (rule no_parent)
  next
    case (made f1 made)
    let ?w2 = "\<lparr>files = f1, trace = trace w @ map Mkdir made @
         [Print 108 [almond_branch e], Print 109 [path_str ?wt]]\<rparr>"
    from m made run have step: "seq ?chk ?add ?w2 = (r, w')"
      by (simp add: create_worktree_def seq_Inr_left[of "mkdir _"] seq_py_print)
    show ?thesis
    proof (cases "path_exists f1 ?wt")
      case False
      then have "?chk ?w2 = (Inr (), ?w2)"
        by (simp add: and_then_def exists_path_def return_def)
      with step have "?add ?w2 = (r, w')" by (simp add: seq_Inr_left)
      then obtain res left rest where
        t: "trace w' = trace ?w2 @ Subprocess [''git'', ''worktree'', ''add'', ''-b'', almond_branch e,
             path_str ?wt, b] (cwd_or_repo None) (files ?w2) res left # rest"
        and p: "\<forall>ev \<in> set rest. is_print ev"
        by (rule seq_git_print_trace)
      from t have "trace w' = trace w @ map Mkdir made @
         [Print 108 [almond_branch e], Print 109 [path_str ?wt]] @ [] @
         Subprocess [''git'', ''worktree'', ''add'', ''-b'', almond_branch e,
                     path_str ?wt, b] REPO_PATH f1 res left # rest"
        by (simp add: cwd_or_repo_def)
      with made(2) False p show ?thesis by (intro added[of f1 made "[]" f1 res left rest]) simp_all
    next
      case True
      let ?w3 = "\<lparr>files = f1, trace = trace w @ map Mkdir made @
         [Print 108 [almond_branch e], Print 109 [path_str ?wt], Print 113 [path_str ?wt]]\<rparr>"
      from True have chk: "?chk ?w2 = rmtree ?wt ?w3"
        by (simp add: and_then_def exists_path_def seq_py_print)
      obtain r3 w4 where rm: "rmtree ?wt ?w3 = (r3, w4)" by (cases "rmtree ?wt ?w3")
      from rm show ?thesis
      proof (cases rule: rmtree_cases)
        case (raised x)
        with chk rm step have "r = Inl x" "w' = ?w3" by (simp_all add: seq_Inl_left)
        then have "r = Inl x" "trace w' = trace w @ map Mkdir made @
         [Print 108 [almond_branch e], Print 109 [path_str ?wt], Print 113 [path_str ?wt]]"
          by simp_all
        with made(2) True raised(3) show ?thesis by (intro not_removed[of x f1 made]) simp_all
      next
        case (removed f2)
        with chk rm step have "?add w4 = (r, w')" by (simp add: seq_Inr_left)
        then obtain res left rest where
          t: "trace w' = trace w4 @ Subprocess [''git'', ''worktree'', ''add'', ''-b'', almond_branch e,
               path_str ?wt, b] (cwd_or_repo None) (files w4) res left # rest"
          and p: "\<forall>ev \<in> set rest. is_print ev"
          by (rule seq_git_print_trace)
        from t removed have "trace w' = trace w @ map Mkdir made @
           [Print 108 [almond_branch e], Print 109 [path_str ?wt]] @
           [Print 113 [path_str ?wt], Rmtree ?wt] @
           Subprocess [''git'', ''worktree'', ''add'', ''-b'', almond_branch e,
                       path_str ?wt, b] REPO_PATH f2 res left # rest"
          by (simp add: cwd_or_repo_def)
        with made(2) True removed(2) p show ?thesis
          by (intro added[of f1 made "[Print 113 [path_str ?wt], Rmtree ?wt]" f2 res left rest]) simp_all
      qed
    qed
  qed
qed

lemma worktree_seen_ok:
  assumes mk: "path_mkdir (project_worktree_dir e) f = Inr (f1, made)"
    and cl: "if path_exists f1 (worktree_path e)
       then cleared = [Print 113 [path_str (worktree_path e)], Rmtree (worktree_path e)] \<and>
            fs_rmtree (worktree_path e) f1 = Inr seen
       else cleared = [] \<and> seen = f1"
  shows "lookup seen (worktree_path e) = None"
    and "\<And>q. prefix q (project_worktree_dir e) \<Longrightarrow> lookup seen q = Some Dir"
proof -
  from mk have d: "lookup f1 (project_worktree_dir e) = Some Dir" by (rule path_mkdir_Dir)
  show "lookup seen (worktree_path e) = None"
  proof (cases "path_exists f1 (worktree_path e)")
    case True
    with cl have "fs_rmtree (worktree_path e) f1 = Inr seen" by simp
    then have "seen = (\<lambda>q. if prefix (worktree_path e) q then None else f1 q)"
      by (rule fs_rmtree_Inr)
    then show ?thesis by (simp add: lookup_removed)
  next
    case False
    with cl show ?thesis by (simp add: path_exists_def)
  qed
  show "lookup seen q = Some Dir" if q: "prefix q (project_worktree_dir e)" for q
  proof (cases "path_exists f1 (worktree_path e)")
    case True
    with cl have "fs_rmtree (worktree_path e) f1 = Inr seen" by simp
    then have "seen = (\<lambda>q. if prefix (worktree_path e) q then None else f1 q)"
      by (rule fs_rmtree_Inr)
    then have "lookup seen q = lookup f1 q"
      using not_prefix_worktree_path[OF q] by (simp add: lookup_kept)
    with d q show ?thesis by (simp add: lookup_prefix_Dir)
  next
    case False
    with cl d q show ?thesis by (simp add: lookup_prefix_Dir)
  qed
qed

lemma obeys_worktree_add_ok_create_worktree:
  "obeys (calls_satisfy (worktree_add_ok e)) (create_worktree e b)"
  unfolding obeys_def
proof (intro allI impI)
  fix w r w' assume run: "create_worktree e b w = (r, w')"
  from run show "\<exists>evs. trace w' = trace w @ evs \<and>
      calls_satisfy (worktree_add_ok e) (failure r) evs (files w')"
  proof (cases rule: create_worktree_cases)
    case (no_parent x)
    then have "trace w' = trace w @ []" by simp
    moreover have "calls_satisfy (worktree_add_ok e) (failure r) [] (files w')"
      by (simp add: calls_satisfy_def)
    ultimately show ?thesis by blast
  next
    case (not_removed x f1 made)
    have "calls_satisfy (worktree_add_ok e) (failure r) (map Mkdir made @
         [Print 108 [almond_branch e], Print 109 [path_str (worktree_path e)],
          Print 113 [path_str (worktree_path e)]]) (files w')"
      by (auto simp: calls_satisfy_def)
    with not_removed(5) show ?thesis by blast
  next
    case (added f1 made cleared seen res left rest)
    have ok: "worktree_add_ok e [''git'', ''worktree'', ''add'', ''-b'', almond_branch e,
                     path_str (worktree_path e), b] REPO_PATH seen"
      unfolding worktree_add_ok_def
      using worktree_seen_ok[OF added(1) added(2)] by blast
    have np: "\<And>c d s x l. Subprocess c d s x l \<notin> set cleared"
      using added(2) by (auto split: if_splits)
    have nr: "\<And>c d s x l. Subprocess c d s x l \<notin> set rest"
    proof
      fix c d s x l assume "Subprocess c d s x l \<in> set rest"
      with added(4) have "is_print (Subprocess c d s x l)" by blast
      then show False by simp
    qed
    from np nr ok have "calls_satisfy (worktree_add_ok e) (failure r) (map Mkdir made @
         [Print 108 [almond_branch e], Print 109 [path_str (worktree_path e)]] @ cleared @
         Subprocess [''git'', ''worktree'', ''add'', ''-b'', almond_branch e,
                     path_str (worktree_path e), b] REPO_PATH seen res left # rest) (files w')"
      unfolding calls_satisfy_def by auto
    with added(3) show ?thesis by blast
  qed
qed

lemma obeys_worktree_add_ok_git:
  "\<not> is_worktree_add cmd \<Longrightarrow> obeys (calls_satisfy (worktree_add_ok e)) (run_git_command e cmd cwd)"
  by (rule obeys_calls_satisfy_git) (simp add: worktree_add_ok_def)

lemma obeys_worktree_add_ok_checkout:
  "obeys (\<lambda>x evs f. calls_satisfy (worktree_add_ok e) None evs f)
     (run_git_command e [''git'', ''checkout'', c] None)"
  using obeys_worktree_add_ok_git[of "[''git'', ''checkout'', c]" e None]
  unfolding obeys_def calls_satisfy_def by simp

lemma main_extends:
  assumes "main e w0 = (r, w')"
  shows "trace w' = trace w0 @ new_events w0 w'"
proof -
  have "obeys (calls_satisfy (worktree_add_ok e)) (main e)"
    by (intro obeys_main composable_calls_satisfy quiet_calls_satisfy obeys_worktree_add_ok_git
          obeys_worktree_add_ok_checkout obeys_worktree_add_ok_create_worktree)
  with assms obtain evs where "trace w' = trace w0 @ evs" unfolding obeys_def by blast
  then show ?thesis by (simp add: new_events_def)
qed

text \<open>Whenever a run of main invokes \<^verbatim>\<open>git worktree add\<close>, it is the command of line 117,
  run in the repository, with nothing at the worktree path and the parent directory made.\<close>

lemma main_worktree_add:
  assumes "main e w0 = (r, w')"
    and "Subprocess cmd cwd seen res left \<in> set (new_events w0 w')"
  shows "worktree_add_ok e cmd cwd seen"
proof -
  have "obeys (calls_satisfy (worktree_add_ok e)) (main e)"
    by (intro obeys_main composable_calls_satisfy quiet_calls_satisfy obeys_worktree_add_ok_git
          obeys_worktree_add_ok_checkout obeys_worktree_add_ok_create_worktree)
  with assms(1) obtain evs where evs: "trace w' = trace w0 @ evs"
    "calls_satisfy (worktree_add_ok e) (failure r) evs (files w')"
    unfolding obeys_def by blast
  from evs(1) have "new_events w0 w' = evs" by (simp add: new_events_def)
  with assms(2) evs(2) show ?thesis unfolding calls_satisfy_def by blast
qed

subsection \<open>A failing command ends the run\<close>

lemma obeys_abort_inv_checkout:
  "obeys (\<lambda>x evs f. abort_inv None evs f) (run_git_command e [''git'', ''checkout'', c] None)"
  unfolding obeys_def
proof (intro allI impI)
  fix w r w' assume "run_git_command e [''git'', ''checkout'', c] None w = (r, w')"
  then obtain res left rest where
    t: "trace w' = trace w @ Subprocess [''git'', ''checkout'', c] (cwd_or_repo None) (files w) res left # rest"
    and p: "\<forall>ev \<in> set rest. is_print ev"
    by (rule git_trace_cases)
  have "\<not> failed_call ev" if "ev \<in> set rest" for ev
    using p that by (cases ev) auto
  moreover have "\<not> failed_call (Subprocess [''git'', ''checkout'', c] (cwd_or_repo None) (files w) res left)"
    by (cases res) (simp_all add: is_checkout_def)
  ultimately have "abort_inv None (Subprocess [''git'', ''checkout'', c] (cwd_or_repo None) (files w) res left # rest) (files w')"
    unfolding abort_inv_def by auto
  with t show "\<exists>evs. trace w' = trace w @ evs \<and> abort_inv None evs (files w')" by blast
qed

lemma obeys_abort_inv_create_worktree: "obeys abort_inv (create_worktree e b)"
proof -
  note C = composable_abort_inv and Q = quiet_abort_inv
  have chk: "obeys abort_inv (if found
            then seq (py_print 113 [path_str (worktree_path e)])
                     (rmtree (worktree_path e))
            else return ())" for found
    by (simp add: obeys_seq C obeys_py_print Q obeys_rmtree obeys_return)
  show ?thesis
    unfolding create_worktree_def
    by (intro obeys_seq obeys_and_then C obeys_py_print Q obeys_mkdir obeys_exists_path
          obeys_abort_inv_git chk)
qed

lemma main_abort_inv:
  assumes "main e w0 = (r, w')"
  shows "abort_inv (failure r) (new_events w0 w') (files w')"
proof -
  have "obeys abort_inv (main e)"
    by (intro obeys_main composable_abort_inv quiet_abort_inv obeys_abort_inv_git
          obeys_abort_inv_checkout obeys_abort_inv_create_worktree)
  with assms obtain evs where evs: "trace w' = trace w0 @ evs"
    "abort_inv (failure r) evs (files w')"
    unfolding obeys_def by blast
  from evs(1) have "new_events w0 w' = evs" by (simp add: new_events_def)
  with evs(2) show ?thesis by simp
qed

subsection \<open>Further lemmas\<close>

lemma failed_call_unique:
  assumes "pre @ x # post = pre2 @ [y, p1, p2]"
    and "failed_call x" "\<forall>ev \<in> set pre2. \<not> failed_call ev" "\<not> failed_call p1" "\<not> failed_call p2"
  shows "pre = pre2 \<and> x = y \<and> post = [p1, p2]"
  using assms
proof (induction pre2 arbitrary: pre)
  case Nil
  show ?case
  proof (cases pre)
    case Nil
    with Nil.prems(1) show ?thesis by simp
  next
    case (Cons a pre')
    with Nil.prems(1) have "pre' @ x # post = [p1, p2]" by simp
    then have "x = p1 \<or> x = p2" by (auto simp: append_eq_Cons_conv Cons_eq_append_conv)
    with Nil.prems show ?thesis by auto
  qed
next
  case (Cons a pre2)
  show ?case
  proof (cases pre)
    case Nil
    with Cons.prems(1) have "x = a" by simp
    with Cons.prems show ?thesis by simp
  next
    case c: (Cons a' pre')
    with Cons.prems(1) have "a' = a" "pre' @ x # post = pre2 @ [y, p1, p2]" by simp_all
    with Cons.IH[of pre'] Cons.prems c show ?thesis by simp
  qed
qed

lemma failure_Some: "failure r = Some x \<Longrightarrow> r = Inl x"
  by (cases r) simp_all

lemma path_mkdir_existing:
  assumes "lookup f p = Some Dir"
  shows "path_mkdir p f = Inr (f, [])"
proof -
  from assms have "os_mkdir p f = Inl FileExistsError" by (simp add: os_mkdir_def)
  with assms show ?thesis by (simp add: path_mkdir.simps[of p f] is_dir_def)
qed

lemma prefix_project_worktree: "prefix (project_worktree_dir e) (worktree_path e)"
  by (simp add: worktree_path_def)

subsection \<open>What main reports and how it goes on\<close>

lemma run_git_command_Inl:
  assumes "run_git_command e cmd cwd w = (Inl x, w')"
  obtains res left rest where
    "trace w' = trace w @ Subprocess cmd (cwd_or_repo cwd) (files w) res left # rest"
    "\<not> call_ok res" "\<forall>ev \<in> set rest. \<exists>a. ev = Print 36 a \<or> ev = Print 37 a" "files w' = left"
proof (cases e cmd cwd w rule: run_git_command_cases)
  case (launch f')
  from run_git_command_launch[OF this] assms show ?thesis
    by (intro that[of LaunchFailed "files w" "[]"]) auto
next
  case (failed rc out err f')
  from run_git_command_failed[OF this] assms failed show ?thesis
    by (intro that[of "Completed rc out err" f' "[Print 36 [py_join '' '' cmd], Print 37 [err]]"]) auto
next
  case (ok out err f')
  from run_git_command_ok[OF this] assms show ?thesis by simp
qed

lemma git_calls_append [simp]: "git_calls (xs @ ys) = git_calls xs @ git_calls ys"
  by (induction xs rule: git_calls.induct) simp_all

lemma git_calls_prints: "\<forall>ev \<in> set evs. is_print ev \<Longrightarrow> git_calls evs = []"
proof (induction evs)
  case Nil
  then show ?case by simp
next
  case (Cons ev evs)
  then show ?case by (cases ev) simp_all
qed

lemma reported_branch_prints:
  "\<forall>ev \<in> set evs. \<exists>a. ev = Print 36 a \<or> ev = Print 37 a \<Longrightarrow> reported_branch evs = None"
proof (induction evs)
  case Nil
  then show ?case by simp
next
  case (Cons ev evs)
  then show ?case by auto
qed

lemma new_events_eq: "trace w' = trace w @ evs \<Longrightarrow> new_events w w' = evs"
  by (simp add: new_events_def)

lemma obeys_extends:
  assumes "obeys I m" "m w = (r, w')"
  obtains evs where "trace w' = trace w @ evs"
  using assms unfolding obeys_def by blast

lemma obeys_worktree_add_ok_build_scenario:
  "obeys (calls_satisfy (worktree_add_ok e)) (build_scenario e b)"
  by (intro obeys_build_scenario composable_calls_satisfy quiet_calls_satisfy
        obeys_worktree_add_ok_git obeys_worktree_add_ok_create_worktree)

lemma obeys_worktree_add_ok_ensure_primary:
  "obeys (calls_satisfy (worktree_add_ok e)) (ensure_primary e cb)"
  by (intro obeys_ensure_primary composable_calls_satisfy quiet_calls_satisfy
        obeys_worktree_add_ok_checkout)

lemma build_scenario_starts:
  assumes "build_scenario e b w = (r, w')"
  obtains rest where "trace w' = trace w @ Print 77 [b] # rest"
proof -
  let ?k = "seq (create_initial_file e b)
    (seq (create_worktree e b)
    (seq (modify_in_worktree e)
    (seq (modify_in_main e b)
         (print_all (summary e b)))))"
  have o: "obeys (calls_satisfy (worktree_add_ok e)) (seq (py_print 77 [b]) ?k)"
    using obeys_build_scenario[of "calls_satisfy (worktree_add_ok e)" e b]
    unfolding build_scenario_def
    by (simp add: composable_calls_satisfy quiet_calls_satisfy
        obeys_worktree_add_ok_git obeys_worktree_add_ok_create_worktree)
  have ok: "obeys (calls_satisfy (worktree_add_ok e)) ?k"
  proof -
    note C = composable_calls_satisfy and Q = quiet_calls_satisfy
    have 3: "obeys (calls_satisfy (worktree_add_ok e)) (create_initial_file e b)"
      unfolding create_initial_file_def
      by (intro obeys_seq C obeys_py_print obeys_write_text Q obeys_worktree_add_ok_git not_worktree_add)
    have 5: "obeys (calls_satisfy (worktree_add_ok e)) (modify_in_worktree e)"
      unfolding modify_in_worktree_def
      by (intro obeys_seq C obeys_py_print obeys_write_text Q obeys_worktree_add_ok_git not_worktree_add)
    have 6: "obeys (calls_satisfy (worktree_add_ok e)) (modify_in_main e b)"
      unfolding modify_in_main_def
      by (intro obeys_seq C obeys_py_print obeys_write_text Q obeys_worktree_add_ok_git not_worktree_add)
    show ?thesis
      by (intro obeys_seq C 3 5 6 obeys_worktree_add_ok_create_worktree obeys_print_all Q)
  qed
  from assms have "?k (w\<lparr>trace := trace w @ [Print 77 [b]]\<rparr>) = (r, w')"
    by (simp add: build_scenario_def seq_py_print)
  with ok obtain evs where "trace w' = trace (w\<lparr>trace := trace w @ [Print 77 [b]]\<rparr>) @ evs"
    unfolding obeys_def by blast
  then have "trace w' = trace w @ Print 77 [b] # evs" by simp
  then show ?thesis by (rule that)
qed

text \<open>A run that reports a current branch has passed the two checks and read the branch
  from \<^verbatim>\<open>git branch --show-current\<close>.\<close>

lemma reported_branch_main:
  assumes run: "main e w0 = (r, w')" and rep: "reported_branch (new_events w0 w') = Some cb"
  obtains out err f1 resolved w2 evs2 evs3 where
      "path_exists (files w0) REPO_PATH"
      "path_exists (files w0) (REPO_PATH @ [''.git''])"
      "git e [''git'', ''branch'', ''--show-current''] REPO_PATH
         (w0\<lparr>trace := trace w0 @ [Print 42 [], Print 43 [], Print 56 [path_str REPO_PATH]]\<rparr>)
       = (Completed 0 out err, f1)"
      "cb = py_strip out"
      "ensure_primary e cb
         \<lparr>files = f1,
          trace = trace w0 @
            [Print 42 [], Print 43 [], Print 56 [path_str REPO_PATH],
             Subprocess [''git'', ''branch'', ''--show-current''] REPO_PATH (files w0)
               (Completed 0 out err) f1,
             Print 60 [cb]]\<rparr> = (Inr resolved, w2)"
      "case resolved of None \<Rightarrow> r = Inr () \<and> w' = w2
       | Some main_branch \<Rightarrow> build_scenario e main_branch w2 = (r, w')"
      "trace w2 = trace w0 @
            [Print 42 [], Print 43 [], Print 56 [path_str REPO_PATH],
             Subprocess [''git'', ''branch'', ''--show-current''] REPO_PATH (files w0)
               (Completed 0 out err) f1,
             Print 60 [cb]] @ evs2"
      "trace w' = trace w2 @ evs3"
      "new_events w0 w' = [Print 42 [], Print 43 [], Print 56 [path_str REPO_PATH],
             Subprocess [''git'', ''branch'', ''--show-current''] REPO_PATH (files w0)
               (Completed 0 out err) f1,
             Print 60 [cb]] @ evs2 @ evs3"
  using run
proof (cases rule: main_cases)
  case no_repo
  with rep show ?thesis by simp
next
  case no_git
  with rep show ?thesis by simp
next
  case (query_failed x)
  from query_failed(3) obtain res left rest where
    t: "trace w' = trace (w0\<lparr>trace := trace w0 @ [Print 42 [], Print 43 [], Print 56 [path_str REPO_PATH]]\<rparr>)
          @ Subprocess [''git'', ''branch'', ''--show-current''] (cwd_or_repo None)
              (files (w0\<lparr>trace := trace w0 @ [Print 42 [], Print 43 [], Print 56 [path_str REPO_PATH]]\<rparr>)) res left # rest"
    and p: "\<forall>ev \<in> set rest. \<exists>a. ev = Print 36 a \<or> ev = Print 37 a"
    by (rule run_git_command_Inl)
  from t have "new_events w0 w' = [Print 42 [], Print 43 [], Print 56 [path_str REPO_PATH],
      Subprocess [''git'', ''branch'', ''--show-current''] (cwd_or_repo None) (files w0) res left] @ rest"
    by (simp add: new_events_def)
  with rep reported_branch_prints[OF p] show ?thesis by simp
next
  case (resolved out err f1 resolved w2)
  let ?w1 = "\<lparr>files = f1,
          trace = trace w0 @
            [Print 42 [], Print 43 [], Print 56 [path_str REPO_PATH],
             Subprocess [''git'', ''branch'', ''--show-current''] REPO_PATH (files w0)
               (Completed 0 out err) f1,
             Print 60 [py_strip out]]\<rparr>"
  from obeys_worktree_add_ok_ensure_primary resolved(4)
  obtain evs2 where t2: "trace w2 = trace ?w1 @ evs2" by (rule obeys_extends)
  obtain evs3 where t3: "trace w' = trace w2 @ evs3"
  proof (cases resolved)
    case None
    with resolved(5) have "trace w' = trace w2 @ []" by simp
    then show ?thesis by (rule that)
  next
    case (Some b)
    with resolved(5) have "build_scenario e b w2 = (r, w')" by simp
    with obeys_worktree_add_ok_build_scenario show ?thesis using that by (rule obeys_extends)
  qed
  from t2 t3 have "trace w' = trace w0 @ ([Print 42 [], Print 43 [], Print 56 [path_str REPO_PATH],
             Subprocess [''git'', ''branch'', ''--show-current''] REPO_PATH (files w0)
               (Completed 0 out err) f1,
             Print 60 [py_strip out]] @ evs2 @ evs3)"
    by simp
  then have ne: "new_events w0 w' = [Print 42 [], Print 43 [], Print 56 [path_str REPO_PATH],
             Subprocess [''git'', ''branch'', ''--show-current''] REPO_PATH (files w0)
               (Completed 0 out err) f1,
             Print 60 [py_strip out]] @ evs2 @ evs3"
    by (rule new_events_eq)
  with rep have cb: "cb = py_strip out" by simp
  from resolved t2 t3 cb ne show ?thesis by (intro that[of out err f1 resolved w2 evs2 evs3]) simp_all
qed

lemma py_strip_ends:
  "py_strip s = [] \<or> (\<not> is_space (hd (py_strip s)) \<and> \<not> is_space (last (py_strip s)))"
proof (cases "py_strip s = []")
  case True
  then show ?thesis by simp
next
  case False
  let ?t = "dropWhile is_space s"
  let ?u = "dropWhile is_space (rev ?t)"
  from False have u: "?u \<noteq> []" by (simp add: py_strip_def)
  then have "\<not> is_space (hd ?u)" by (rule hd_dropWhile)
  with u have l: "\<not> is_space (last (py_strip s))" by (simp add: py_strip_def last_rev)
  have "rev ?t = takeWhile is_space (rev ?t) @ ?u" by simp
  then have "?t = rev ?u @ rev (takeWhile is_space (rev ?t))"
    by (metis rev_append rev_rev_ident)
  then have t: "?t = py_strip s @ rev (takeWhile is_space (rev ?t))" by (simp add: py_strip_def)
  with False have "hd ?t = hd (py_strip s)" by (metis hd_append2)
  moreover from t False have "?t \<noteq> []" by (metis append_is_Nil_conv)
  then have "\<not> is_space (hd ?t)" by (rule hd_dropWhile)
  ultimately show ?thesis using l by simp
qed

lemma py_strip_middle:
  "\<exists>pre suf. s = pre @ py_strip s @ suf \<and> (\<forall>c \<in> set pre. is_space c) \<and> (\<forall>c \<in> set suf. is_space c)"
proof -
  let ?t = "dropWhile is_space s"
  let ?u = "dropWhile is_space (rev ?t)"
  have "rev ?t = takeWhile is_space (rev ?t) @ ?u" by simp
  then have "?t = rev ?u @ rev (takeWhile is_space (rev ?t))"
    by (metis rev_append rev_rev_ident)
  then have t: "?t = py_strip s @ rev (takeWhile is_space (rev ?t))" by (simp add: py_strip_def)
  have "s = takeWhile is_space s @ ?t" by simp
  with t have "s = takeWhile is_space s @ py_strip s @ rev (takeWhile is_space (rev ?t))" by simp
  moreover have "\<forall>c \<in> set (takeWhile is_space s). is_space c" by (auto dest: set_takeWhileD)
  moreover have "\<forall>c \<in> set (rev (takeWhile is_space (rev ?t))). is_space c"
    by (auto dest: set_takeWhileD)
  ultimately show ?thesis by blast
qed

lemma is_space_newline: "is_space newline"
  by (simp add: is_space_def newline_def)

lemma run_git_command_Inr_trace:
  assumes "run_git_command e cmd cwd w = (Inr s, w')"
  obtains res left where
    "trace w' = trace w @ [Subprocess cmd (cwd_or_repo cwd) (files w) res left]" "call_ok res"
proof -
  from assms obtain out err f' where
    "w' = \<lparr>files = f',
           trace = trace w @ [Subprocess cmd (cwd_or_repo cwd) (files w) (Completed 0 out err) f']\<rparr>"
    by (rule run_git_command_Inr)
  then have "trace w' = trace w @ [Subprocess cmd (cwd_or_repo cwd) (files w) (Completed 0 out err) f']"
    "call_ok (Completed 0 out err)" by simp_all
  then show ?thesis by (rule that)
qed

lemma git_calls_failure_prints:
  "\<forall>ev \<in> set rest. \<exists>a. ev = Print 36 a \<or> ev = Print 37 a \<Longrightarrow> git_calls rest = []"
  by (rule git_calls_prints) auto

subsection \<open>The successful run\<close>

lemma py_print_Inr:
  assumes "py_print l a w = (r, w')"
  shows "r = Inr ()" "trace w' = trace w @ [Print l a]" "files w' = files w"
  using assms by (auto simp: py_print_def)

lemma write_add_commit_Inr:
  assumes "seq (py_print l a) (seq (write_text p s) (seq (run_git_command e c1 cwd)
             (seq (run_git_command e c2 cwd) (py_print l2 a2)))) w = (Inr u, w')"
  obtains f1 o1 e1 f2 o2 e2 where
    "fs_write_text p s (files w) = Inr f1"
    "trace w' = trace w @
       [Print l a, WriteText p s,
        Subprocess c1 (cwd_or_repo cwd) f1 (Completed 0 o1 e1) f2,
        Subprocess c2 (cwd_or_repo cwd) f2 (Completed 0 o2 e2) (files w'),
        Print l2 a2]"
proof -
  let ?w1 = "w\<lparr>trace := trace w @ [Print l a]\<rparr>"
  from assms have "seq (write_text p s) (seq (run_git_command e c1 cwd)
             (seq (run_git_command e c2 cwd) (py_print l2 a2))) ?w1 = (Inr u, w')"
    by (simp add: seq_py_print)
  then obtain u2 w2 where wr: "write_text p s ?w1 = (Inr u2, w2)"
    and k2: "seq (run_git_command e c1 cwd) (seq (run_git_command e c2 cwd) (py_print l2 a2)) w2
              = (Inr u, w')"
    by (rule seq_Inr)
  from wr obtain f1 where f1: "fs_write_text p s (files ?w1) = Inr f1"
    and w2: "w2 = \<lparr>files = f1, trace = trace ?w1 @ [WriteText p s]\<rparr>"
    by (cases rule: write_text_cases) simp_all
  from k2 obtain s3 w3 where g1: "run_git_command e c1 cwd w2 = (Inr s3, w3)"
    and k3: "seq (run_git_command e c2 cwd) (py_print l2 a2) w3 = (Inr u, w')"
    by (rule seq_Inr)
  from g1 obtain o1 e1 f2 where
    w3: "w3 = \<lparr>files = f2, trace = trace w2 @
           [Subprocess c1 (cwd_or_repo cwd) (files w2) (Completed 0 o1 e1) f2]\<rparr>"
    by (rule run_git_command_Inr)
  from k3 obtain s4 w4 where g2: "run_git_command e c2 cwd w3 = (Inr s4, w4)"
    and k4: "py_print l2 a2 w4 = (Inr u, w')"
    by (rule seq_Inr)
  from g2 obtain o2 e2 f3 where
    w4: "w4 = \<lparr>files = f3, trace = trace w3 @
           [Subprocess c2 (cwd_or_repo cwd) (files w3) (Completed 0 o2 e2) f3]\<rparr>"
    by (rule run_git_command_Inr)
  from k4 have w': "trace w' = trace w4 @ [Print l2 a2]" "files w' = files w4"
    by (simp_all add: py_print_Inr)
  from w2 w3 w4 w' have "trace w' = trace w @
       [Print l a, WriteText p s,
        Subprocess c1 (cwd_or_repo cwd) f1 (Completed 0 o1 e1) f2,
        Subprocess c2 (cwd_or_repo cwd) f2 (Completed 0 o2 e2) (files w'),
        Print l2 a2]"
    by simp
  moreover from f1 have "fs_write_text p s (files w) = Inr f1" by simp
  ultimately show ?thesis using that by blast
qed

lemma create_worktree_Inr:
  assumes "create_worktree e b w = (Inr u, w')"
  obtains mid seen out err where
    "trace w' = trace w @ mid @
       [Subprocess [''git'', ''worktree'', ''add'', ''-b'', almond_branch e,
                    path_str (worktree_path e), b] REPO_PATH seen (Completed 0 out err) (files w'),
        Print 118 [path_str (worktree_path e)]]"
    "\<forall>ev \<in> set mid. \<not> is_subprocess ev"
proof -
  let ?wt = "worktree_path e"
  let ?cmd = "[''git'', ''worktree'', ''add'', ''-b'', almond_branch e, path_str ?wt, b]"
  let ?chk = "and_then (exists_path ?wt) (\<lambda>found.
            if found then seq (py_print 113 [path_str ?wt]) (rmtree ?wt) else return ())"
  from assms obtain u1 w1 where m: "mkdir (project_worktree_dir e) w = (Inr u1, w1)"
    and k1: "seq (py_print 108 [almond_branch e]) (seq (py_print 109 [path_str ?wt])
              (seq ?chk (seq (run_git_command e ?cmd None) (py_print 118 [path_str ?wt])))) w1
             = (Inr u, w')"
    unfolding create_worktree_def by (rule seq_Inr)
  from m obtain f1 made where w1: "w1 = \<lparr>files = f1, trace = trace w @ map Mkdir made\<rparr>"
    by (cases rule: mkdir_cases) simp_all
  let ?w2 = "\<lparr>files = f1, trace = trace w @ map Mkdir made @
       [Print 108 [almond_branch e], Print 109 [path_str ?wt]]\<rparr>"
  from k1 w1 have "seq ?chk (seq (run_git_command e ?cmd None) (py_print 118 [path_str ?wt])) ?w2
      = (Inr u, w')"
    by (simp add: seq_py_print)
  then obtain u3 w3 where c: "?chk ?w2 = (Inr u3, w3)"
    and k3: "seq (run_git_command e ?cmd None) (py_print 118 [path_str ?wt]) w3 = (Inr u, w')"
    by (rule seq_Inr)
  obtain cleared where w3: "trace w3 = trace ?w2 @ cleared" "\<forall>ev \<in> set cleared. \<not> is_subprocess ev"
  proof (cases "path_exists f1 ?wt")
    case False
    with c have "w3 = ?w2" by (simp add: and_then_def exists_path_def return_def)
    then have "trace w3 = trace ?w2 @ []" by simp
    then show ?thesis using that by fastforce
  next
    case True
    let ?w2' = "\<lparr>files = f1, trace = trace w @ map Mkdir made @
       [Print 108 [almond_branch e], Print 109 [path_str ?wt], Print 113 [path_str ?wt]]\<rparr>"
    from True c have "rmtree ?wt ?w2' = (Inr u3, w3)"
      by (simp add: and_then_def exists_path_def seq_py_print)
    then obtain f2 where "w3 = \<lparr>files = f2, trace = trace ?w2' @ [Rmtree ?wt]\<rparr>"
      by (cases rule: rmtree_cases) simp_all
    then have "trace w3 = trace ?w2 @ [Print 113 [path_str ?wt], Rmtree ?wt]" by simp
    then show ?thesis using that by fastforce
  qed
  from k3 obtain s4 w4 where g: "run_git_command e ?cmd None w3 = (Inr s4, w4)"
    and k4: "py_print 118 [path_str ?wt] w4 = (Inr u, w')"
    by (rule seq_Inr)
  from g obtain out err f4 where
    w4: "w4 = \<lparr>files = f4, trace = trace w3 @
           [Subprocess ?cmd (cwd_or_repo None) (files w3) (Completed 0 out err) f4]\<rparr>"
    by (rule run_git_command_Inr)
  from k4 have w': "trace w' = trace w4 @ [Print 118 [path_str ?wt]]" "files w' = files w4"
    by (simp_all add: py_print_Inr)
  from w3 w4 w' have "trace w' = trace w @
       (map Mkdir made @ [Print 108 [almond_branch e], Print 109 [path_str ?wt]] @ cleared) @
       [Subprocess ?cmd REPO_PATH (files w3) (Completed 0 out err) (files w'),
        Print 118 [path_str ?wt]]"
    by (simp add: cwd_or_repo_def)
  moreover have "\<forall>ev \<in> set (map Mkdir made @ [Print 108 [almond_branch e], Print 109 [path_str ?wt]] @ cleared).
      \<not> is_subprocess ev"
    using w3(2) by auto
  ultimately show ?thesis by (rule that)
qed

lemma print_all_trace:
  "print_all ls w = (Inr (), w\<lparr>trace := trace w @ map (\<lambda>(l, args). Print l args) ls\<rparr>)"
proof (induction ls arbitrary: w)
  case Nil
  then show ?case by (simp add: return_def)
next
  case (Cons a ls)
  obtain l args where a: "a = (l, args)" by (cases a)
  show ?case by (simp add: a seq_py_print Cons.IH)
qed

text \<open>The trace of steps 3 to 7 when they all succeed.\<close>

lemma build_scenario_Inr:
  assumes "build_scenario e b w = (Inr u, w')"
  obtains f1 o1 e1 f2 o2 e2 f3 mid seen o3 e3 f4 f5 o4 e4 f6 o5 e5 f7 f8 o6 e6 f9 o7 e7 where
    "trace w' = trace w @
       [Print 77 [b],
        Print 81 [TEST_FILE], WriteText (REPO_PATH @ [TEST_FILE]) initial_content,
        Subprocess [''git'', ''add'', TEST_FILE] REPO_PATH f1 (Completed 0 o1 e1) f2,
        Subprocess [''git'', ''commit'', ''-m'', ''Add initial abc.txt file''] REPO_PATH f2
          (Completed 0 o2 e2) f3,
        Print 92 [TEST_FILE, b]] @ mid @
       [Subprocess [''git'', ''worktree'', ''add'', ''-b'', almond_branch e,
                    path_str (worktree_path e), b] REPO_PATH seen (Completed 0 o3 e3) f4,
        Print 118 [path_str (worktree_path e)],
        Print 128 [TEST_FILE], WriteText (worktree_path e @ [TEST_FILE]) almond_content,
        Subprocess [''git'', ''add'', TEST_FILE] (worktree_path e) f5 (Completed 0 o4 e4) f6,
        Subprocess [''git'', ''commit'', ''-m'', ''Modify abc.txt in almondcoder branch'']
          (worktree_path e) f6 (Completed 0 o5 e5) f7,
        Print 132 [TEST_FILE, almond_branch e],
        Print 135 [b], WriteText (REPO_PATH @ [TEST_FILE]) main_content,
        Subprocess [''git'', ''add'', TEST_FILE] REPO_PATH f8 (Completed 0 o6 e6) f9,
        Subprocess [''git'', ''commit'', ''-m'', ''Modify abc.txt on main branch (conflicting)'']
          REPO_PATH f9 (Completed 0 o7 e7) (files w'),
        Print 146 [b]] @
       map (\<lambda>(l, args). Print l args) (summary e b)"
    "\<forall>ev \<in> set mid. \<not> is_subprocess ev"
    "lookup f1 (REPO_PATH @ [TEST_FILE]) = Some (File initial_content)"
    "lookup f5 (worktree_path e @ [TEST_FILE]) = Some (File almond_content)"
    "lookup f8 (REPO_PATH @ [TEST_FILE]) = Some (File main_content)"
proof -
  let ?w1 = "w\<lparr>trace := trace w @ [Print 77 [b]]\<rparr>"
  from assms have "seq (create_initial_file e b)
    (seq (create_worktree e b)
    (seq (modify_in_worktree e)
    (seq (modify_in_main e b)
         (print_all (summary e b))))) ?w1 = (Inr u, w')"
    by (simp add: build_scenario_def seq_py_print)
  then obtain u3 w3 where s3: "create_initial_file e b ?w1 = (Inr u3, w3)"
    and k3: "seq (create_worktree e b) (seq (modify_in_worktree e)
       (seq (modify_in_main e b) (print_all (summary e b)))) w3 = (Inr u, w')"
    by (rule seq_Inr)
  from k3 obtain u4 w4 where s4: "create_worktree e b w3 = (Inr u4, w4)"
    and k4: "seq (modify_in_worktree e) (seq (modify_in_main e b) (print_all (summary e b))) w4
       = (Inr u, w')"
    by (rule seq_Inr)
  from k4 obtain u5 w5 where s5: "modify_in_worktree e w4 = (Inr u5, w5)"
    and k5: "seq (modify_in_main e b) (print_all (summary e b)) w5 = (Inr u, w')"
    by (rule seq_Inr)
  from k5 obtain u6 w6 where s6: "modify_in_main e b w5 = (Inr u6, w6)"
    and k6: "print_all (summary e b) w6 = (Inr u, w')"
    by (rule seq_Inr)
  from s3 obtain f1 o1 e1 f2 o2 e2 where
    a1: "fs_write_text (REPO_PATH @ [TEST_FILE]) initial_content (files ?w1) = Inr f1"
    and t3: "trace w3 = trace ?w1 @
       [Print 81 [TEST_FILE], WriteText (REPO_PATH @ [TEST_FILE]) initial_content,
        Subprocess [''git'', ''add'', TEST_FILE] (cwd_or_repo None) f1 (Completed 0 o1 e1) f2,
        Subprocess [''git'', ''commit'', ''-m'', ''Add initial abc.txt file''] (cwd_or_repo None) f2
          (Completed 0 o2 e2) (files w3),
        Print 92 [TEST_FILE, b]]"
    unfolding create_initial_file_def by (rule write_add_commit_Inr)
  from s4 obtain mid seen o3 e3 where
    t4: "trace w4 = trace w3 @ mid @
       [Subprocess [''git'', ''worktree'', ''add'', ''-b'', almond_branch e,
                    path_str (worktree_path e), b] REPO_PATH seen (Completed 0 o3 e3) (files w4),
        Print 118 [path_str (worktree_path e)]]"
    and mid: "\<forall>ev \<in> set mid. \<not> is_subprocess ev"
    by (rule create_worktree_Inr)
  from s5 obtain f5 o4 e4 f6 o5 e5 where
    a5: "fs_write_text (worktree_path e @ [TEST_FILE]) almond_content (files w4) = Inr f5"
    and t5: "trace w5 = trace w4 @
       [Print 128 [TEST_FILE], WriteText (worktree_path e @ [TEST_FILE]) almond_content,
        Subprocess [''git'', ''add'', TEST_FILE] (cwd_or_repo (Some (worktree_path e))) f5
          (Completed 0 o4 e4) f6,
        Subprocess [''git'', ''commit'', ''-m'', ''Modify abc.txt in almondcoder branch'']
          (cwd_or_repo (Some (worktree_path e))) f6 (Completed 0 o5 e5) (files w5),
        Print 132 [TEST_FILE, almond_branch e]]"
    unfolding modify_in_worktree_def by (rule write_add_commit_Inr)
  from s6 obtain f8 o6 e6 f9 o7 e7 where
    a6: "fs_write_text (REPO_PATH @ [TEST_FILE]) main_content (files w5) = Inr f8"
    and t6: "trace w6 = trace w5 @
       [Print 135 [b], WriteText (REPO_PATH @ [TEST_FILE]) main_content,
        Subprocess [''git'', ''add'', TEST_FILE] (cwd_or_repo None) f8 (Completed 0 o6 e6) f9,
        Subprocess [''git'', ''commit'', ''-m'', ''Modify abc.txt on main branch (conflicting)'']
          (cwd_or_repo None) f9 (Completed 0 o7 e7) (files w6),
        Print 146 [b]]"
    unfolding modify_in_main_def by (rule write_add_commit_Inr)
  from k6 have "w' = w6\<lparr>trace := trace w6 @ map (\<lambda>(l, args). Print l args) (summary e b)\<rparr>"
    by (simp add: print_all_trace)
  then have t7: "trace w' = trace w6 @ map (\<lambda>(l, args). Print l args) (summary e b)"
    and f7: "files w' = files w6"
    by simp_all
  from t3 t4 t5 t6 t7 f7 have "trace w' = trace w @
       [Print 77 [b],
        Print 81 [TEST_FILE], WriteText (REPO_PATH @ [TEST_FILE]) initial_content,
        Subprocess [''git'', ''add'', TEST_FILE] REPO_PATH f1 (Completed 0 o1 e1) f2,
        Subprocess [''git'', ''commit'', ''-m'', ''Add initial abc.txt file''] REPO_PATH f2
          (Completed 0 o2 e2) (files w3),
        Print 92 [TEST_FILE, b]] @ mid @
       [Subprocess [''git'', ''worktree'', ''add'', ''-b'', almond_branch e,
                    path_str (worktree_path e), b] REPO_PATH seen (Completed 0 o3 e3) (files w4),
        Print 118 [path_str (worktree_path e)],
        Print 128 [TEST_FILE], WriteText (worktree_path e @ [TEST_FILE]) almond_content,
        Subprocess [''git'', ''add'', TEST_FILE] (worktree_path e) f5 (Completed 0 o4 e4) f6,
        Subprocess [''git'', ''commit'', ''-m'', ''Modify abc.txt in almondcoder branch'']
          (worktree_path e) f6 (Completed 0 o5 e5) (files w5),
        Print 132 [TEST_FILE, almond_branch e],
        Print 135 [b], WriteText (REPO_PATH @ [TEST_FILE]) main_content,
        Subprocess [''git'', ''add'', TEST_FILE] REPO_PATH f8 (Completed 0 o6 e6) f9,
        Subprocess [''git'', ''commit'', ''-m'', ''Modify abc.txt on main branch (conflicting)'']
          REPO_PATH f9 (Completed 0 o7 e7) (files w'),
        Print 146 [b]] @
       map (\<lambda>(l, args). Print l args) (summary e b)"
    by (simp add: cwd_or_repo_def)
  moreover note mid
  moreover from a1 have "lookup f1 (REPO_PATH @ [TEST_FILE]) = Some (File initial_content)"
    by (rule fs_write_text_Inr)
  moreover from a5 have "lookup f5 (worktree_path e @ [TEST_FILE]) = Some (File almond_content)"
    by (rule fs_write_text_Inr)
  moreover from a6 have "lookup f8 (REPO_PATH @ [TEST_FILE]) = Some (File main_content)"
    by (rule fs_write_text_Inr)
  ultimately show ?thesis by (rule that)
qed

lemma staged_append [simp]: "staged (xs @ ys) = staged xs @ staged ys"
  by (simp add: staged_def)

lemma staged_Cons [simp]: "staged (x # xs) = stage_of x @ staged xs"
  by (simp add: staged_def)

lemma staged_Nil [simp]: "staged [] = []"
  by (simp add: staged_def)

lemma staged_no_subprocess: "\<forall>ev \<in> set evs. \<not> is_subprocess ev \<Longrightarrow> staged evs = []"
proof (induction evs)
  case Nil
  then show ?case by simp
next
  case (Cons ev evs)
  then show ?case by (cases ev) simp_all
qed

lemma git_calls_no_subprocess: "\<forall>ev \<in> set evs. \<not> is_subprocess ev \<Longrightarrow> git_calls evs = []"
proof (induction evs)
  case Nil
  then show ?case by simp
next
  case (Cons ev evs)
  then show ?case by (cases ev) simp_all
qed

lemma failure_prints_no_subprocess:
  "\<forall>ev \<in> set rest. \<exists>a. ev = Print 36 a \<or> ev = Print 37 a \<Longrightarrow> \<forall>ev \<in> set rest. \<not> is_subprocess ev"
  by auto

text \<open>A run that returns normally and has printed line 150 went through the branch
  resolution with a base branch and through steps 3 to 7.\<close>

lemma main_success:
  assumes run: "main e w0 = (Inr (), w')" and fin: "Print 150 [] \<in> set (new_events w0 w')"
  obtains out err f1 b w2 evs2 evs3 where
    "new_events w0 w' =
       [Print 42 [], Print 43 [], Print 56 [path_str REPO_PATH],
        Subprocess [''git'', ''branch'', ''--show-current''] REPO_PATH (files w0)
          (Completed 0 out err) f1,
        Print 60 [py_strip out]] @ evs2 @ evs3"
    "build_scenario e b w2 = (Inr (), w')" "trace w' = trace w2 @ evs3"
    "staged evs2 = []" "\<forall>c \<in> set (git_calls evs2). is_checkout (fst c)"
    "py_strip out \<in> set [''main'', ''master''] \<longrightarrow> evs2 = [] \<and> b = py_strip out"
  using run
proof (cases rule: main_cases)
  case no_repo
  with fin show ?thesis by simp
next
  case no_git
  with fin show ?thesis by simp
next
  case (query_failed x)
  then show ?thesis by simp
next
  case (resolved out err f1 resolved w2)
  let ?cb = "py_strip out"
  let ?w1 = "\<lparr>files = f1,
          trace = trace w0 @
            [Print 42 [], Print 43 [], Print 56 [path_str REPO_PATH],
             Subprocess [''git'', ''branch'', ''--show-current''] REPO_PATH (files w0)
               (Completed 0 out err) f1,
             Print 60 [?cb]]\<rparr>"
  let ?five = "[Print 42 [], Print 43 [], Print 56 [path_str REPO_PATH],
             Subprocess [''git'', ''branch'', ''--show-current''] REPO_PATH (files w0)
               (Completed 0 out err) f1,
             Print 60 [?cb]]"
  note found = that
  have goes_on: thesis
    if b: "resolved = Some b" and t2: "trace w2 = trace ?w1 @ evs2"
      and st: "staged evs2 = []" and co: "\<forall>c \<in> set (git_calls evs2). is_checkout (fst c)"
      and pr: "?cb \<in> set [''main'', ''master''] \<longrightarrow> evs2 = [] \<and> b = ?cb"
    for b evs2
  proof -
    from resolved(5) b have bs: "build_scenario e b w2 = (Inr (), w')" by simp
    with obeys_worktree_add_ok_build_scenario obtain evs3 where t3: "trace w' = trace w2 @ evs3"
      by (rule obeys_extends)
    from t2 t3 have "trace w' = trace w0 @ (?five @ evs2 @ evs3)" by simp
    then have "new_events w0 w' = ?five @ evs2 @ evs3" by (rule new_events_eq)
    then show ?thesis using bs t3 st co pr by (rule found)
  qed
  from resolved(4) show ?thesis
  proof (cases rule: ensure_primary_cases)
    case primary
    then have "trace w2 = trace ?w1 @ []" by simp
    with primary(2) show ?thesis by (intro goes_on[of ?cb "[]"]) simp_all
  next
    case (to_main s)
    from to_main(2) obtain res left where
      "trace w2 = trace (?w1\<lparr>trace := trace ?w1 @ [Print 64 []]\<rparr>) @
         [Subprocess [''git'', ''checkout'', ''main''] (cwd_or_repo None)
            (files (?w1\<lparr>trace := trace ?w1 @ [Print 64 []]\<rparr>)) res left]"
      by (rule run_git_command_Inr_trace)
    then have "trace w2 = trace ?w1 @ [Print 64 [],
        Subprocess [''git'', ''checkout'', ''main''] (cwd_or_repo None) f1 res left]"
      by simp
    with to_main show ?thesis
      by (intro goes_on[of "''main''" "[Print 64 [],
        Subprocess [''git'', ''checkout'', ''main''] (cwd_or_repo None) f1 res left]"])
         (simp_all add: is_checkout_def)
  next
    case (to_master x w2a s)
    from to_master(2) obtain res left rest where
      ta: "trace w2a = trace (?w1\<lparr>trace := trace ?w1 @ [Print 64 []]\<rparr>) @
         Subprocess [''git'', ''checkout'', ''main''] (cwd_or_repo None)
            (files (?w1\<lparr>trace := trace ?w1 @ [Print 64 []]\<rparr>)) res left # rest"
      and pr: "\<forall>ev \<in> set rest. \<exists>a. ev = Print 36 a \<or> ev = Print 37 a"
      by (rule run_git_command_Inl)
    from to_master(3) obtain res2 left2 where
      tb: "trace w2 = trace w2a @
         [Subprocess [''git'', ''checkout'', ''master''] (cwd_or_repo None) (files w2a) res2 left2]"
      by (rule run_git_command_Inr_trace)
    from ta tb have "trace w2 = trace ?w1 @ (Print 64 [] #
        Subprocess [''git'', ''checkout'', ''main''] (cwd_or_repo None) f1 res left # rest @
        [Subprocess [''git'', ''checkout'', ''master''] (cwd_or_repo None) (files w2a) res2 left2])"
      by simp
    with to_master(1,4) show ?thesis
      using staged_no_subprocess[OF failure_prints_no_subprocess[OF pr]]
        git_calls_failure_prints[OF pr]
      by (intro goes_on[of "''master''" "Print 64 [] #
        Subprocess [''git'', ''checkout'', ''main''] (cwd_or_repo None) f1 res left # rest @
        [Subprocess [''git'', ''checkout'', ''master''] (cwd_or_repo None) (files w2a) res2 left2]"])
         (simp_all add: is_checkout_def)
  next
    case (neither x w2a y w3)
    from neither(2) obtain res left rest where
      ta: "trace w2a = trace (?w1\<lparr>trace := trace ?w1 @ [Print 64 []]\<rparr>) @
         Subprocess [''git'', ''checkout'', ''main''] (cwd_or_repo None)
            (files (?w1\<lparr>trace := trace ?w1 @ [Print 64 []]\<rparr>)) res left # rest"
      and pr: "\<forall>ev \<in> set rest. \<exists>a. ev = Print 36 a \<or> ev = Print 37 a"
      by (rule run_git_command_Inl)
    from neither(3) obtain res2 left2 rest2 where
      tb: "trace w3 = trace w2a @
         Subprocess [''git'', ''checkout'', ''master''] (cwd_or_repo None) (files w2a) res2 left2 # rest2"
      and pr2: "\<forall>ev \<in> set rest2. \<exists>a. ev = Print 36 a \<or> ev = Print 37 a"
      by (rule run_git_command_Inl)
    from neither(4) resolved(5) have "w' = w2" by simp
    with ta tb neither(5) have "trace w' = trace w0 @ (?five @ Print 64 [] #
        Subprocess [''git'', ''checkout'', ''main''] (cwd_or_repo None) f1 res left # rest @
        Subprocess [''git'', ''checkout'', ''master''] (cwd_or_repo None) (files w2a) res2 left2 #
        rest2 @ [Print 73 []])"
      by simp
    then have "new_events w0 w' = ?five @ Print 64 [] #
        Subprocess [''git'', ''checkout'', ''main''] (cwd_or_repo None) f1 res left # rest @
        Subprocess [''git'', ''checkout'', ''master''] (cwd_or_repo None) (files w2a) res2 left2 #
        rest2 @ [Print 73 []]"
      by (rule new_events_eq)
    with fin pr pr2 show ?thesis by auto
  qed
qed

lemma git_calls_summary [simp]: "git_calls (map (\<lambda>(l, args). Print l args) ls) = []"
  by (rule git_calls_prints) auto

lemma staged_summary [simp]: "staged (map (\<lambda>(l, args). Print l args) ls) = []"
  by (rule staged_no_subprocess) auto

lemma reported_branch_five [simp]:
  "reported_branch (Print 42 a # Print 43 b # Print 56 c # Subprocess cmd cwd seen res left #
      Print 60 [cb] # rest) = Some cb"
  by simp

lemma text_lines_initial:
  "text_lines [] initial_content =
     [''Line 1: Initial content'', ''Line 2: This will cause a conflict'',
      ''Line 3: Because both branches will modify this'', ''Line 4: Final line'']"
  by (simp add: initial_content_def newline_def)

lemma text_lines_almond:
  "text_lines [] almond_content =
     [''Line 1: Initial content'',
      ''Line 2: ALMONDCODER VERSION - This is the AI'' @ [CHR 0x27] @ ''s change'',
      ''Line 3: ALMONDCODER VERSION - Modified by the assistant'', ''Line 4: Final line'']"
  by (simp add: almond_content_def newline_def)

lemma text_lines_main:
  "text_lines [] main_content =
     [''Line 1: Initial content'', ''Line 2: MAIN VERSION - This is the manual change'',
      ''Line 3: MAIN VERSION - Modified directly on main'', ''Line 4: Final line'']"
  by (simp add: main_content_def newline_def)


section \<open>Evaluating the samples\<close>

lemma short_uuid_sample: "short_uuid (sample_env sample_bits) = ''12345678''"
  by (simp add: short_uuid_eq sample_env_def sample_bits_def uuid4_def hex_digit_def upt_conv_Cons)

lemma names_sample:
  "almond_branch (sample_env sample_bits) = ''almondcoder/test-conflict-12345678''"
  "worktree_path (sample_env sample_bits) =
     [''Users'', ''user'', ''.almondcoder'', ''website'', ''test-conflict-12345678'']"
  "project_worktree_dir (sample_env sample_bits) = [''Users'', ''user'', ''.almondcoder'', ''website'']"
  by (simp_all add: almond_branch_def worktree_path_def project_worktree_dir_def almondcoder_dir_def
       project_name_def path_name_def REPO_PATH_def worktree_name_def short_uuid_sample)
     (simp_all add: sample_env_def)

lemma git_sample [simp]: "git (sample_env r) = sample_git"
  by (simp add: sample_env_def)

lemmas eval_defs = main_def build_scenario_def create_initial_file_def create_worktree_def
  modify_in_worktree_def modify_in_main_def ensure_primary_def summary_def
  seq_def and_then_def try_except_def return_def py_print_def exists_path_def
  write_text_def mkdir_def rmtree_def run_git_command_def subprocess_run_def cwd_or_repo_def
  fs_write_text_def os_mkdir_def fs_rmtree_def path_exists_def is_dir_def lookup_def
  sample_git_def sample_world_def sample_files_def names_sample
  REPO_PATH_def TEST_FILE_def is_worktree_add_def path_str_def py_strip_def is_space_def newline_def
  path_mkdir.simps

lemma sample_run:
  "main (sample_env sample_bits) sample_world = (Inr (), \<lparr>files = sample_files_5, trace = sample_trace\<rparr>)"
  by (simp add: eval_defs sample_trace_def sample_files_1_def sample_files_2_def sample_files_3_def
        sample_files_4_def sample_files_5_def Let_def)

lemma trace_sample_world: "trace sample_world = []"
  by (simp add: sample_world_def)

lemma git_broken [simp]: "git broken_env = broken_git"
  by (simp add: broken_env_def)

lemma broken_run:
  "main broken_env sample_world =
     (Inl (CalledProcessError [''git'', ''branch'', ''--show-current''] 128 []
             ''fatal: not a git repository''),
      \<lparr>files = sample_files,
       trace = [Print 42 [], Print 43 [], Print 56 [path_str REPO_PATH],
                Subprocess [''git'', ''branch'', ''--show-current''] REPO_PATH sample_files
                  (Completed 128 [] ''fatal: not a git repository'') sample_files,
                Print 36 [''git branch --show-current''],
                Print 37 [''fatal: not a git repository'']]\<rparr>)"
  by (simp add: main_def seq_def and_then_def py_print_def exists_path_def path_exists_def
        lookup_def sample_world_def sample_files_def REPO_PATH_def run_git_command_def
        subprocess_run_def cwd_or_repo_def broken_git_def)

lemma new_events_sample_run:
  "new_events sample_world (snd (main (sample_env sample_bits) sample_world)) = sample_trace"
  by (simp add: sample_run new_events_def trace_sample_world)

lemma worktree_add_in_sample_trace:
  "Subprocess [''git'', ''worktree'', ''add'', ''-b'', ''almondcoder/test-conflict-12345678'',
               ''/Users/user/.almondcoder/website/test-conflict-12345678'', ''main'']
     REPO_PATH sample_files_2 (Completed 0 [] []) sample_files_3 \<in> set sample_trace"
  by (simp add: sample_trace_def Let_def names_sample path_str_def)

lemma lookup_stale:
  "lookup sample_files_3 (worktree_path (sample_env sample_bits)) = Some Dir"
  by (simp add: lookup_def sample_files_3_def sample_files_2_def sample_files_1_def
        sample_files_def names_sample REPO_PATH_def TEST_FILE_def)

lemma git_develop [simp]: "git develop_env = develop_git"
  by (simp add: develop_env_def)

lemma develop_run:
  "main develop_env sample_world =
     (Inr (),
      \<lparr>files = sample_files,
       trace = [Print 42 [], Print 43 [], Print 56 [path_str REPO_PATH],
                Subprocess [''git'', ''branch'', ''--show-current''] REPO_PATH sample_files
                  (Completed 0 (''develop'' @ [newline]) []) sample_files,
                Print 60 [''develop''],
                Print 64 [],
                Subprocess [''git'', ''checkout'', ''main''] REPO_PATH sample_files
                  (Completed 1 [] ''error: pathspec did not match any file(s) known to git'')
                  sample_files,
                Print 36 [''git checkout main''],
                Print 37 [''error: pathspec did not match any file(s) known to git''],
                Subprocess [''git'', ''checkout'', ''master''] REPO_PATH sample_files
                  (Completed 1 [] ''error: pathspec did not match any file(s) known to git'')
                  sample_files,
                Print 36 [''git checkout master''],
                Print 37 [''error: pathspec did not match any file(s) known to git''],
                Print 73 []]\<rparr>)"
  by (simp add: main_def ensure_primary_def seq_def and_then_def try_except_def return_def
        py_print_def exists_path_def path_exists_def
        lookup_def sample_world_def sample_files_def REPO_PATH_def run_git_command_def
        subprocess_run_def cwd_or_repo_def develop_git_def py_strip_def is_space_def newline_def)

lemma branch_query_sample:
  "run_git_command (sample_env sample_bits) [''git'', ''branch'', ''--show-current''] None sample_world
     = (Inr ''main'',
        \<lparr>files = sample_files,
         trace = [Subprocess [''git'', ''branch'', ''--show-current''] REPO_PATH sample_files
                    (Completed 0 (''main'' @ [newline]) []) sample_files]\<rparr>)"
  by (simp add: run_git_command_def subprocess_run_def cwd_or_repo_def sample_git_def
        sample_world_def py_strip_def is_space_def newline_def)

lemma reported_branch_sample:
  "reported_branch (new_events sample_world (snd (main (sample_env sample_bits) sample_world)))
     = Some ''main''"
  by (simp add: new_events_sample_run sample_trace_def Let_def)

lemma sample_run_returns:
  "main (sample_env sample_bits) sample_world
     = (Inr (), snd (main (sample_env sample_bits) sample_world))"
  by (simp add: sample_run)

lemma sample_run_fst: "fst (main (sample_env sample_bits) sample_world) = Inr ()"
  by (simp add: sample_run)

lemma line_150_sample:
  "Print 150 [] \<in> set (new_events sample_world (snd (main (sample_env sample_bits) sample_world)))"
  by (simp add: new_events_sample_run sample_trace_def Let_def summary_def)

lemma git_refusing [simp]: "git refusing_env = refusing_git"
  by (simp add: refusing_env_def)

lemma names_refusing:
  "almond_branch refusing_env = ''almondcoder/test-conflict-12345678''"
  "worktree_path refusing_env =
     [''Users'', ''user'', ''.almondcoder'', ''website'', ''test-conflict-12345678'']"
  "project_worktree_dir refusing_env = [''Users'', ''user'', ''.almondcoder'', ''website'']"
  by (simp_all add: almond_branch_def worktree_path_def project_worktree_dir_def almondcoder_dir_def
       project_name_def path_name_def REPO_PATH_def worktree_name_def short_uuid_eq
       refusing_env_def sample_bits_def uuid4_def hex_digit_def upt_conv_Cons)

lemma refused_run:
  "main refusing_env sample_world =
     (Inl (CalledProcessError
             [''git'', ''worktree'', ''add'', ''-b'', ''almondcoder/test-conflict-12345678'',
              ''/Users/user/.almondcoder/website/test-conflict-12345678'', ''main'']
             128 [] ''fatal: could not create leading directories''),
      \<lparr>files = sample_files_2, trace = refused_trace\<rparr>)"
  by (simp add: main_def build_scenario_def create_initial_file_def create_worktree_def
  modify_in_worktree_def modify_in_main_def ensure_primary_def summary_def
  seq_def and_then_def try_except_def return_def py_print_def exists_path_def
  write_text_def mkdir_def rmtree_def run_git_command_def subprocess_run_def cwd_or_repo_def
  fs_write_text_def os_mkdir_def fs_rmtree_def path_exists_def is_dir_def lookup_def
  refusing_git_def sample_git_def sample_world_def sample_files_def names_refusing
  REPO_PATH_def TEST_FILE_def is_worktree_add_def path_str_def py_strip_def is_space_def newline_def
  path_mkdir.simps refused_trace_def sample_files_1_def sample_files_2_def)







section \<open>The claims\<close>

text \<open>
  C4. When the target directory does not exist, or exists without an entry \<^verbatim>\<open>.git\<close>,
  \<open>main\<close> prints its two lines of error after the banner and returns normally: no
  exception, no git command, the filesystem untouched, and the process ends with status 0.
\<close>

theorem precondition_failure_returns:
  assumes "\<not> path_exists (files w0) REPO_PATH \<or> \<not> path_exists (files w0) (REPO_PATH @ [''.git''])"
  shows "main e w0 =
           (Inr (),
            w0\<lparr>trace := trace w0 @
               (if \<not> path_exists (files w0) REPO_PATH
                then [Print 42 [], Print 43 [], Print 47 [path_str REPO_PATH], Print 48 []]
                else [Print 42 [], Print 43 [], Print 52 [path_str REPO_PATH],
                      Print 53 [path_str REPO_PATH]])\<rparr>)
         \<and> git_calls (new_events w0 (snd (main e w0))) = []
         \<and> files (snd (main e w0)) = files w0
         \<and> exit_status e w0 = 0"
proof -
  obtain r w' where run: "main e w0 = (r, w')" by (cases "main e w0")
  from run show ?thesis
  proof (cases rule: main_cases)
    case no_repo
    with run show ?thesis by (simp add: exit_status_def)
  next
    case no_git
    with run show ?thesis by (simp add: exit_status_def)
  next
    case (query_failed x)
    with assms show ?thesis by simp
  next
    case (resolved out err f1 resolved w2)
    with assms show ?thesis by simp
  qed
qed

theorem precondition_failure_returns_witness:
  "\<not> path_exists (files empty_world) REPO_PATH
   \<and> main (sample_env sample_bits) empty_world =
       (Inr (), \<lparr>files = Map.empty,
                 trace = [Print 42 [], Print 43 [], Print 47 [''/Users/user/projects/website''],
                          Print 48 []]\<rparr>)
   \<and> exit_status (sample_env sample_bits) empty_world = 0"
proof -
  have h: "\<not> path_exists (files empty_world) REPO_PATH"
    by (simp add: empty_world_def path_exists_def lookup_def REPO_PATH_def)
  from precondition_failure_returns[of empty_world "sample_env sample_bits"] h
  show ?thesis by (simp add: empty_world_def path_str_def REPO_PATH_def)
qed

text \<open>
  C5. A git command that exits with another code than 0 makes \<open>run_git_command\<close> print
  the command (its words, separated by single spaces) and its standard error, and raise the
  command's \<open>CalledProcessError\<close>. In \<open>main\<close>, outside the checkouts of the branch
  resolution, that ends the run: the exception leaves \<open>main\<close>, nothing follows the two
  printed lines (no retry, no further step), the filesystem is the one the failing command
  left, and everything done before the command is still in the trace (nothing is rolled
  back).
\<close>

theorem failing_command_aborts:
  "(git e cmd (cwd_or_repo cwd) w = (Completed rc out err, left) \<and> rc \<noteq> 0 \<longrightarrow>
      run_git_command e cmd cwd w =
        (Inl (CalledProcessError cmd rc out err),
         \<lparr>files = left,
          trace = trace w @
            [Subprocess cmd (cwd_or_repo cwd) (files w) (Completed rc out err) left,
             Print 36 [case cmd of [] \<Rightarrow> [] | x # xs \<Rightarrow> x @ concat (map (\<lambda>y. '' '' @ y) xs)],
             Print 37 [err]]\<rparr>))
   \<and> (main e w0 = (r, w') \<and>
      new_events w0 w' = pre @ Subprocess cmd' cwd' seen (Completed rc' out' err') left' # post \<and>
      rc' \<noteq> 0 \<and> \<not> is_checkout cmd' \<longrightarrow>
        r = Inl (CalledProcessError cmd' rc' out' err') \<and>
        post = [Print 36 [case cmd' of [] \<Rightarrow> []
                          | x # xs \<Rightarrow> x @ concat (map (\<lambda>y. '' '' @ y) xs)],
                Print 37 [err']] \<and>
        files w' = left' \<and>
        trace w' = trace w0 @ pre @
          [Subprocess cmd' cwd' seen (Completed rc' out' err') left',
           Print 36 [case cmd' of [] \<Rightarrow> []
                     | x # xs \<Rightarrow> x @ concat (map (\<lambda>y. '' '' @ y) xs)],
           Print 37 [err']])"
proof (rule conjI; rule impI)
  assume "git e cmd (cwd_or_repo cwd) w = (Completed rc out err, left) \<and> rc \<noteq> 0"
  then show "run_git_command e cmd cwd w =
        (Inl (CalledProcessError cmd rc out err),
         \<lparr>files = left,
          trace = trace w @
            [Subprocess cmd (cwd_or_repo cwd) (files w) (Completed rc out err) left,
             Print 36 [case cmd of [] \<Rightarrow> [] | x # xs \<Rightarrow> x @ concat (map (\<lambda>y. '' '' @ y) xs)],
             Print 37 [err]]\<rparr>)"
    by (simp add: run_git_command_failed py_join_eq)
next
  assume a: "main e w0 = (r, w') \<and>
      new_events w0 w' = pre @ Subprocess cmd' cwd' seen (Completed rc' out' err') left' # post \<and>
      rc' \<noteq> 0 \<and> \<not> is_checkout cmd'"
  let ?x = "Subprocess cmd' cwd' seen (Completed rc' out' err') left'"
  let ?t = "case cmd' of [] \<Rightarrow> [] | x # xs \<Rightarrow> x @ concat (map (\<lambda>y. '' '' @ y) xs)"
  from a have fc: "failed_call ?x" by simp
  from a have inv: "abort_inv (failure r) (pre @ ?x # post) (files w')"
    using main_abort_inv[of e w0 r w'] by simp
  from a have ext: "trace w' = trace w0 @ pre @ ?x # post"
    using main_extends[of e w0 r w'] by simp
  from fc have "\<not> (\<forall>ev \<in> set (pre @ ?x # post). \<not> failed_call ev)" by auto
  with inv obtain pre2 cmd2 cwd2 seen2 rc2 out2 err2 where
    eq: "pre @ ?x # post = pre2 @ [Subprocess cmd2 cwd2 seen2 (Completed rc2 out2 err2) (files w'),
                     Print 36 [py_join '' '' cmd2], Print 37 [err2]]"
    and clean: "\<forall>ev \<in> set pre2. \<not> failed_call ev"
    and x: "failure r = Some (CalledProcessError cmd2 rc2 out2 err2)"
    unfolding abort_inv_def by blast
  from failed_call_unique[OF eq fc clean]
  have u: "pre = pre2" "?x = Subprocess cmd2 cwd2 seen2 (Completed rc2 out2 err2) (files w')"
    "post = [Print 36 [py_join '' '' cmd2], Print 37 [err2]]" by simp_all
  from u have p: "post = [Print 36 [?t], Print 37 [err']]" by (simp add: py_join_eq)
  from u x have r: "r = Inl (CalledProcessError cmd' rc' out' err')" by (simp add: failure_Some)
  from u have f: "files w' = left'" by simp
  from ext p have t: "trace w' = trace w0 @ pre @ [?x, Print 36 [?t], Print 37 [err']]" by simp
  from r p f t show "r = Inl (CalledProcessError cmd' rc' out' err') \<and>
        post = [Print 36 [?t], Print 37 [err']] \<and>
        files w' = left' \<and>
        trace w' = trace w0 @ pre @ [?x, Print 36 [?t], Print 37 [err']]"
    by (intro conjI)
qed

theorem failing_command_aborts_witness:
  "git refusing_env
       [''git'', ''worktree'', ''add'', ''-b'', ''almondcoder/test-conflict-12345678'',
        ''/Users/user/.almondcoder/website/test-conflict-12345678'', ''main'']
       (cwd_or_repo None) \<lparr>files = sample_files_2, trace = []\<rparr>
     = (Completed 128 [] ''fatal: could not create leading directories'', sample_files_2)
   \<and> (128 :: int) \<noteq> 0
   \<and> \<not> is_checkout
         [''git'', ''worktree'', ''add'', ''-b'', ''almondcoder/test-conflict-12345678'',
          ''/Users/user/.almondcoder/website/test-conflict-12345678'', ''main'']
   \<and> run_git_command refusing_env
       [''git'', ''worktree'', ''add'', ''-b'', ''almondcoder/test-conflict-12345678'',
        ''/Users/user/.almondcoder/website/test-conflict-12345678'', ''main'']
       None \<lparr>files = sample_files_2, trace = []\<rparr>
     = (Inl (CalledProcessError
               [''git'', ''worktree'', ''add'', ''-b'', ''almondcoder/test-conflict-12345678'',
                ''/Users/user/.almondcoder/website/test-conflict-12345678'', ''main'']
               128 [] ''fatal: could not create leading directories''),
        \<lparr>files = sample_files_2,
         trace =
           [Subprocess
              [''git'', ''worktree'', ''add'', ''-b'', ''almondcoder/test-conflict-12345678'',
               ''/Users/user/.almondcoder/website/test-conflict-12345678'', ''main'']
              REPO_PATH sample_files_2
              (Completed 128 [] ''fatal: could not create leading directories'') sample_files_2,
            Print 36 [''git worktree add -b almondcoder/test-conflict-12345678 /Users/user/.almondcoder/website/test-conflict-12345678 main''],
            Print 37 [''fatal: could not create leading directories'']]\<rparr>)
   \<and> fst (main refusing_env sample_world)
       = Inl (CalledProcessError
               [''git'', ''worktree'', ''add'', ''-b'', ''almondcoder/test-conflict-12345678'',
                ''/Users/user/.almondcoder/website/test-conflict-12345678'', ''main'']
               128 [] ''fatal: could not create leading directories'')
   \<and> new_events sample_world (snd (main refusing_env sample_world)) = refused_trace
   \<and> drop 15 refused_trace =
       [Subprocess
          [''git'', ''worktree'', ''add'', ''-b'', ''almondcoder/test-conflict-12345678'',
           ''/Users/user/.almondcoder/website/test-conflict-12345678'', ''main'']
          REPO_PATH sample_files_2
          (Completed 128 [] ''fatal: could not create leading directories'') sample_files_2,
        Print 36 [''git worktree add -b almondcoder/test-conflict-12345678 /Users/user/.almondcoder/website/test-conflict-12345678 main''],
        Print 37 [''fatal: could not create leading directories'']]
   \<and> commits (new_events sample_world (snd (main refusing_env sample_world)))
       = [(REPO_PATH, ''Add initial abc.txt file'')]
   \<and> files (snd (main refusing_env sample_world)) = sample_files_2
   \<and> lookup sample_files (REPO_PATH @ [TEST_FILE]) = None
   \<and> lookup sample_files [''Users'', ''user'', ''.almondcoder'', ''website''] = None
   \<and> lookup sample_files_2 (REPO_PATH @ [TEST_FILE]) = Some (File initial_content)
   \<and> lookup sample_files_2 [''Users'', ''user'', ''.almondcoder''] = Some Dir
   \<and> lookup sample_files_2 [''Users'', ''user'', ''.almondcoder'', ''website''] = Some Dir"
proof -
  let ?cmd = "[''git'', ''worktree'', ''add'', ''-b'', ''almondcoder/test-conflict-12345678'',
        ''/Users/user/.almondcoder/website/test-conflict-12345678'', ''main'']"
  let ?err = "''fatal: could not create leading directories''"
  let ?w = "\<lparr>files = sample_files_2, trace = []\<rparr>"
  have g: "git refusing_env ?cmd (cwd_or_repo None) ?w = (Completed 128 [] ?err, sample_files_2)"
    by (simp add: refusing_git_def is_worktree_add_def)
  have n: "\<not> is_checkout ?cmd" by (simp add: is_checkout_def)
  have ne: "new_events sample_world (snd (main refusing_env sample_world)) = refused_trace"
    by (simp add: refused_run new_events_def trace_sample_world)
  have ev: "new_events sample_world (snd (main refusing_env sample_world)) =
      take 15 refused_trace @
      Subprocess ?cmd REPO_PATH sample_files_2 (Completed 128 [] ?err) sample_files_2 #
      drop 16 refused_trace"
    unfolding ne by (simp add: refused_trace_def)
  have m: "main refusing_env sample_world
      = (fst (main refusing_env sample_world), snd (main refusing_env sample_world))"
    by simp
  have nz: "(128 :: int) \<noteq> 0" by simp
  have fl:
    "lookup sample_files (REPO_PATH @ [TEST_FILE]) = None"
    "lookup sample_files [''Users'', ''user'', ''.almondcoder'', ''website''] = None"
    "lookup sample_files_2 (REPO_PATH @ [TEST_FILE]) = Some (File initial_content)"
    "lookup sample_files_2 [''Users'', ''user'', ''.almondcoder''] = Some Dir"
    "lookup sample_files_2 [''Users'', ''user'', ''.almondcoder'', ''website''] = Some Dir"
    by (simp_all add: lookup_def sample_files_def sample_files_1_def sample_files_2_def
          REPO_PATH_def TEST_FILE_def)
  have cm: "commits refused_trace = [(REPO_PATH, ''Add initial abc.txt file'')]"
    by (simp add: refused_trace_def commits_def)
  have d: "drop 15 refused_trace =
       [Subprocess ?cmd REPO_PATH sample_files_2 (Completed 128 [] ?err) sample_files_2,
        Print 36 [''git worktree add -b almondcoder/test-conflict-12345678 /Users/user/.almondcoder/website/test-conflict-12345678 main''],
        Print 37 [?err]]"
    by (simp add: refused_trace_def)
  from failing_command_aborts[of refusing_env ?cmd None ?w 128 "[]" ?err sample_files_2
      sample_world "fst (main refusing_env sample_world)" "snd (main refusing_env sample_world)"
      "take 15 refused_trace" ?cmd REPO_PATH sample_files_2 128 "[]" ?err sample_files_2
      "drop 16 refused_trace"]
    g n ev m nz
  have "run_git_command refusing_env ?cmd None ?w
     = (Inl (CalledProcessError ?cmd 128 [] ?err),
        \<lparr>files = sample_files_2,
         trace =
           [Subprocess ?cmd REPO_PATH sample_files_2 (Completed 128 [] ?err) sample_files_2,
            Print 36 [''git worktree add -b almondcoder/test-conflict-12345678 /Users/user/.almondcoder/website/test-conflict-12345678 main''],
            Print 37 [?err]]\<rparr>)"
    "fst (main refusing_env sample_world) = Inl (CalledProcessError ?cmd 128 [] ?err)"
    "files (snd (main refusing_env sample_world)) = sample_files_2"
    by (simp_all add: cwd_or_repo_def)
  with g n nz ne d cm fl show ?thesis by (simp only: simp_thms)
qed

text \<open>
  C6. Whenever a run invokes \<^verbatim>\<open>git worktree add\<close>, nothing is at the worktree path or
  below it. And when step 4 starts with a directory at the worktree path, the directory is
  removed (line 114) and \<^verbatim>\<open>git worktree add\<close> is invoked next, on the filesystem without it:
  a stale directory never stops the run before the worktree is created.
\<close>

theorem stale_worktree_directory_removed:
  "(main e w0 = (r, w') \<and> Subprocess cmd cwd seen res left \<in> set (new_events w0 w') \<and>
      is_worktree_add cmd \<longrightarrow>
        (\<forall>q. prefix (worktree_path e) q \<longrightarrow> lookup seen q = None))
   \<and> (lookup (files w) (worktree_path e) = Some Dir \<longrightarrow>
        (\<exists>r1 w1 res1 left1 rest.
           create_worktree e b w = (r1, w1) \<and>
           trace w1 = trace w @
             [Print 108 [almond_branch e], Print 109 [path_str (worktree_path e)],
              Print 113 [path_str (worktree_path e)], Rmtree (worktree_path e),
              Subprocess [''git'', ''worktree'', ''add'', ''-b'', almond_branch e,
                          path_str (worktree_path e), b] REPO_PATH
                (\<lambda>q. if prefix (worktree_path e) q then None else files w q) res1 left1] @ rest))"
proof (rule conjI; rule impI)
  assume a: "main e w0 = (r, w') \<and> Subprocess cmd cwd seen res left \<in> set (new_events w0 w') \<and>
      is_worktree_add cmd"
  then have "worktree_add_ok e cmd cwd seen" using main_worktree_add by blast
  with a have "lookup seen (worktree_path e) = None" by (simp add: worktree_add_ok_def)
  then show "\<forall>q. prefix (worktree_path e) q \<longrightarrow> lookup seen q = None"
    using lookup_below_None by blast
next
  assume d: "lookup (files w) (worktree_path e) = Some Dir"
  let ?wt = "worktree_path e"
  from d have "lookup (files w) (project_worktree_dir e) = Some Dir"
    using prefix_project_worktree by (rule lookup_prefix_Dir)
  then have mk: "path_mkdir (project_worktree_dir e) (files w) = Inr (files w, [])"
    by (rule path_mkdir_existing)
  from d have rm: "fs_rmtree ?wt (files w) = Inr (\<lambda>q. if prefix ?wt q then None else files w q)"
    by (simp add: fs_rmtree_def)
  from d have ex: "path_exists (files w) ?wt" by (simp add: path_exists_def)
  obtain r1 w1 where run: "create_worktree e b w = (r1, w1)" by (cases "create_worktree e b w")
  from run show "\<exists>r1 w1 res1 left1 rest.
           create_worktree e b w = (r1, w1) \<and>
           trace w1 = trace w @
             [Print 108 [almond_branch e], Print 109 [path_str ?wt],
              Print 113 [path_str ?wt], Rmtree ?wt,
              Subprocess [''git'', ''worktree'', ''add'', ''-b'', almond_branch e,
                          path_str ?wt, b] REPO_PATH
                (\<lambda>q. if prefix ?wt q then None else files w q) res1 left1] @ rest"
  proof (cases rule: create_worktree_cases)
    case (no_parent x)
    with mk show ?thesis by simp
  next
    case (not_removed x f1 made)
    with mk rm show ?thesis by simp
  next
    case (added f1 made cleared seen res left rest)
    from added(1) mk have f1: "f1 = files w" "made = []" by simp_all
    with added(2) ex rm have c: "cleared = [Print 113 [path_str ?wt], Rmtree ?wt]"
      "seen = (\<lambda>q. if prefix ?wt q then None else files w q)" by simp_all
    from added(3) f1 c have "trace w1 = trace w @
             [Print 108 [almond_branch e], Print 109 [path_str ?wt],
              Print 113 [path_str ?wt], Rmtree ?wt,
              Subprocess [''git'', ''worktree'', ''add'', ''-b'', almond_branch e,
                          path_str ?wt, b] REPO_PATH
                (\<lambda>q. if prefix ?wt q then None else files w q) res left] @ rest"
      by simp
    with run show ?thesis by blast
  qed
qed

theorem stale_worktree_directory_removed_witness:
  "Subprocess [''git'', ''worktree'', ''add'', ''-b'', ''almondcoder/test-conflict-12345678'',
               ''/Users/user/.almondcoder/website/test-conflict-12345678'', ''main'']
     REPO_PATH sample_files_2 (Completed 0 [] []) sample_files_3
     \<in> set (new_events sample_world (snd (main (sample_env sample_bits) sample_world)))
   \<and> is_worktree_add [''git'', ''worktree'', ''add'', ''-b'', ''almondcoder/test-conflict-12345678'',
               ''/Users/user/.almondcoder/website/test-conflict-12345678'', ''main'']
   \<and> lookup sample_files_2 (worktree_path (sample_env sample_bits)) = None
   \<and> lookup sample_files_2 (worktree_path (sample_env sample_bits) @ [TEST_FILE]) = None
   \<and> lookup (files stale_world) (worktree_path (sample_env sample_bits)) = Some Dir
   \<and> (\<exists>r1 w1 res1 left1 rest.
         create_worktree (sample_env sample_bits) ''main'' stale_world = (r1, w1) \<and>
         trace w1 = trace stale_world @
           [Print 108 [almond_branch (sample_env sample_bits)],
            Print 109 [path_str (worktree_path (sample_env sample_bits))],
            Print 113 [path_str (worktree_path (sample_env sample_bits))],
            Rmtree (worktree_path (sample_env sample_bits)),
            Subprocess [''git'', ''worktree'', ''add'', ''-b'', almond_branch (sample_env sample_bits),
                        path_str (worktree_path (sample_env sample_bits)), ''main''] REPO_PATH
              (\<lambda>q. if prefix (worktree_path (sample_env sample_bits)) q then None
                    else files stale_world q) res1 left1] @ rest)"
proof -
  have run: "main (sample_env sample_bits) sample_world =
      (fst (main (sample_env sample_bits) sample_world), snd (main (sample_env sample_bits) sample_world))"
    by simp
  have ev: "Subprocess [''git'', ''worktree'', ''add'', ''-b'', ''almondcoder/test-conflict-12345678'',
               ''/Users/user/.almondcoder/website/test-conflict-12345678'', ''main'']
     REPO_PATH sample_files_2 (Completed 0 [] []) sample_files_3
     \<in> set (new_events sample_world (snd (main (sample_env sample_bits) sample_world)))"
    by (simp only: new_events_sample_run worktree_add_in_sample_trace)
  have wa: "is_worktree_add [''git'', ''worktree'', ''add'', ''-b'', ''almondcoder/test-conflict-12345678'',
               ''/Users/user/.almondcoder/website/test-conflict-12345678'', ''main'']"
    by (simp add: is_worktree_add_def)
  have st: "lookup (files stale_world) (worktree_path (sample_env sample_bits)) = Some Dir"
    by (simp add: stale_world_def lookup_stale)
  from stale_worktree_directory_removed[where e = "sample_env sample_bits" and ?w0.0 = sample_world
      and r = "fst (main (sample_env sample_bits) sample_world)"
      and w' = "snd (main (sample_env sample_bits) sample_world)"
      and cmd = "[''git'', ''worktree'', ''add'', ''-b'', ''almondcoder/test-conflict-12345678'',
               ''/Users/user/.almondcoder/website/test-conflict-12345678'', ''main'']"
      and cwd = REPO_PATH and seen = sample_files_2 and res = "Completed 0 [] []"
      and left = sample_files_3 and w = stale_world and b = "''main''"]
    run ev wa st
  have gone: "\<forall>q. prefix (worktree_path (sample_env sample_bits)) q \<longrightarrow> lookup sample_files_2 q = None"
    and again: "\<exists>r1 w1 res1 left1 rest.
         create_worktree (sample_env sample_bits) ''main'' stale_world = (r1, w1) \<and>
         trace w1 = trace stale_world @
           [Print 108 [almond_branch (sample_env sample_bits)],
            Print 109 [path_str (worktree_path (sample_env sample_bits))],
            Print 113 [path_str (worktree_path (sample_env sample_bits))],
            Rmtree (worktree_path (sample_env sample_bits)),
            Subprocess [''git'', ''worktree'', ''add'', ''-b'', almond_branch (sample_env sample_bits),
                        path_str (worktree_path (sample_env sample_bits)), ''main''] REPO_PATH
              (\<lambda>q. if prefix (worktree_path (sample_env sample_bits)) q then None
                    else files stale_world q) res1 left1] @ rest"
    by blast+
  from gone have "lookup sample_files_2 (worktree_path (sample_env sample_bits)) = None"
    "lookup sample_files_2 (worktree_path (sample_env sample_bits) @ [TEST_FILE]) = None"
    by simp_all
  with again ev wa st show ?thesis by blast
qed

text \<open>
  C8. Whenever a run invokes \<^verbatim>\<open>git worktree add\<close>, it does so in the repository with the
  path \<^verbatim>\<open><home>/.almondcoder/website/test-conflict-<token>\<close>, where \<^verbatim>\<open>website\<close> is the final
  component of the repository path and the token has 8 characters, and at that moment
  \<^verbatim>\<open><home>/.almondcoder/website\<close> and all its ancestors are directories.
\<close>

theorem worktree_path_and_parent:
  assumes "main e w0 = (r, w')"
    and "Subprocess cmd cwd seen res left \<in> set (new_events w0 w')"
    and "is_worktree_add cmd"
  shows "(\<exists>b. cmd = [''git'', ''worktree'', ''add'', ''-b'', ''almondcoder/test-conflict-'' @ short_uuid e,
                      path_str (home e @ [''.almondcoder'', path_name REPO_PATH,
                                          ''test-conflict-'' @ short_uuid e]), b])
         \<and> path_name REPO_PATH = ''website''
         \<and> length (short_uuid e) = 8
         \<and> cwd = REPO_PATH
         \<and> (\<forall>q. prefix q (home e @ [''.almondcoder'', path_name REPO_PATH]) \<longrightarrow>
                lookup seen q = Some Dir)"
proof -
  from assms(1,2) have "worktree_add_ok e cmd cwd seen" by (rule main_worktree_add)
  with assms(3) show ?thesis
    by (simp add: worktree_add_ok_def almond_branch_def worktree_path_def project_worktree_dir_def
          almondcoder_dir_def project_name_def worktree_name_def)
       (simp add: path_name_def REPO_PATH_def)
qed

theorem worktree_path_and_parent_witness:
  "Subprocess [''git'', ''worktree'', ''add'', ''-b'', ''almondcoder/test-conflict-12345678'',
               ''/Users/user/.almondcoder/website/test-conflict-12345678'', ''main'']
     REPO_PATH sample_files_2 (Completed 0 [] []) sample_files_3
     \<in> set (new_events sample_world (snd (main (sample_env sample_bits) sample_world)))
   \<and> is_worktree_add [''git'', ''worktree'', ''add'', ''-b'', ''almondcoder/test-conflict-12345678'',
               ''/Users/user/.almondcoder/website/test-conflict-12345678'', ''main'']
   \<and> path_str (home (sample_env sample_bits) @
         [''.almondcoder'', path_name REPO_PATH, ''test-conflict-'' @ short_uuid (sample_env sample_bits)])
       = ''/Users/user/.almondcoder/website/test-conflict-12345678''
   \<and> lookup sample_files_2 [''Users'', ''user'', ''.almondcoder'', ''website''] = Some Dir
   \<and> lookup sample_files_2 [''Users'', ''user'', ''.almondcoder''] = Some Dir"
proof -
  have run: "main (sample_env sample_bits) sample_world =
      (fst (main (sample_env sample_bits) sample_world), snd (main (sample_env sample_bits) sample_world))"
    by simp
  have ev: "Subprocess [''git'', ''worktree'', ''add'', ''-b'', ''almondcoder/test-conflict-12345678'',
               ''/Users/user/.almondcoder/website/test-conflict-12345678'', ''main'']
     REPO_PATH sample_files_2 (Completed 0 [] []) sample_files_3
     \<in> set (new_events sample_world (snd (main (sample_env sample_bits) sample_world)))"
    by (simp only: new_events_sample_run worktree_add_in_sample_trace)
  have wa: "is_worktree_add [''git'', ''worktree'', ''add'', ''-b'', ''almondcoder/test-conflict-12345678'',
               ''/Users/user/.almondcoder/website/test-conflict-12345678'', ''main'']"
    by (simp add: is_worktree_add_def)
  have nm: "path_name REPO_PATH = ''website''" "home (sample_env sample_bits) = [''Users'', ''user'']"
    by (simp_all add: path_name_def REPO_PATH_def sample_env_def)
  from worktree_path_and_parent[OF run ev wa]
  have "\<forall>q. prefix q [''Users'', ''user'', ''.almondcoder'', ''website''] \<longrightarrow>
          lookup sample_files_2 q = Some Dir"
    by (simp add: nm)
  then have "lookup sample_files_2 [''Users'', ''user'', ''.almondcoder'', ''website''] = Some Dir"
    "lookup sample_files_2 [''Users'', ''user'', ''.almondcoder''] = Some Dir"
    by simp_all
  with ev wa show ?thesis by (simp add: nm short_uuid_sample path_str_def)
qed

text \<open>
  C3. When the branch the run reports is neither main nor master, the next command is
  \<^verbatim>\<open>git checkout main\<close>; when that fails, the next is \<^verbatim>\<open>git checkout master\<close>; when that
  fails too, no further command is run, line 73 is the last thing printed, \<open>main\<close> returns
  normally, and the run has written, made and removed nothing: the fixture file is neither
  written nor committed.
\<close>

theorem fallback_chain_then_abort:
  assumes run: "main e w0 = (r, w')"
    and rep: "reported_branch (new_events w0 w') = Some cb"
    and np: "cb \<notin> set [''main'', ''master'']"
  shows "\<exists>ok1 more.
           git_calls (new_events w0 w') =
             ([''git'', ''branch'', ''--show-current''], REPO_PATH, True) #
             ([''git'', ''checkout'', ''main''], REPO_PATH, ok1) # more \<and>
           (\<not> ok1 \<longrightarrow>
              (\<exists>ok2 more2.
                 more = ([''git'', ''checkout'', ''master''], REPO_PATH, ok2) # more2 \<and>
                 (\<not> ok2 \<longrightarrow>
                    more2 = [] \<and> r = Inr () \<and>
                    last (new_events w0 w') = Print 73 [] \<and>
                    (\<forall>ev \<in> set (new_events w0 w'). is_print ev \<or> is_subprocess ev))))"
proof -
  from run rep obtain out err f1 resolved w2 evs2 evs3 where
    cb: "cb = py_strip out"
    and ep: "ensure_primary e cb
         \<lparr>files = f1,
          trace = trace w0 @
            [Print 42 [], Print 43 [], Print 56 [path_str REPO_PATH],
             Subprocess [''git'', ''branch'', ''--show-current''] REPO_PATH (files w0)
               (Completed 0 out err) f1,
             Print 60 [cb]]\<rparr> = (Inr resolved, w2)"
    and fin: "case resolved of None \<Rightarrow> r = Inr () \<and> w' = w2
       | Some main_branch \<Rightarrow> build_scenario e main_branch w2 = (r, w')"
    and t2: "trace w2 = trace w0 @
            [Print 42 [], Print 43 [], Print 56 [path_str REPO_PATH],
             Subprocess [''git'', ''branch'', ''--show-current''] REPO_PATH (files w0)
               (Completed 0 out err) f1,
             Print 60 [cb]] @ evs2"
    and t3: "trace w' = trace w2 @ evs3"
    and ne: "new_events w0 w' = [Print 42 [], Print 43 [], Print 56 [path_str REPO_PATH],
             Subprocess [''git'', ''branch'', ''--show-current''] REPO_PATH (files w0)
               (Completed 0 out err) f1,
             Print 60 [cb]] @ evs2 @ evs3"
    by (rule reported_branch_main)
  let ?w1 = "\<lparr>files = f1,
          trace = trace w0 @
            [Print 42 [], Print 43 [], Print 56 [path_str REPO_PATH],
             Subprocess [''git'', ''branch'', ''--show-current''] REPO_PATH (files w0)
               (Completed 0 out err) f1,
             Print 60 [cb]]\<rparr>"
  have gc: "git_calls (new_events w0 w') =
      ([''git'', ''branch'', ''--show-current''], REPO_PATH, True) # git_calls evs2 @ git_calls evs3"
    by (simp add: ne)
  from ep show ?thesis
  proof (cases rule: ensure_primary_cases)
    case primary
    with np show ?thesis by simp
  next
    case (to_main s)
    from to_main(2) obtain res left where
      "trace w2 = trace (?w1\<lparr>trace := trace ?w1 @ [Print 64 []]\<rparr>) @
         [Subprocess [''git'', ''checkout'', ''main''] (cwd_or_repo None)
            (files (?w1\<lparr>trace := trace ?w1 @ [Print 64 []]\<rparr>)) res left]"
      and ok: "call_ok res"
      by (rule run_git_command_Inr_trace)
    with t2 have "evs2 = [Print 64 [], Subprocess [''git'', ''checkout'', ''main''] REPO_PATH f1 res left]"
      by (simp add: cwd_or_repo_def)
    with gc ok show ?thesis by auto
  next
    case (to_master x w2a s)
    from to_master(2) obtain res left rest where
      ta: "trace w2a = trace (?w1\<lparr>trace := trace ?w1 @ [Print 64 []]\<rparr>) @
         Subprocess [''git'', ''checkout'', ''main''] (cwd_or_repo None)
            (files (?w1\<lparr>trace := trace ?w1 @ [Print 64 []]\<rparr>)) res left # rest"
      and nok: "\<not> call_ok res"
      and pr: "\<forall>ev \<in> set rest. \<exists>a. ev = Print 36 a \<or> ev = Print 37 a"
      by (rule run_git_command_Inl)
    from to_master(3) obtain res2 left2 where
      tb: "trace w2 = trace w2a @
         [Subprocess [''git'', ''checkout'', ''master''] (cwd_or_repo None) (files w2a) res2 left2]"
      and ok2: "call_ok res2"
      by (rule run_git_command_Inr_trace)
    from ta tb t2 have "evs2 = Print 64 [] # Subprocess [''git'', ''checkout'', ''main''] REPO_PATH f1 res left
        # rest @ [Subprocess [''git'', ''checkout'', ''master''] REPO_PATH (files w2a) res2 left2]"
      by (simp add: cwd_or_repo_def)
    with gc nok ok2 git_calls_failure_prints[OF pr] show ?thesis by auto
  next
    case (neither x w2a y w3)
    from neither(2) obtain res left rest where
      ta: "trace w2a = trace (?w1\<lparr>trace := trace ?w1 @ [Print 64 []]\<rparr>) @
         Subprocess [''git'', ''checkout'', ''main''] (cwd_or_repo None)
            (files (?w1\<lparr>trace := trace ?w1 @ [Print 64 []]\<rparr>)) res left # rest"
      and nok: "\<not> call_ok res"
      and pr: "\<forall>ev \<in> set rest. \<exists>a. ev = Print 36 a \<or> ev = Print 37 a"
      by (rule run_git_command_Inl)
    from neither(3) obtain res2 left2 rest2 where
      tb: "trace w3 = trace w2a @
         Subprocess [''git'', ''checkout'', ''master''] (cwd_or_repo None) (files w2a) res2 left2 # rest2"
      and nok2: "\<not> call_ok res2"
      and pr2: "\<forall>ev \<in> set rest2. \<exists>a. ev = Print 36 a \<or> ev = Print 37 a"
      by (rule run_git_command_Inl)
    from neither(4) fin have r: "r = Inr ()" and w': "w' = w2" by simp_all
    with t3 have e3: "evs3 = []" by simp
    from ta tb t2 neither(5)
    have e2: "evs2 = Print 64 [] # Subprocess [''git'', ''checkout'', ''main''] REPO_PATH f1 res left
        # rest @ Subprocess [''git'', ''checkout'', ''master''] REPO_PATH (files w2a) res2 left2
        # rest2 @ [Print 73 []]"
      by (simp add: cwd_or_repo_def)
    have p1: "\<forall>ev \<in> set rest. is_print ev" using pr by auto
    have p2: "\<forall>ev \<in> set rest2. is_print ev" using pr2 by auto
    have "last (new_events w0 w') = Print 73 []" by (simp add: ne e2 e3)
    moreover have "\<forall>ev \<in> set (new_events w0 w'). is_print ev \<or> is_subprocess ev"
      using p1 p2 by (auto simp: ne e2 e3)
    ultimately show ?thesis
      using gc nok nok2 r git_calls_failure_prints[OF pr] git_calls_failure_prints[OF pr2]
      by (auto simp add: e2 e3)
  qed
qed

theorem fallback_chain_then_abort_witness:
  "reported_branch (new_events sample_world (snd (main develop_env sample_world))) = Some ''develop''
   \<and> ''develop'' \<notin> set [''main'', ''master'']
   \<and> git_calls (new_events sample_world (snd (main develop_env sample_world))) =
       [([''git'', ''branch'', ''--show-current''], REPO_PATH, True),
        ([''git'', ''checkout'', ''main''], REPO_PATH, False),
        ([''git'', ''checkout'', ''master''], REPO_PATH, False)]
   \<and> fst (main develop_env sample_world) = Inr ()
   \<and> last (new_events sample_world (snd (main develop_env sample_world))) = Print 73 []"
proof -
  have run: "main develop_env sample_world =
      (fst (main develop_env sample_world), snd (main develop_env sample_world))"
    by simp
  have rep: "reported_branch (new_events sample_world (snd (main develop_env sample_world))) = Some ''develop''"
    by (simp add: develop_run new_events_def trace_sample_world)
  have np: "''develop'' \<notin> set [''main'', ''master'']" by simp
  have gc: "git_calls (new_events sample_world (snd (main develop_env sample_world))) =
       [([''git'', ''branch'', ''--show-current''], REPO_PATH, True),
        ([''git'', ''checkout'', ''main''], REPO_PATH, False),
        ([''git'', ''checkout'', ''master''], REPO_PATH, False)]"
    by (simp add: develop_run new_events_def trace_sample_world)
  from fallback_chain_then_abort[OF run rep np] rep np gc
  show ?thesis by auto
qed

text \<open>
  C9. What \<open>run_git_command\<close> returns is the standard output of the command without the
  white space at its two ends. The branch that \<open>main\<close> reports at line 60 and compares with
  main and master is the stripped output of \<^verbatim>\<open>git branch --show-current\<close>: it never ends
  with a newline, and on main or master the run goes straight on to line 77.
\<close>

theorem git_output_is_stripped:
  "(run_git_command e cmd cwd w = (Inr s, w1) \<longrightarrow>
      (\<exists>out err left pre suf.
         git e cmd (cwd_or_repo cwd) w = (Completed 0 out err, left) \<and> s = py_strip out \<and>
         out = pre @ s @ suf \<and> (\<forall>c \<in> set pre. is_space c) \<and> (\<forall>c \<in> set suf. is_space c)) \<and>
      (s = [] \<or> (\<not> is_space (hd s) \<and> \<not> is_space (last s))))
   \<and> (main e w0 = (r, w') \<and> reported_branch (new_events w0 w') = Some cb \<longrightarrow>
      (\<exists>out err left rest.
         new_events w0 w' =
           [Print 42 [], Print 43 [], Print 56 [path_str REPO_PATH],
            Subprocess [''git'', ''branch'', ''--show-current''] REPO_PATH (files w0)
              (Completed 0 out err) left,
            Print 60 [cb]] @ rest \<and>
         cb = py_strip out \<and>
         (cb = [] \<or> last cb \<noteq> newline) \<and>
         (if cb \<in> set [''main'', ''master'']
          then \<exists>rest'. rest = Print 77 [cb] # rest'
          else \<exists>rest'. rest = Print 64 [] # rest')))"
proof (rule conjI; rule impI)
  assume "run_git_command e cmd cwd w = (Inr s, w1)"
  then obtain out err left where g: "git e cmd (cwd_or_repo cwd) w = (Completed 0 out err, left)"
    and s: "s = py_strip out"
    by (rule run_git_command_Inr)
  from py_strip_middle[of out] s obtain pre suf where
    "out = pre @ s @ suf" "\<forall>c \<in> set pre. is_space c" "\<forall>c \<in> set suf. is_space c"
    by blast
  with g s py_strip_ends[of out]
  show "(\<exists>out err left pre suf.
         git e cmd (cwd_or_repo cwd) w = (Completed 0 out err, left) \<and> s = py_strip out \<and>
         out = pre @ s @ suf \<and> (\<forall>c \<in> set pre. is_space c) \<and> (\<forall>c \<in> set suf. is_space c)) \<and>
      (s = [] \<or> (\<not> is_space (hd s) \<and> \<not> is_space (last s)))"
    by blast
next
  assume a: "main e w0 = (r, w') \<and> reported_branch (new_events w0 w') = Some cb"
  then have run: "main e w0 = (r, w')" and rep: "reported_branch (new_events w0 w') = Some cb"
    by simp_all
  from run rep obtain out err f1 resolved w2 evs2 evs3 where
    cb: "cb = py_strip out"
    and ep: "ensure_primary e cb
         \<lparr>files = f1,
          trace = trace w0 @
            [Print 42 [], Print 43 [], Print 56 [path_str REPO_PATH],
             Subprocess [''git'', ''branch'', ''--show-current''] REPO_PATH (files w0)
               (Completed 0 out err) f1,
             Print 60 [cb]]\<rparr> = (Inr resolved, w2)"
    and fin: "case resolved of None \<Rightarrow> r = Inr () \<and> w' = w2
       | Some main_branch \<Rightarrow> build_scenario e main_branch w2 = (r, w')"
    and t2: "trace w2 = trace w0 @
            [Print 42 [], Print 43 [], Print 56 [path_str REPO_PATH],
             Subprocess [''git'', ''branch'', ''--show-current''] REPO_PATH (files w0)
               (Completed 0 out err) f1,
             Print 60 [cb]] @ evs2"
    and t3: "trace w' = trace w2 @ evs3"
    and ne: "new_events w0 w' = [Print 42 [], Print 43 [], Print 56 [path_str REPO_PATH],
             Subprocess [''git'', ''branch'', ''--show-current''] REPO_PATH (files w0)
               (Completed 0 out err) f1,
             Print 60 [cb]] @ evs2 @ evs3"
    by (rule reported_branch_main)
  have nl: "cb = [] \<or> last cb \<noteq> newline"
    using py_strip_ends[of out] cb is_space_newline by auto
  have nxt: "if cb \<in> set [''main'', ''master'']
          then \<exists>rest'. evs2 @ evs3 = Print 77 [cb] # rest'
          else \<exists>rest'. evs2 @ evs3 = Print 64 [] # rest'"
  proof (cases "cb \<in> set [''main'', ''master'']")
    case True
    from ep True have res: "resolved = Some cb" and w2: "w2 = \<lparr>files = f1,
          trace = trace w0 @
            [Print 42 [], Print 43 [], Print 56 [path_str REPO_PATH],
             Subprocess [''git'', ''branch'', ''--show-current''] REPO_PATH (files w0)
               (Completed 0 out err) f1,
             Print 60 [cb]]\<rparr>"
      by (cases rule: ensure_primary_cases; simp)+
    from w2 t2 have e2: "evs2 = []" by simp
    from fin res have "build_scenario e cb w2 = (r, w')" by simp
    then obtain rest' where "trace w' = trace w2 @ Print 77 [cb] # rest'"
      by (rule build_scenario_starts)
    with t3 have "evs3 = Print 77 [cb] # rest'" by simp
    with e2 True show ?thesis by simp
  next
    case False
    let ?w1 = "\<lparr>files = f1,
          trace = trace w0 @
            [Print 42 [], Print 43 [], Print 56 [path_str REPO_PATH],
             Subprocess [''git'', ''branch'', ''--show-current''] REPO_PATH (files w0)
               (Completed 0 out err) f1,
             Print 60 [cb]]\<rparr>"
    let ?k = "try_except
             (seq (run_git_command e [''git'', ''checkout'', ''main''] None)
                  (return (Some ''main'')))
             (try_except
                (seq (run_git_command e [''git'', ''checkout'', ''master''] None)
                     (return (Some ''master'')))
                (seq (py_print 73 [])
                     (return None)))"
    have ok: "obeys (calls_satisfy (worktree_add_ok e)) ?k"
    proof -
      note C = composable_calls_satisfy and Q = quiet_calls_satisfy
      have co: "obeys (\<lambda>x evs f. calls_satisfy (worktree_add_ok e) None evs f)
          (seq (run_git_command e [''git'', ''checkout'', c] None) (return v))"
        for c and v :: "string option"
        by (intro obeys_seq composable_as_success C obeys_worktree_add_ok_checkout obeys_return
              quiet_as_success Q)
      show ?thesis
        by (intro obeys_try_except C co obeys_seq obeys_py_print obeys_return Q)
    qed
    from ep False have "?k (?w1\<lparr>trace := trace ?w1 @ [Print 64 []]\<rparr>) = (Inr resolved, w2)"
      by (simp add: ensure_primary_def seq_py_print)
    with ok obtain evs where "trace w2 = trace (?w1\<lparr>trace := trace ?w1 @ [Print 64 []]\<rparr>) @ evs"
      by (rule obeys_extends)
    with t2 have "evs2 = Print 64 [] # evs" by simp
    with False show ?thesis by simp
  qed
  from ne cb nl nxt
  show "\<exists>out err left rest.
         new_events w0 w' =
           [Print 42 [], Print 43 [], Print 56 [path_str REPO_PATH],
            Subprocess [''git'', ''branch'', ''--show-current''] REPO_PATH (files w0)
              (Completed 0 out err) left,
            Print 60 [cb]] @ rest \<and>
         cb = py_strip out \<and>
         (cb = [] \<or> last cb \<noteq> newline) \<and>
         (if cb \<in> set [''main'', ''master'']
          then \<exists>rest'. rest = Print 77 [cb] # rest'
          else \<exists>rest'. rest = Print 64 [] # rest')"
    by blast
qed

theorem git_output_is_stripped_witness:
  "run_git_command (sample_env sample_bits) [''git'', ''branch'', ''--show-current''] None sample_world
     = (Inr ''main'',
        \<lparr>files = sample_files,
         trace = [Subprocess [''git'', ''branch'', ''--show-current''] REPO_PATH sample_files
                    (Completed 0 (''main'' @ [newline]) []) sample_files]\<rparr>)
   \<and> py_strip (''main'' @ [newline]) = ''main''
   \<and> reported_branch (new_events sample_world (snd (main (sample_env sample_bits) sample_world)))
       = Some ''main''
   \<and> last ''main'' \<noteq> newline
   \<and> new_events sample_world (snd (main (sample_env sample_bits) sample_world)) ! 5
       = Print 77 [''main'']"
proof -
  have run: "main (sample_env sample_bits) sample_world =
      (fst (main (sample_env sample_bits) sample_world), snd (main (sample_env sample_bits) sample_world))"
    by simp
  from git_output_is_stripped[where e = "sample_env sample_bits"
      and cmd = "[''git'', ''branch'', ''--show-current'']" and cwd = None and w = sample_world
      and s = "''main''" and ?w1.0 = "\<lparr>files = sample_files,
         trace = [Subprocess [''git'', ''branch'', ''--show-current''] REPO_PATH sample_files
                    (Completed 0 (''main'' @ [newline]) []) sample_files]\<rparr>"
      and ?w0.0 = sample_world and r = "fst (main (sample_env sample_bits) sample_world)"
      and w' = "snd (main (sample_env sample_bits) sample_world)" and cb = "''main''"]
    branch_query_sample reported_branch_sample run
  have "\<exists>out err left rest.
         new_events sample_world (snd (main (sample_env sample_bits) sample_world)) =
           [Print 42 [], Print 43 [], Print 56 [path_str REPO_PATH],
            Subprocess [''git'', ''branch'', ''--show-current''] REPO_PATH (files sample_world)
              (Completed 0 out err) left,
            Print 60 [''main'']] @ rest \<and>
         ''main'' = py_strip out \<and>
         (''main'' = [] \<or> last ''main'' \<noteq> newline) \<and>
         (\<exists>rest'. rest = Print 77 [''main''] # rest')"
    by simp
  then have "new_events sample_world (snd (main (sample_env sample_bits) sample_world)) ! 5
       = Print 77 [''main'']" "last ''main'' \<noteq> newline"
    by auto
  moreover have "py_strip (''main'' @ [newline]) = ''main''"
    by (simp add: py_strip_def is_space_def newline_def)
  ultimately show ?thesis using branch_query_sample reported_branch_sample by simp
qed

text \<open>
  C10. The second check passes when an entry \<^verbatim>\<open>.git\<close> of any kind, a directory or a regular
  file, is directly under the repository path: the run prints line 56 and invokes
  \<^verbatim>\<open>git branch --show-current\<close>.
\<close>

theorem dot_git_of_any_kind_passes:
  assumes dg: "lookup (files w0) (REPO_PATH @ [''.git'']) = Some ent"
    and run: "main e w0 = (r, w')"
  shows "\<exists>res left rest.
           new_events w0 w' =
             [Print 42 [], Print 43 [], Print 56 [path_str REPO_PATH],
              Subprocess [''git'', ''branch'', ''--show-current''] REPO_PATH (files w0) res left]
             @ rest"
proof -
  from dg have g: "path_exists (files w0) (REPO_PATH @ [''.git''])"
    by (simp add: path_exists_def)
  have "strict_prefix REPO_PATH (REPO_PATH @ [''.git''])" by (simp add: strict_prefix_def)
  with dg have "lookup (files w0) REPO_PATH = Some Dir"
    using lookup_ancestor[of "files w0" "REPO_PATH @ [''.git'']" REPO_PATH] by simp
  then have rp: "path_exists (files w0) REPO_PATH" by (simp add: path_exists_def)
  from run show ?thesis
  proof (cases rule: main_cases)
    case no_repo
    with rp show ?thesis by simp
  next
    case no_git
    with g show ?thesis by simp
  next
    case (query_failed x)
    from query_failed(3) obtain res left rest where
      "trace w' = trace (w0\<lparr>trace := trace w0 @ [Print 42 [], Print 43 [], Print 56 [path_str REPO_PATH]]\<rparr>)
          @ Subprocess [''git'', ''branch'', ''--show-current''] (cwd_or_repo None)
              (files (w0\<lparr>trace := trace w0 @ [Print 42 [], Print 43 [], Print 56 [path_str REPO_PATH]]\<rparr>)) res left # rest"
      by (rule run_git_command_Inl)
    then have "trace w' = trace w0 @ ([Print 42 [], Print 43 [], Print 56 [path_str REPO_PATH],
              Subprocess [''git'', ''branch'', ''--show-current''] REPO_PATH (files w0) res left]
             @ rest)"
      by (simp add: cwd_or_repo_def)
    then have "new_events w0 w' = [Print 42 [], Print 43 [], Print 56 [path_str REPO_PATH],
              Subprocess [''git'', ''branch'', ''--show-current''] REPO_PATH (files w0) res left]
             @ rest"
      by (rule new_events_eq)
    then show ?thesis by blast
  next
    case (resolved out err f1 resolved w2)
    let ?w1 = "\<lparr>files = f1,
          trace = trace w0 @
            [Print 42 [], Print 43 [], Print 56 [path_str REPO_PATH],
             Subprocess [''git'', ''branch'', ''--show-current''] REPO_PATH (files w0)
               (Completed 0 out err) f1,
             Print 60 [py_strip out]]\<rparr>"
    from obeys_worktree_add_ok_ensure_primary resolved(4)
    obtain evs2 where t2: "trace w2 = trace ?w1 @ evs2" by (rule obeys_extends)
    obtain evs3 where t3: "trace w' = trace w2 @ evs3"
    proof (cases resolved)
      case None
      with resolved(5) have "trace w' = trace w2 @ []" by simp
      then show ?thesis by (rule that)
    next
      case (Some b)
      with resolved(5) have "build_scenario e b w2 = (r, w')" by simp
      with obeys_worktree_add_ok_build_scenario show ?thesis using that by (rule obeys_extends)
    qed
    from t2 t3 have "trace w' = trace w0 @ ([Print 42 [], Print 43 [], Print 56 [path_str REPO_PATH],
             Subprocess [''git'', ''branch'', ''--show-current''] REPO_PATH (files w0)
               (Completed 0 out err) f1] @ (Print 60 [py_strip out] # evs2 @ evs3))"
      by simp
    then have "new_events w0 w' = [Print 42 [], Print 43 [], Print 56 [path_str REPO_PATH],
             Subprocess [''git'', ''branch'', ''--show-current''] REPO_PATH (files w0)
               (Completed 0 out err) f1] @ (Print 60 [py_strip out] # evs2 @ evs3)"
      by (rule new_events_eq)
    then show ?thesis by blast
  qed
qed

theorem dot_git_of_any_kind_passes_witness:
  "lookup (files linked_world) (REPO_PATH @ [''.git''])
     = Some (File ''gitdir: /Users/user/main/.git/worktrees/website'')
   \<and> (\<exists>res left rest.
         new_events linked_world (snd (main broken_env linked_world)) =
           [Print 42 [], Print 43 [], Print 56 [path_str REPO_PATH],
            Subprocess [''git'', ''branch'', ''--show-current''] REPO_PATH (files linked_world)
              res left] @ rest)"
proof -
  have run: "main broken_env linked_world =
      (fst (main broken_env linked_world), snd (main broken_env linked_world))"
    by simp
  have dg: "lookup (files linked_world) (REPO_PATH @ [''.git''])
     = Some (File ''gitdir: /Users/user/main/.git/worktrees/website'')"
    by (simp add: linked_world_def lookup_def sample_files_def REPO_PATH_def)
  from dot_git_of_any_kind_passes[OF dg run] dg show ?thesis by simp
qed

text \<open>
  C1, as the code has it. A run that starts on main or master and succeeds (it returns
  normally and has printed line 150) runs exactly eight git commands, all successful, in
  this order: the branch query; add and commit in the repository, before the worktree
  step; \<^verbatim>\<open>worktree add -b almondcoder/test-conflict-<token>\<close> with a token of 8 hexadecimal
  digits; add and commit in the worktree; add and commit in the repository. That makes
  three commits: two on the base branch and one on the new branch (whose history starts at
  the first of them), not four.
\<close>

theorem successful_run_on_primary_branch:
  assumes run: "main e w0 = (Inr (), w')"
    and fin: "Print 150 [] \<in> set (new_events w0 w')"
    and rep: "reported_branch (new_events w0 w') = Some b"
    and prim: "b \<in> set [''main'', ''master'']"
  shows "git_calls (new_events w0 w') =
           [([''git'', ''branch'', ''--show-current''], REPO_PATH, True),
            ([''git'', ''add'', TEST_FILE], REPO_PATH, True),
            ([''git'', ''commit'', ''-m'', ''Add initial abc.txt file''], REPO_PATH, True),
            ([''git'', ''worktree'', ''add'', ''-b'', almond_branch e,
              path_str (worktree_path e), b], REPO_PATH, True),
            ([''git'', ''add'', TEST_FILE], worktree_path e, True),
            ([''git'', ''commit'', ''-m'', ''Modify abc.txt in almondcoder branch''],
             worktree_path e, True),
            ([''git'', ''add'', TEST_FILE], REPO_PATH, True),
            ([''git'', ''commit'', ''-m'', ''Modify abc.txt on main branch (conflicting)''],
             REPO_PATH, True)]
         \<and> commits (new_events w0 w') =
           [(REPO_PATH, ''Add initial abc.txt file''),
            (worktree_path e, ''Modify abc.txt in almondcoder branch''),
            (REPO_PATH, ''Modify abc.txt on main branch (conflicting)'')]
         \<and> length (commits (new_events w0 w')) = 3
         \<and> almond_branch e = ''almondcoder/test-conflict-'' @ short_uuid e
         \<and> length (short_uuid e) = 8
         \<and> set (short_uuid e) \<subseteq> set ''0123456789abcdef''"
proof -
  from run fin obtain out err f1 b' w2 evs2 evs3 where
    ne: "new_events w0 w' =
       [Print 42 [], Print 43 [], Print 56 [path_str REPO_PATH],
        Subprocess [''git'', ''branch'', ''--show-current''] REPO_PATH (files w0)
          (Completed 0 out err) f1,
        Print 60 [py_strip out]] @ evs2 @ evs3"
    and bs: "build_scenario e b' w2 = (Inr (), w')" and t3: "trace w' = trace w2 @ evs3"
    and pr: "py_strip out \<in> set [''main'', ''master''] \<longrightarrow> evs2 = [] \<and> b' = py_strip out"
    by (rule main_success)
  from rep ne have b: "b = py_strip out" by simp
  with pr prim have e2: "evs2 = []" and b': "b' = b" by auto
  from bs b' obtain f1 o1 e1 f2 o2 e2 f3 mid seen o3 e3 f4 f5 o4 e4 f6 o5 e5 f7 f8 o6 e6 f9 o7 e7
    where tr: "trace w' = trace w2 @
       [Print 77 [b],
        Print 81 [TEST_FILE], WriteText (REPO_PATH @ [TEST_FILE]) initial_content,
        Subprocess [''git'', ''add'', TEST_FILE] REPO_PATH f1 (Completed 0 o1 e1) f2,
        Subprocess [''git'', ''commit'', ''-m'', ''Add initial abc.txt file''] REPO_PATH f2
          (Completed 0 o2 e2) f3,
        Print 92 [TEST_FILE, b]] @ mid @
       [Subprocess [''git'', ''worktree'', ''add'', ''-b'', almond_branch e,
                    path_str (worktree_path e), b] REPO_PATH seen (Completed 0 o3 e3) f4,
        Print 118 [path_str (worktree_path e)],
        Print 128 [TEST_FILE], WriteText (worktree_path e @ [TEST_FILE]) almond_content,
        Subprocess [''git'', ''add'', TEST_FILE] (worktree_path e) f5 (Completed 0 o4 e4) f6,
        Subprocess [''git'', ''commit'', ''-m'', ''Modify abc.txt in almondcoder branch'']
          (worktree_path e) f6 (Completed 0 o5 e5) f7,
        Print 132 [TEST_FILE, almond_branch e],
        Print 135 [b], WriteText (REPO_PATH @ [TEST_FILE]) main_content,
        Subprocess [''git'', ''add'', TEST_FILE] REPO_PATH f8 (Completed 0 o6 e6) f9,
        Subprocess [''git'', ''commit'', ''-m'', ''Modify abc.txt on main branch (conflicting)'']
          REPO_PATH f9 (Completed 0 o7 e7) (files w'),
        Print 146 [b]] @
       map (\<lambda>(l, args). Print l args) (summary e b)"
    and mid: "\<forall>ev \<in> set mid. \<not> is_subprocess ev"
    by (auto elim: build_scenario_Inr)
  from tr t3 have e3: "evs3 =
       [Print 77 [b],
        Print 81 [TEST_FILE], WriteText (REPO_PATH @ [TEST_FILE]) initial_content,
        Subprocess [''git'', ''add'', TEST_FILE] REPO_PATH f1 (Completed 0 o1 e1) f2,
        Subprocess [''git'', ''commit'', ''-m'', ''Add initial abc.txt file''] REPO_PATH f2
          (Completed 0 o2 e2) f3,
        Print 92 [TEST_FILE, b]] @ mid @
       [Subprocess [''git'', ''worktree'', ''add'', ''-b'', almond_branch e,
                    path_str (worktree_path e), b] REPO_PATH seen (Completed 0 o3 e3) f4,
        Print 118 [path_str (worktree_path e)],
        Print 128 [TEST_FILE], WriteText (worktree_path e @ [TEST_FILE]) almond_content,
        Subprocess [''git'', ''add'', TEST_FILE] (worktree_path e) f5 (Completed 0 o4 e4) f6,
        Subprocess [''git'', ''commit'', ''-m'', ''Modify abc.txt in almondcoder branch'']
          (worktree_path e) f6 (Completed 0 o5 e5) f7,
        Print 132 [TEST_FILE, almond_branch e],
        Print 135 [b], WriteText (REPO_PATH @ [TEST_FILE]) main_content,
        Subprocess [''git'', ''add'', TEST_FILE] REPO_PATH f8 (Completed 0 o6 e6) f9,
        Subprocess [''git'', ''commit'', ''-m'', ''Modify abc.txt on main branch (conflicting)'']
          REPO_PATH f9 (Completed 0 o7 e7) (files w'),
        Print 146 [b]] @
       map (\<lambda>(l, args). Print l args) (summary e b)"
    by simp
  have gc: "git_calls (new_events w0 w') =
           [([''git'', ''branch'', ''--show-current''], REPO_PATH, True),
            ([''git'', ''add'', TEST_FILE], REPO_PATH, True),
            ([''git'', ''commit'', ''-m'', ''Add initial abc.txt file''], REPO_PATH, True),
            ([''git'', ''worktree'', ''add'', ''-b'', almond_branch e,
              path_str (worktree_path e), b], REPO_PATH, True),
            ([''git'', ''add'', TEST_FILE], worktree_path e, True),
            ([''git'', ''commit'', ''-m'', ''Modify abc.txt in almondcoder branch''],
             worktree_path e, True),
            ([''git'', ''add'', TEST_FILE], REPO_PATH, True),
            ([''git'', ''commit'', ''-m'', ''Modify abc.txt on main branch (conflicting)''],
             REPO_PATH, True)]"
    unfolding ne e2 e3 using git_calls_no_subprocess[OF mid] by simp
  have cm: "commits (new_events w0 w') =
           [(REPO_PATH, ''Add initial abc.txt file''),
            (worktree_path e, ''Modify abc.txt in almondcoder branch''),
            (REPO_PATH, ''Modify abc.txt on main branch (conflicting)'')]"
    unfolding commits_def gc by simp
  from gc cm show ?thesis
    using short_uuid_hex[of e] by (simp add: almond_branch_def)
qed

theorem successful_run_on_primary_branch_witness:
  "fst (main (sample_env sample_bits) sample_world) = Inr ()
   \<and> Print 150 [] \<in> set (new_events sample_world (snd (main (sample_env sample_bits) sample_world)))
   \<and> reported_branch (new_events sample_world (snd (main (sample_env sample_bits) sample_world)))
       = Some ''main''
   \<and> ''main'' \<in> set [''main'', ''master'']
   \<and> commits (new_events sample_world (snd (main (sample_env sample_bits) sample_world))) =
       [(REPO_PATH, ''Add initial abc.txt file''),
        ([''Users'', ''user'', ''.almondcoder'', ''website'', ''test-conflict-12345678''],
         ''Modify abc.txt in almondcoder branch''),
        (REPO_PATH, ''Modify abc.txt on main branch (conflicting)'')]
   \<and> almond_branch (sample_env sample_bits) = ''almondcoder/test-conflict-12345678''"
proof -
  have p: "''main'' \<in> set [''main'', ''master'']" by simp
  from successful_run_on_primary_branch[OF sample_run_returns line_150_sample
      reported_branch_sample p]
    line_150_sample reported_branch_sample sample_run_fst
  show ?thesis by (simp add: names_sample short_uuid_sample)
qed

text \<open>
  C1 as stated counts four new commits. The sample run starts on main, succeeds, and makes
  three.
\<close>

theorem four_commits_counterexample:
  "fst (main (sample_env sample_bits) sample_world) = Inr ()
   \<and> Print 150 [] \<in> set (new_events sample_world (snd (main (sample_env sample_bits) sample_world)))
   \<and> reported_branch (new_events sample_world (snd (main (sample_env sample_bits) sample_world)))
       = Some ''main''
   \<and> length (commits (new_events sample_world (snd (main (sample_env sample_bits) sample_world))))
       \<noteq> 4"
proof -
  have "commits sample_trace =
       [(REPO_PATH, ''Add initial abc.txt file''),
        (worktree_path (sample_env sample_bits), ''Modify abc.txt in almondcoder branch''),
        (REPO_PATH, ''Modify abc.txt on main branch (conflicting)'')]"
    by (simp add: sample_trace_def Let_def commits_def summary_def)
  then show ?thesis
    using line_150_sample reported_branch_sample sample_run_fst
    by (simp add: new_events_sample_run)
qed

text \<open>
  C2. In a successful run the three \<^verbatim>\<open>git add abc.txt\<close> find, in order, the initial content
  in the repository, the assistant's version in the worktree and the conflicting version in
  the repository. The last two have four lines each, are equal on lines 1 and 4
  (\<^verbatim>\<open>Line 1: Initial content\<close>, \<^verbatim>\<open>Line 4: Final line\<close>), differ on lines 2 and 3, and both
  differ there from the initial content that is their common ancestor: both branches
  changed the same two lines in different ways.
\<close>

theorem fixture_versions_conflict:
  assumes run: "main e w0 = (Inr (), w')"
    and fin: "Print 150 [] \<in> set (new_events w0 w')"
  shows "staged (new_events w0 w') =
           [(REPO_PATH, Some (File initial_content)),
            (worktree_path e, Some (File almond_content)),
            (REPO_PATH, Some (File main_content))]
         \<and> length (text_lines [] main_content) = 4
         \<and> length (text_lines [] almond_content) = 4
         \<and> text_lines [] main_content ! 0 = ''Line 1: Initial content''
         \<and> text_lines [] almond_content ! 0 = ''Line 1: Initial content''
         \<and> text_lines [] main_content ! 3 = ''Line 4: Final line''
         \<and> text_lines [] almond_content ! 3 = ''Line 4: Final line''
         \<and> text_lines [] main_content ! 1 \<noteq> text_lines [] almond_content ! 1
         \<and> text_lines [] main_content ! 2 \<noteq> text_lines [] almond_content ! 2
         \<and> text_lines [] initial_content ! 1 \<noteq> text_lines [] main_content ! 1
         \<and> text_lines [] initial_content ! 1 \<noteq> text_lines [] almond_content ! 1
         \<and> text_lines [] initial_content ! 2 \<noteq> text_lines [] main_content ! 2
         \<and> text_lines [] initial_content ! 2 \<noteq> text_lines [] almond_content ! 2"
proof -
  from run fin obtain out err f1 b w2 evs2 evs3 where
    ne: "new_events w0 w' =
       [Print 42 [], Print 43 [], Print 56 [path_str REPO_PATH],
        Subprocess [''git'', ''branch'', ''--show-current''] REPO_PATH (files w0)
          (Completed 0 out err) f1,
        Print 60 [py_strip out]] @ evs2 @ evs3"
    and bs: "build_scenario e b w2 = (Inr (), w')" and t3: "trace w' = trace w2 @ evs3"
    and st: "staged evs2 = []"
    by (rule main_success)
  from bs obtain f1 o1 e1 f2 o2 e2 f3 mid seen o3 e3 f4 f5 o4 e4 f6 o5 e5 f7 f8 o6 e6 f9 o7 e7
    where tr: "trace w' = trace w2 @
       [Print 77 [b],
        Print 81 [TEST_FILE], WriteText (REPO_PATH @ [TEST_FILE]) initial_content,
        Subprocess [''git'', ''add'', TEST_FILE] REPO_PATH f1 (Completed 0 o1 e1) f2,
        Subprocess [''git'', ''commit'', ''-m'', ''Add initial abc.txt file''] REPO_PATH f2
          (Completed 0 o2 e2) f3,
        Print 92 [TEST_FILE, b]] @ mid @
       [Subprocess [''git'', ''worktree'', ''add'', ''-b'', almond_branch e,
                    path_str (worktree_path e), b] REPO_PATH seen (Completed 0 o3 e3) f4,
        Print 118 [path_str (worktree_path e)],
        Print 128 [TEST_FILE], WriteText (worktree_path e @ [TEST_FILE]) almond_content,
        Subprocess [''git'', ''add'', TEST_FILE] (worktree_path e) f5 (Completed 0 o4 e4) f6,
        Subprocess [''git'', ''commit'', ''-m'', ''Modify abc.txt in almondcoder branch'']
          (worktree_path e) f6 (Completed 0 o5 e5) f7,
        Print 132 [TEST_FILE, almond_branch e],
        Print 135 [b], WriteText (REPO_PATH @ [TEST_FILE]) main_content,
        Subprocess [''git'', ''add'', TEST_FILE] REPO_PATH f8 (Completed 0 o6 e6) f9,
        Subprocess [''git'', ''commit'', ''-m'', ''Modify abc.txt on main branch (conflicting)'']
          REPO_PATH f9 (Completed 0 o7 e7) (files w'),
        Print 146 [b]] @
       map (\<lambda>(l, args). Print l args) (summary e b)"
    and mid: "\<forall>ev \<in> set mid. \<not> is_subprocess ev"
    and l1: "lookup f1 (REPO_PATH @ [TEST_FILE]) = Some (File initial_content)"
    and l5: "lookup f5 (worktree_path e @ [TEST_FILE]) = Some (File almond_content)"
    and l8: "lookup f8 (REPO_PATH @ [TEST_FILE]) = Some (File main_content)"
    by (auto elim: build_scenario_Inr)
  from tr t3 have e3: "evs3 =
       [Print 77 [b],
        Print 81 [TEST_FILE], WriteText (REPO_PATH @ [TEST_FILE]) initial_content,
        Subprocess [''git'', ''add'', TEST_FILE] REPO_PATH f1 (Completed 0 o1 e1) f2,
        Subprocess [''git'', ''commit'', ''-m'', ''Add initial abc.txt file''] REPO_PATH f2
          (Completed 0 o2 e2) f3,
        Print 92 [TEST_FILE, b]] @ mid @
       [Subprocess [''git'', ''worktree'', ''add'', ''-b'', almond_branch e,
                    path_str (worktree_path e), b] REPO_PATH seen (Completed 0 o3 e3) f4,
        Print 118 [path_str (worktree_path e)],
        Print 128 [TEST_FILE], WriteText (worktree_path e @ [TEST_FILE]) almond_content,
        Subprocess [''git'', ''add'', TEST_FILE] (worktree_path e) f5 (Completed 0 o4 e4) f6,
        Subprocess [''git'', ''commit'', ''-m'', ''Modify abc.txt in almondcoder branch'']
          (worktree_path e) f6 (Completed 0 o5 e5) f7,
        Print 132 [TEST_FILE, almond_branch e],
        Print 135 [b], WriteText (REPO_PATH @ [TEST_FILE]) main_content,
        Subprocess [''git'', ''add'', TEST_FILE] REPO_PATH f8 (Completed 0 o6 e6) f9,
        Subprocess [''git'', ''commit'', ''-m'', ''Modify abc.txt on main branch (conflicting)'']
          REPO_PATH f9 (Completed 0 o7 e7) (files w'),
        Print 146 [b]] @
       map (\<lambda>(l, args). Print l args) (summary e b)"
    by simp
  have sg: "staged (new_events w0 w') =
           [(REPO_PATH, Some (File initial_content)),
            (worktree_path e, Some (File almond_content)),
            (REPO_PATH, Some (File main_content))]"
    unfolding ne e3 using staged_no_subprocess[OF mid] st l1 l5 l8 by simp
  show ?thesis
    unfolding text_lines_initial text_lines_almond text_lines_main using sg by simp
qed

theorem fixture_versions_conflict_witness:
  "fst (main (sample_env sample_bits) sample_world) = Inr ()
   \<and> Print 150 [] \<in> set (new_events sample_world (snd (main (sample_env sample_bits) sample_world)))
   \<and> staged (new_events sample_world (snd (main (sample_env sample_bits) sample_world))) =
       [(REPO_PATH, Some (File initial_content)),
        ([''Users'', ''user'', ''.almondcoder'', ''website'', ''test-conflict-12345678''],
         Some (File almond_content)),
        (REPO_PATH, Some (File main_content))]
   \<and> text_lines [] main_content ! 1 = ''Line 2: MAIN VERSION - This is the manual change''
   \<and> text_lines [] almond_content ! 1 =
       ''Line 2: ALMONDCODER VERSION - This is the AI'' @ [CHR 0x27] @ ''s change''"
proof -
  from fixture_versions_conflict[OF sample_run_returns line_150_sample] line_150_sample
    sample_run_fst
  show ?thesis
    by (simp add: names_sample text_lines_main text_lines_almond)
qed





end
